(* ===== verification/Prelude.thy ===== *)
theory Prelude
  imports Complex_Main "HOL-Library.Word" "HOL-Library.Multiset"
begin

text \<open>
  Shared vocabulary of the development: the Python exceptions the sources raise and catch,
  computations that read and write a state and may raise (with the \<open>try\<close> forms the sources
  use), a weakest-precondition calculus for them, the floating-point deadlines of the Rust
  core, and the list facts several components need.
\<close>

section \<open>Bytes and exceptions\<close>

type_synonym byte = "8 word"
type_synonym bytes = "byte list"

text \<open>
  The exception classes that occur in the sources, with the data the code looks at (the
  errno of an \<open>OSError\<close>, the message of the others). \<open>AppException\<close> stands for any
  exception class of the application that derives from \<open>Exception\<close>.
\<close>

datatype pyexc =
    SystemExit
  | KeyboardInterrupt
  | CancelledError
  | BlockingIOError
  | InterruptedError
  | ConnectionAbortedError
  | FileNotFoundError
  | ConnectionError string
  | TimeoutError string
  | OSError int string
  | TypeError string
  | ValueError string
  | RuntimeError string
  | AttributeError string
  | IndexError string
  | KeyError
  | AssertionError string
  | NotImplementedError string
  | InvalidStateError
  | SendfileNotAvailableError
  | ExceptionGroup string "pyexc list"
  | AppException nat

text \<open>\<open>except (BlockingIOError, InterruptedError)\<close>, \<open>except (SystemExit,
  KeyboardInterrupt)\<close>, \<open>isinstance(exc, OSError)\<close> and \<open>except Exception\<close>.\<close>

fun is_blocking :: "pyexc \<Rightarrow> bool" where
  "is_blocking BlockingIOError = True"
| "is_blocking InterruptedError = True"
| "is_blocking _ = False"

fun is_exit :: "pyexc \<Rightarrow> bool" where
  "is_exit SystemExit = True"
| "is_exit KeyboardInterrupt = True"
| "is_exit _ = False"

fun is_oserror :: "pyexc \<Rightarrow> bool" where
  "is_oserror BlockingIOError = True"
| "is_oserror InterruptedError = True"
| "is_oserror ConnectionAbortedError = True"
| "is_oserror FileNotFoundError = True"
| "is_oserror (ConnectionError _) = True"
| "is_oserror (TimeoutError _) = True"
| "is_oserror (OSError _ _) = True"
| "is_oserror _ = False"

fun is_Exception :: "pyexc \<Rightarrow> bool" where
  "is_Exception SystemExit = False"
| "is_Exception KeyboardInterrupt = False"
| "is_Exception CancelledError = False"
| "is_Exception _ = True"

lemma blocking_not_exit [simp]: "is_blocking e \<Longrightarrow> \<not> is_exit e"
  by (cases e) auto

lemma oserror_not_exit [simp]: "is_oserror e \<Longrightarrow> \<not> is_exit e"
  by (cases e) auto

lemma blocking_is_oserror [simp]: "is_blocking e \<Longrightarrow> is_oserror e"
  by (cases e) auto

section \<open>Computations that read, write and raise\<close>

text \<open>
  A method of the sources is a function from the state to a result and a new state; the
  result is \<open>Inl e\<close> when the method raises \<open>e\<close>. A raise keeps the writes made before
  it, as in Python.
\<close>

type_synonym ('w, 'a) py = "'w \<Rightarrow> (pyexc + 'a) \<times> 'w"

definition py_ret :: "'a \<Rightarrow> ('w, 'a) py" where
  "py_ret x w = (Inr x, w)"

definition py_raise :: "pyexc \<Rightarrow> ('w, 'a) py" where
  "py_raise e w = (Inl e, w)"

definition py_mod :: "('w \<Rightarrow> 'w) \<Rightarrow> ('w, unit) py" where
  "py_mod f w = (Inr (), f w)"

definition py_get :: "('w \<Rightarrow> 'a) \<Rightarrow> ('w, 'a) py" where
  "py_get f w = (Inr (f w), w)"

definition py_bind :: "('w, 'a) py \<Rightarrow> ('a \<Rightarrow> ('w, 'b) py) \<Rightarrow> ('w, 'b) py" where
  "py_bind m k w = (case m w of (Inl e, w') \<Rightarrow> (Inl e, w') | (Inr x, w') \<Rightarrow> k x w')"

definition py_seq :: "('w, 'a) py \<Rightarrow> ('w, 'b) py \<Rightarrow> ('w, 'b) py" where
  "py_seq m n = py_bind m (\<lambda>_. n)"

definition py_if :: "('w \<Rightarrow> bool) \<Rightarrow> ('w, 'a) py \<Rightarrow> ('w, 'a) py \<Rightarrow> ('w, 'a) py" where
  "py_if c m n w = (if c w then m w else n w)"

definition py_with :: "('w \<Rightarrow> 'a) \<Rightarrow> ('a \<Rightarrow> ('w, 'b) py) \<Rightarrow> ('w, 'b) py" where
  "py_with f k w = k (f w) w"

text \<open>\<open>if c: m\<close> with no \<open>else\<close>.\<close>

definition py_when :: "('w \<Rightarrow> bool) \<Rightarrow> ('w, unit) py \<Rightarrow> ('w, unit) py" where
  "py_when c m = py_if c m (py_ret ())"

text \<open>\<open>try: m except BaseException as e: h e else: k\<close>; the handler re-raises what the
  source's clauses do not catch.\<close>

definition py_try_else ::
  "('w, 'a) py \<Rightarrow> (pyexc \<Rightarrow> ('w, 'b) py) \<Rightarrow> ('a \<Rightarrow> ('w, 'b) py) \<Rightarrow> ('w, 'b) py" where
  "py_try_else m h k w = (case m w of (Inl e, w') \<Rightarrow> h e w' | (Inr x, w') \<Rightarrow> k x w')"

definition py_try :: "('w, 'a) py \<Rightarrow> (pyexc \<Rightarrow> ('w, 'a) py) \<Rightarrow> ('w, 'a) py" where
  "py_try m h = py_try_else m h py_ret"

text \<open>\<open>try: m finally: f\<close>; an exception of \<open>f\<close> replaces the one of \<open>m\<close>.\<close>

definition py_finally :: "('w, 'a) py \<Rightarrow> ('w, unit) py \<Rightarrow> ('w, 'a) py" where
  "py_finally m f w =
     (case m w of (r, w') \<Rightarrow> (case f w' of (Inl e, w'') \<Rightarrow> (Inl e, w'') | (Inr _, w'') \<Rightarrow> (r, w'')))"

text \<open>A pure check that raises or passes, as a computation.\<close>

definition py_check :: "('w \<Rightarrow> pyexc + 'a) \<Rightarrow> ('w, 'a) py" where
  "py_check f w = (f w, w)"

section \<open>Weakest preconditions\<close>

text \<open>
  \<open>wp m Q E w\<close>: run from \<open>w\<close>, \<open>m\<close> either returns \<open>x\<close> in a state with
  \<open>Q x\<close> or raises \<open>e\<close> in a state with \<open>E e\<close>. The equations below push \<open>wp\<close>
  through every combinator, so a triple about a method becomes a formula about its state.
\<close>

definition wp :: "('w, 'a) py \<Rightarrow> ('a \<Rightarrow> 'w \<Rightarrow> bool) \<Rightarrow> (pyexc \<Rightarrow> 'w \<Rightarrow> bool) \<Rightarrow> 'w \<Rightarrow> bool" where
  "wp m Q E w = (case m w of (Inl e, w') \<Rightarrow> E e w' | (Inr x, w') \<Rightarrow> Q x w')"

named_theorems wp_rules \<open>equations of the weakest-precondition calculus\<close>

lemma wp_ret [wp_rules]: "wp (py_ret x) Q E w = Q x w"
  by (simp add: wp_def py_ret_def)

lemma wp_raise [wp_rules]: "wp (py_raise e) Q E w = E e w"
  by (simp add: wp_def py_raise_def)

lemma wp_ret_fun: "wp (py_ret x) Q E = Q x"
  by (simp add: wp_ret fun_eq_iff)

lemma wp_raise_fun: "wp (py_raise e) Q E = E e"
  by (simp add: wp_raise fun_eq_iff)

lemma wp_mod [wp_rules]: "wp (py_mod f) Q E w = Q () (f w)"
  by (simp add: wp_def py_mod_def)

lemma wp_get [wp_rules]: "wp (py_get f) Q E w = Q (f w) w"
  by (simp add: wp_def py_get_def)

lemma wp_bind [wp_rules]: "wp (py_bind m k) Q E w = wp m (\<lambda>x. wp (k x) Q E) E w"
  by (simp add: wp_def py_bind_def split: prod.split sum.split)

lemma wp_seq [wp_rules]: "wp (py_seq m n) Q E w = wp m (\<lambda>_. wp n Q E) E w"
  by (simp add: py_seq_def wp_bind)

lemma wp_if [wp_rules]: "wp (py_if c m n) Q E w = (if c w then wp m Q E w else wp n Q E w)"
  by (simp add: wp_def py_if_def)

lemma wp_with [wp_rules]: "wp (py_with f k) Q E w = wp (k (f w)) Q E w"
  by (simp add: wp_def py_with_def)

lemma wp_when [wp_rules]: "wp (py_when c m) Q E w = (if c w then wp m Q E w else Q () w)"
  by (simp add: py_when_def wp_if wp_ret)

lemma wp_try_else [wp_rules]:
  "wp (py_try_else m h k) Q E w = wp m (\<lambda>x. wp (k x) Q E) (\<lambda>e. wp (h e) Q E) w"
  by (simp add: wp_def py_try_else_def split: prod.split sum.split)

lemma wp_try [wp_rules]: "wp (py_try m h) Q E w = wp m Q (\<lambda>e. wp (h e) Q E) w"
  by (simp add: wp_def py_try_def py_try_else_def py_ret_def split: prod.split sum.split)

lemma wp_finally [wp_rules]:
  "wp (py_finally m f) Q E w = wp m (\<lambda>x. wp f (\<lambda>_. Q x) E) (\<lambda>e. wp f (\<lambda>_. E e) E) w"
  by (simp add: wp_def py_finally_def split: prod.split sum.split)

lemma wp_check [wp_rules]:
  "wp (py_check f) Q E w = (case f w of Inl e \<Rightarrow> E e w | Inr x \<Rightarrow> Q x w)"
  by (simp add: wp_def py_check_def)

lemma wp_if_val [wp_rules]: "wp (if b then m else n) Q E w = (if b then wp m Q E w else wp n Q E w)"
  by simp

lemma wp_case_option [wp_rules]:
  "wp (case x of None \<Rightarrow> m | Some y \<Rightarrow> k y) Q E w =
     (case x of None \<Rightarrow> wp m Q E w | Some y \<Rightarrow> wp (k y) Q E w)"
  by (cases x) simp_all

lemma wp_case_list [wp_rules]:
  "wp (case x of [] \<Rightarrow> m | y # ys \<Rightarrow> k y ys) Q E w =
     (case x of [] \<Rightarrow> wp m Q E w | y # ys \<Rightarrow> wp (k y ys) Q E w)"
  by (cases x) simp_all

lemma wp_case_prod [wp_rules]:
  "wp (case x of (a, b) \<Rightarrow> k a b) Q E w = (case x of (a, b) \<Rightarrow> wp (k a b) Q E w)"
  by (cases x) simp_all

lemma wp_case_sum [wp_rules]:
  "wp (case x of Inl a \<Rightarrow> k a | Inr b \<Rightarrow> l b) Q E w =
     (case x of Inl a \<Rightarrow> wp (k a) Q E w | Inr b \<Rightarrow> wp (l b) Q E w)"
  by (cases x) simp_all

lemma wp_mono:
  assumes "wp m Q' E' w"
    and "\<And>x w'. Q' x w' \<Longrightarrow> Q x w'" and "\<And>e w'. E' e w' \<Longrightarrow> E e w'"
  shows "wp m Q E w"
  using assms by (auto simp: wp_def split: prod.splits sum.splits)

lemma wp_conj: "wp m Q E w \<Longrightarrow> wp m Q' E' w \<Longrightarrow> wp m (\<lambda>x v. Q x v \<and> Q' x v) (\<lambda>e v. E e v \<and> E' e v) w"
  by (auto simp: wp_def split: prod.splits sum.splits)

lemma wp_result: "wp m Q E w \<Longrightarrow> m w = (Inr x, w') \<Longrightarrow> Q x w'"
  by (simp add: wp_def)

lemma wp_state: "wp m (\<lambda>_. Q) (\<lambda>_. Q) w = Q (snd (m w))"
  by (simp add: wp_def split: prod.split sum.split)

text \<open>
  \<open>py_inv I m\<close>: the method \<open>m\<close> keeps the invariant \<open>I\<close>, whether it returns or
  raises. \<open>py_keeps R m\<close>: every run of \<open>m\<close> relates its first and last state by \<open>R\<close>.
\<close>

definition py_inv :: "('w \<Rightarrow> bool) \<Rightarrow> ('w, 'a) py \<Rightarrow> bool" where
  "py_inv I m \<longleftrightarrow> (\<forall>w. I w \<longrightarrow> wp m (\<lambda>_. I) (\<lambda>_. I) w)"

definition py_keeps :: "('w \<Rightarrow> 'w \<Rightarrow> bool) \<Rightarrow> ('w, 'a) py \<Rightarrow> bool" where
  "py_keeps R m \<longleftrightarrow> (\<forall>w. R w (snd (m w)))"

named_theorems py_inv_rules \<open>introduction rules for \<open>py_inv\<close>\<close>
named_theorems py_keeps_rules \<open>introduction rules for \<open>py_keeps\<close>\<close>

lemma py_invI: "(\<And>w. I w \<Longrightarrow> wp m (\<lambda>_. I) (\<lambda>_. I) w) \<Longrightarrow> py_inv I m"
  by (simp add: py_inv_def)

lemma py_invD: "py_inv I m \<Longrightarrow> I w \<Longrightarrow> I (snd (m w))"
  by (simp add: py_inv_def wp_state)

lemma py_inv_wp:
  assumes "py_inv I m" and "I w"
    and "\<And>x w'. I w' \<Longrightarrow> Q x w'" and "\<And>e w'. I w' \<Longrightarrow> E e w'"
  shows "wp m Q E w"
proof -
  from assms(1,2) have "wp m (\<lambda>_. I) (\<lambda>_. I) w" by (simp add: py_inv_def)
  then show ?thesis by (rule wp_mono) (fact assms(3,4))+
qed

lemma py_inv_ret [py_inv_rules]: "py_inv I (py_ret x)"
  by (simp add: py_inv_def wp_rules)

lemma py_inv_raise [py_inv_rules]: "py_inv I (py_raise e)"
  by (simp add: py_inv_def wp_rules)

lemma py_inv_get [py_inv_rules]: "py_inv I (py_get f)"
  by (simp add: py_inv_def wp_rules)

lemma py_inv_check [py_inv_rules]: "py_inv I (py_check f)"
  by (simp add: py_inv_def wp_rules split: sum.split)

lemma py_inv_mod: "(\<And>w. I w \<Longrightarrow> I (f w)) \<Longrightarrow> py_inv I (py_mod f)"
  by (simp add: py_inv_def wp_rules)

lemma py_inv_bind [py_inv_rules]:
  "py_inv I m \<Longrightarrow> (\<And>x. py_inv I (k x)) \<Longrightarrow> py_inv I (py_bind m k)"
  by (rule py_invI, unfold wp_rules, erule (1) py_inv_wp) (simp_all add: py_inv_def)

lemma py_inv_seq [py_inv_rules]: "py_inv I m \<Longrightarrow> py_inv I n \<Longrightarrow> py_inv I (py_seq m n)"
  by (simp add: py_seq_def py_inv_bind)

lemma py_inv_if [py_inv_rules]: "py_inv I m \<Longrightarrow> py_inv I n \<Longrightarrow> py_inv I (py_if c m n)"
  by (simp add: py_inv_def wp_rules)

lemma py_inv_when [py_inv_rules]: "py_inv I m \<Longrightarrow> py_inv I (py_when c m)"
  by (simp add: py_inv_def wp_rules)

lemma py_inv_with [py_inv_rules]: "(\<And>x. py_inv I (k x)) \<Longrightarrow> py_inv I (py_with f k)"
  by (simp add: py_inv_def wp_rules)

lemma py_inv_try_else [py_inv_rules]:
  "py_inv I m \<Longrightarrow> (\<And>e. py_inv I (h e)) \<Longrightarrow> (\<And>x. py_inv I (k x)) \<Longrightarrow> py_inv I (py_try_else m h k)"
  by (rule py_invI, unfold wp_rules, erule (1) py_inv_wp) (simp_all add: py_inv_def)

lemma py_inv_try [py_inv_rules]:
  "py_inv I m \<Longrightarrow> (\<And>e. py_inv I (h e)) \<Longrightarrow> py_inv I (py_try m h)"
  by (simp add: py_try_def py_inv_rules)

lemma py_inv_finally [py_inv_rules]: "py_inv I m \<Longrightarrow> py_inv I f \<Longrightarrow> py_inv I (py_finally m f)"
  by (rule py_invI, unfold wp_rules, erule (1) py_inv_wp) (simp_all add: py_inv_def)

lemma py_inv_if_val [py_inv_rules]:
  "(b \<Longrightarrow> py_inv I m) \<Longrightarrow> (\<not> b \<Longrightarrow> py_inv I n) \<Longrightarrow> py_inv I (if b then m else n)"
  by simp

lemma py_inv_case_option [py_inv_rules]:
  "py_inv I m \<Longrightarrow> (\<And>y. py_inv I (k y)) \<Longrightarrow> py_inv I (case x of None \<Rightarrow> m | Some y \<Rightarrow> k y)"
  by (cases x) simp_all

lemma py_inv_case_list [py_inv_rules]:
  "py_inv I m \<Longrightarrow> (\<And>y ys. py_inv I (k y ys)) \<Longrightarrow> py_inv I (case x of [] \<Rightarrow> m | y # ys \<Rightarrow> k y ys)"
  by (cases x) simp_all

lemma py_inv_case_prod [py_inv_rules]:
  "(\<And>a b. py_inv I (k a b)) \<Longrightarrow> py_inv I (case x of (a, b) \<Rightarrow> k a b)"
  by (cases x) simp_all

text \<open>Keeping a reflexive, transitive relation is keeping the invariant \<open>R w0\<close> for every \<open>w0\<close>.\<close>

lemma py_keeps_inv:
  assumes "reflp R" and "transp R"
  shows "py_keeps R m \<longleftrightarrow> (\<forall>w0. py_inv (R w0) m)"
proof
  assume "py_keeps R m"
  with assms(2) show "\<forall>w0. py_inv (R w0) m"
    by (auto simp: py_keeps_def py_inv_def wp_state elim: transpE)
next
  assume "\<forall>w0. py_inv (R w0) m"
  with assms(1) show "py_keeps R m"
    by (auto simp: py_keeps_def py_inv_def wp_state dest: reflpD)
qed

end
