(* ===== verification/Loop_State.thy ===== *)
theory Loop_State
  imports Prelude
begin

text \<open>
  The shared state of one event loop, from \<^verbatim>\<open>src/src/state.rs\<close>: ready entries, timer
  entries and their order, the per-descriptor slots and records, I/O completions, and the
  record \<open>loop_state\<close> itself with the clock and the next deadline.

  Objects the Rust code shares behind an \<open>Arc\<close> live in stores of the state: a cancel flag
  (\<open>Arc<AtomicBool>\<close>) is an index into \<open>flags\<close>, a slot (\<open>Arc<Mutex<FdSlotState>>\<close>) an
  index into \<open>slots\<close>; both are allocated from counters. A watcher task and its rendezvous
  \<open>Notify\<close> are named by the slot they serve. The type variable \<open>'cb\<close> is the type of Python
  callables, and the record is extensible: the Python subclass and the transports add fields.
\<close>

section \<open>Deadlines\<close>

text \<open>
  The \<open>f64\<close> values of deadlines and clock readings: a rational, an infinity or NaN.
  Rounding is not modelled; comparisons with NaN are, since the timer order depends on them.
\<close>

datatype f64 = NaN | NegInf | Fin rat | PosInf

datatype ordering = Less | Equal | Greater

fun f64_partial_cmp :: "f64 \<Rightarrow> f64 \<Rightarrow> ordering option" where
  "f64_partial_cmp NaN _ = None"
| "f64_partial_cmp _ NaN = None"
| "f64_partial_cmp (Fin a) (Fin b) =
     Some (if a < b then Less else if a = b then Equal else Greater)"
| "f64_partial_cmp NegInf NegInf = Some Equal"
| "f64_partial_cmp NegInf _ = Some Less"
| "f64_partial_cmp PosInf PosInf = Some Equal"
| "f64_partial_cmp PosInf _ = Some Greater"
| "f64_partial_cmp (Fin _) NegInf = Some Greater"
| "f64_partial_cmp (Fin _) PosInf = Some Less"

definition f64_le :: "f64 \<Rightarrow> f64 \<Rightarrow> bool" where
  "f64_le a b = (case f64_partial_cmp a b of Some Less \<Rightarrow> True | Some Equal \<Rightarrow> True | _ \<Rightarrow> False)"

fun f64_neg :: "f64 \<Rightarrow> f64" where
  "f64_neg NaN = NaN"
| "f64_neg NegInf = PosInf"
| "f64_neg PosInf = NegInf"
| "f64_neg (Fin a) = Fin (- a)"

fun f64_add :: "f64 \<Rightarrow> f64 \<Rightarrow> f64" where
  "f64_add (Fin a) (Fin b) = Fin (a + b)"
| "f64_add NaN _ = NaN"
| "f64_add _ NaN = NaN"
| "f64_add PosInf NegInf = NaN"
| "f64_add NegInf PosInf = NaN"
| "f64_add PosInf _ = PosInf"
| "f64_add NegInf _ = NegInf"
| "f64_add _ PosInf = PosInf"
| "f64_add _ NegInf = NegInf"

definition f64_sub :: "f64 \<Rightarrow> f64 \<Rightarrow> f64" where
  "f64_sub a b = f64_add a (f64_neg b)"

text \<open>
  \<open>Duration::from_secs_f64\<close> of the Rust standard library: the number of seconds, and a
  panic (\<open>None\<close>) on a negative value, on NaN and on a value that 64 bits of seconds do not hold.
\<close>

fun duration_from_secs_f64 :: "f64 \<Rightarrow> rat option" where
  "duration_from_secs_f64 (Fin a) = (if 0 \<le> a \<and> a < 2 ^ 64 then Some a else None)"
| "duration_from_secs_f64 _ = None"

section \<open>Entries of the queues\<close>

text \<open>Python values the loop hands to a callback.\<close>

datatype pyaddr =
    InetV4 "32 word" "16 word"
  | InetV6 "128 word" "16 word" "32 word" "32 word"
  | PathAddr bytes
  | AbstractAddr bytes
  | NoAddr

datatype pyarg =
    ABytes bytes
  | AAddr pyaddr
  | AExc pyexc
  | ACtx string "pyexc option"
  | AInt int
  | ANone

type_synonym flag_id = nat
type_synonym slot_id = nat

record 'cb ready_entry =
  re_callback :: 'cb
  re_args :: "pyarg list"
  re_context :: "nat option"
  re_cancelled :: flag_id

record 'cb timer_entry =
  te_when :: f64
  te_seq :: "64 word"
  te_entry :: "'cb ready_entry"

definition seq_cmp :: "64 word \<Rightarrow> 64 word \<Rightarrow> ordering" where
  "seq_cmp a b = (if a < b then Less else if a = b then Equal else Greater)"

text \<open>\<open>Ord for TimerEntry\<close>: reversed on both keys, so that the greatest entry of the
  max-heap is the one with the earliest deadline, and the oldest among equal deadlines.\<close>

definition timer_cmp :: "'cb timer_entry \<Rightarrow> 'cb timer_entry \<Rightarrow> ordering" where
  "timer_cmp self other =
     (case (case f64_partial_cmp (te_when other) (te_when self) of None \<Rightarrow> Equal | Some c \<Rightarrow> c) of
        Equal \<Rightarrow> seq_cmp (te_seq other) (te_seq self)
      | c \<Rightarrow> c)"

record 'cb fd_slot_state =
  sl_cb :: "('cb \<times> pyarg list) option"
  sl_drain :: "'cb option"
  sl_drain_err :: "'cb option"
  sl_dead :: bool
  sl_flag :: "flag_id option"

text \<open>What a watcher task was spawned for: \<open>fd_task\<close> for one direction, or \<open>drain_task\<close>
  with its \<open>DrainKind\<close>.\<close>

datatype drain_kind = Udp | Tcp nat

datatype task_kind = FdTask bool | DrainTask drain_kind

record fd_record =
  fr_reader :: "slot_id option"
  fr_writer :: "slot_id option"

datatype addr_repr =
    ReprInetV4 "32 word" "16 word"
  | ReprInetV6 "128 word" "16 word" "32 word" "32 word"
  | ReprUnix bytes
  | ReprUnnamed

datatype io_data =
    UdpDatagram bytes addr_repr
  | TcpChunk bytes
  | TcpEof
  | ReadError pyexc

datatype io_completion =
    IoCallback slot_id
  | IoData slot_id io_data

section \<open>The state of a loop\<close>

text \<open>
  \<open>os_reg\<close> is the answer of the operating system to the \<open>n\<close>-th attempt to duplicate and
  register a descriptor (\<open>None\<close> when it succeeds), \<open>caller_thread\<close> what
  \<open>threading.get_ident()\<close> returns, \<open>other_running\<close> whether
  \<open>asyncio.events._get_running_loop()\<close> returns a loop, \<open>cb_kind\<close> what the predicates of
  \<open>asyncio.coroutines\<close> and \<open>callable()\<close> say of an object, \<open>exc_reports\<close> the contexts the
  default exception handler printed. They are the loop's surroundings; every other field is one of
  \<open>LoopState\<close>.
\<close>

datatype callable_kind = Coroutine | CoroutineFunction | PlainCallable | NotCallable

record 'cb loop_state =
  ready :: "'cb ready_entry list"
  timers :: "'cb timer_entry list"
  seq :: "64 word"
  io :: "io_completion list"
  running :: bool
  stop_requested :: bool
  loop_closed :: bool
  debug :: bool
  t0_wall :: f64
  elapsed :: f64
  permit :: bool
  exc_handler :: "'cb option"
  thread_id :: int
  fds :: "(int \<times> fd_record) list"
  n_watchers :: "64 word"
  n_callbacks :: "64 word"
  n_timers :: "64 word"
  n_io_events :: "64 word"
  n_read_bytes :: "64 word"
  n_batches :: "64 word"
  n_parks :: "64 word"
  flags :: "flag_id \<Rightarrow> bool"
  next_flag :: flag_id
  slots :: "slot_id \<Rightarrow> 'cb fd_slot_state"
  next_slot :: slot_id
  aborted :: "slot_id \<Rightarrow> bool"
  hs_permit :: "slot_id \<Rightarrow> bool"
  tasks :: "slot_id \<Rightarrow> task_kind"
  os_reg :: "nat \<Rightarrow> int \<Rightarrow> pyexc option"
  reg_count :: nat
  caller_thread :: int
  other_running :: bool
  cb_kind :: "'cb \<Rightarrow> callable_kind"
  exc_reports :: "(string \<times> pyexc option) list"

text \<open>\<open>TokioopLoop::new\<close>: the state of a fresh loop created at monotonic time \<open>t0\<close> in the
  surroundings given by the other arguments.\<close>

definition tokioop_new ::
  "f64 \<Rightarrow> (nat \<Rightarrow> int \<Rightarrow> pyexc option) \<Rightarrow> int \<Rightarrow> bool \<Rightarrow> ('cb \<Rightarrow> callable_kind) \<Rightarrow>
    'cb loop_state" where
  "tokioop_new t0 reg thread other kind =
     \<lparr>ready = [], timers = [], seq = 0, io = [],
      running = False, stop_requested = False, loop_closed = False, debug = False,
      t0_wall = t0, elapsed = Fin 0, permit = False, exc_handler = None, thread_id = -1,
      fds = [], n_watchers = 0,
      n_callbacks = 0, n_timers = 0, n_io_events = 0, n_read_bytes = 0, n_batches = 0, n_parks = 0,
      flags = (\<lambda>_. False), next_flag = 0,
      slots = (\<lambda>_. \<lparr>sl_cb = None, sl_drain = None, sl_drain_err = None, sl_dead = True, sl_flag = None\<rparr>),
      next_slot = 0, aborted = (\<lambda>_. False), hs_permit = (\<lambda>_. False), tasks = (\<lambda>_. FdTask True),
      os_reg = reg, reg_count = 0, caller_thread = thread, other_running = other, cb_kind = kind,
      exc_reports = []\<rparr>"

text \<open>\<open>LoopState::now\<close>.\<close>

definition now :: "('cb, 'x) loop_state_scheme \<Rightarrow> f64" where
  "now st = f64_add (t0_wall st) (elapsed st)"

text \<open>\<open>Arc::new(AtomicBool::new(false))\<close> and \<open>swap(true)\<close>.\<close>

definition new_flag :: "(('cb, 'x) loop_state_scheme, flag_id) py" where
  "new_flag st = (Inr (next_flag st),
     st\<lparr>flags := (flags st)(next_flag st := False), next_flag := Suc (next_flag st)\<rparr>)"

definition swap_flag :: "flag_id \<Rightarrow> (('cb, 'x) loop_state_scheme, bool) py" where
  "swap_flag f st = (Inr (flags st f), st\<lparr>flags := (flags st)(f := True)\<rparr>)"

text \<open>\<open>Notify::notify_one\<close>: stores the permit.\<close>

definition notify_one :: "('cb, 'x) loop_state_scheme \<Rightarrow> ('cb, 'x) loop_state_scheme" where
  "notify_one st = st\<lparr>permit := True\<rparr>"

section \<open>Deadlines that compare\<close>

lemma f64_le_Fin [simp]: "f64_le (Fin a) (Fin b) \<longleftrightarrow> a \<le> b"
  by (auto simp: f64_le_def)

lemma f64_le_NaN [simp]: "\<not> f64_le NaN b" "\<not> f64_le a NaN"
  by (cases b; cases a; simp add: f64_le_def)+

lemma f64_le_refl [simp]: "f64_le a a \<longleftrightarrow> a \<noteq> NaN"
  by (cases a) (simp_all add: f64_le_def)

lemma f64_le_trans: "f64_le a b \<Longrightarrow> f64_le b c \<Longrightarrow> f64_le a c"
  by (cases a; cases b; cases c) (auto simp: f64_le_def split: if_splits)

lemma f64_le_total: "a \<noteq> NaN \<Longrightarrow> b \<noteq> NaN \<Longrightarrow> f64_le a b \<or> f64_le b a"
  by (cases a; cases b) (auto simp: f64_le_def)

lemma f64_le_antisym: "f64_le a b \<Longrightarrow> f64_le b a \<Longrightarrow> a = b"
  by (cases a; cases b) (auto simp: f64_le_def split: if_splits)

lemma f64_partial_cmp_le:
  assumes "a \<noteq> NaN" "b \<noteq> NaN"
  shows "f64_partial_cmp a b =
    Some (if \<not> f64_le b a then Less else if a = b then Equal else Greater)"
  using assms by (cases a; cases b) (auto simp: f64_le_def)

lemma new_flag_run [simp]:
  "new_flag st = (Inr (next_flag st),
     st\<lparr>flags := (flags st)(next_flag st := False), next_flag := Suc (next_flag st)\<rparr>)"
  by (simp add: new_flag_def)

end
