(* ===== verification/Reactor.thy ===== *)
theory Reactor
  imports Loop_State "HOL-Library.AList"
begin

text \<open>
  The registry of descriptor watchers: \<^verbatim>\<open>src/src/fd.rs\<close> (detach, abort all, polling query),
  the registration half of \<^verbatim>\<open>src/src/fd_unix.rs\<close> (callback watchers and drain watchers) and the
  \<open>FdHandle\<close> of \<^verbatim>\<open>src/src/handles.rs\<close>. What the watcher tasks do between two registry
  operations is in theory \<open>Watcher_Tasks\<close>.
\<close>

section \<open>Registry operations\<close>

record fd_handle =
  fh_fd :: int
  fh_is_read :: bool
  fh_flag :: flag_id

definition dir_of :: "bool \<Rightarrow> fd_record \<Rightarrow> slot_id option" where
  "dir_of is_read r = (if is_read then fr_reader r else fr_writer r)"

definition set_dir :: "bool \<Rightarrow> slot_id option \<Rightarrow> fd_record \<Rightarrow> fd_record" where
  "set_dir is_read d r = (if is_read then r\<lparr>fr_reader := d\<rparr> else r\<lparr>fr_writer := d\<rparr>)"

text \<open>The watcher registered for one direction of a descriptor.\<close>

definition watcher :: "('cb, 'x) loop_state_scheme \<Rightarrow> int \<Rightarrow> bool \<Rightarrow> slot_id option" where
  "watcher st fd is_read = (case map_of (fds st) fd of None \<Rightarrow> None | Some r \<Rightarrow> dir_of is_read r)"

text \<open>What replacing and detaching do to the old direction: abort its task, cancel its
  handle, clear its callback, mark it dead (the drain callbacks stay).\<close>

definition detach_slot :: "slot_id \<Rightarrow> ('cb, 'x) loop_state_scheme \<Rightarrow> ('cb, 'x) loop_state_scheme" where
  "detach_slot sid st =
     (let s = slots st sid
      in st\<lparr>aborted := (aborted st)(sid := True),
            flags := (case sl_flag s of None \<Rightarrow> flags st | Some f \<Rightarrow> (flags st)(f := True)),
            slots := (slots st)(sid := s\<lparr>sl_flag := None, sl_cb := None, sl_dead := True\<rparr>)\<rparr>)"

definition detach_watcher :: "int \<Rightarrow> bool \<Rightarrow> (('cb, 'x) loop_state_scheme, bool) py" where
  "detach_watcher fd is_read st =
     (case map_of (fds st) fd of
        None \<Rightarrow> (Inr False, st)
      | Some record \<Rightarrow>
          (case dir_of is_read record of
             None \<Rightarrow> (Inr False, st)
           | Some old \<Rightarrow>
               let record' = set_dir is_read None record;
                   st1 = detach_slot old st
               in (Inr True,
                   st1\<lparr>n_watchers := n_watchers st1 - 1,
                       fds := (if fr_reader record' = None \<and> fr_writer record' = None
                               then AList.delete fd (fds st1) else AList.update fd record' (fds st1))\<rparr>)))"

text \<open>Allocate a slot for a task that watches \<open>fd\<close> and put it into the registry, replacing
  (and cancelling) the watcher of that direction.\<close>

definition install_watcher ::
  "int \<Rightarrow> bool \<Rightarrow> task_kind \<Rightarrow> (flag_id \<Rightarrow> 'cb fd_slot_state) \<Rightarrow>
    (('cb, 'x) loop_state_scheme, fd_handle) py" where
  "install_watcher fd is_read task mk st =
     (let flag = next_flag st; sid = next_slot st;
          st1 = st\<lparr>flags := (flags st)(flag := False), next_flag := Suc flag,
                   slots := (slots st)(sid := mk flag), next_slot := Suc sid,
                   aborted := (aborted st)(sid := False), hs_permit := (hs_permit st)(sid := False),
                   tasks := (tasks st)(sid := task)\<rparr>;
          record = (case map_of (fds st1) fd of None \<Rightarrow> \<lparr>fr_reader = None, fr_writer = None\<rparr> | Some r \<Rightarrow> r);
          st2 = (case dir_of is_read record of
                   Some old \<Rightarrow> detach_slot old st1
                 | None \<Rightarrow> st1\<lparr>n_watchers := n_watchers st1 + 1\<rparr>)
      in (Inr \<lparr>fh_fd = fd, fh_is_read = is_read, fh_flag = flag\<rparr>,
          st2\<lparr>fds := AList.update fd (set_dir is_read (Some sid) record) (fds st2)\<rparr>))"

text \<open>\<open>libc::dup\<close> and \<open>AsyncFd::new\<close>: one answer of the operating system.\<close>

definition os_register :: "int \<Rightarrow> (('cb, 'x) loop_state_scheme, unit) py" where
  "os_register fd st =
     ((case os_reg st (reg_count st) fd of None \<Rightarrow> Inr () | Some e \<Rightarrow> Inl e),
      st\<lparr>reg_count := Suc (reg_count st)\<rparr>)"

definition add_watcher ::
  "int \<Rightarrow> bool \<Rightarrow> 'cb \<Rightarrow> pyarg list \<Rightarrow> (('cb, 'x) loop_state_scheme, fd_handle) py" where
  "add_watcher fd is_read callback args =
     (if fd < 0 then py_raise (ValueError ''file descriptor cannot be negative'')
      else py_seq (os_register fd)
        (install_watcher fd is_read (FdTask is_read)
          (\<lambda>flag. \<lparr>sl_cb = Some (callback, args), sl_drain = None, sl_drain_err = None,
                   sl_dead = False, sl_flag = Some flag\<rparr>)))"

definition add_drain_watcher ::
  "int \<Rightarrow> 'cb \<Rightarrow> 'cb \<Rightarrow> drain_kind \<Rightarrow> (('cb, 'x) loop_state_scheme, fd_handle) py" where
  "add_drain_watcher fd drain drain_err kind =
     (if fd < 0 then py_raise (ValueError ''file descriptor cannot be negative'')
      else py_seq (os_register fd)
        (install_watcher fd True (DrainTask kind)
          (\<lambda>flag. \<lparr>sl_cb = None, sl_drain = Some drain, sl_drain_err = Some drain_err,
                   sl_dead = False, sl_flag = Some flag\<rparr>)))"

text \<open>\<open>abort_all\<close> visits every direction of every record, then clears the registry.\<close>

definition abort_dir ::
  "slot_id option \<Rightarrow> ('cb, 'x) loop_state_scheme \<Rightarrow> ('cb, 'x) loop_state_scheme" where
  "abort_dir d st = (case d of None \<Rightarrow> st | Some sid \<Rightarrow> detach_slot sid st)"

definition abort_all :: "('cb, 'x) loop_state_scheme \<Rightarrow> ('cb, 'x) loop_state_scheme" where
  "abort_all st =
     (fold (\<lambda>(fd, r) s. abort_dir (fr_writer r) (abort_dir (fr_reader r) s)) (fds st) st)
       \<lparr>fds := [], n_watchers := 0\<rparr>"

definition is_polling :: "('cb, 'x) loop_state_scheme \<Rightarrow> int \<Rightarrow> bool \<Rightarrow> bool" where
  "is_polling st fd is_read =
     (case map_of (fds st) fd of
        None \<Rightarrow> False
      | Some record \<Rightarrow>
          (case dir_of is_read record of
             None \<Rightarrow> False
           | Some sid \<Rightarrow>
               (let s = slots st sid in \<not> sl_dead s \<and> (sl_cb s \<noteq> None \<or> sl_drain s \<noteq> None))))"

text \<open>\<open>FdHandle::cancel\<close> and \<open>FdHandle::cancelled\<close>.\<close>

definition fd_handle_cancel :: "fd_handle \<Rightarrow> (('cb, 'x) loop_state_scheme, bool) py" where
  "fd_handle_cancel h =
     py_bind (swap_flag (fh_flag h))
       (\<lambda>was. if was then py_ret False
              else py_seq (detach_watcher (fh_fd h) (fh_is_read h)) (py_ret True))"

definition fd_handle_cancelled :: "('cb, 'x) loop_state_scheme \<Rightarrow> fd_handle \<Rightarrow> bool" where
  "fd_handle_cancelled st h = flags st (fh_flag h)"

section \<open>Runs of registry operations\<close>

text \<open>
  The states a loop's registry reaches, with the handles given out so far. A descriptor
  passed to the Rust core is an \<open>i32\<close>.
\<close>

definition i32_range :: "int \<Rightarrow> bool" where
  "i32_range fd \<longleftrightarrow> - (2 ^ 31) \<le> fd \<and> fd < 2 ^ 31"

inductive registry_run :: "'cb loop_state \<Rightarrow> fd_handle set \<Rightarrow> bool" where
  fresh: "registry_run (tokioop_new t0 reg thread other kind) {}"
| add: "registry_run st hs \<Longrightarrow> i32_range fd \<Longrightarrow>
    add_watcher fd is_read cb args st = (Inr h, st') \<Longrightarrow> registry_run st' (insert h hs)"
| add_fails: "registry_run st hs \<Longrightarrow> add_watcher fd is_read cb args st = (Inl e, st') \<Longrightarrow>
    registry_run st' hs"
| add_drain: "registry_run st hs \<Longrightarrow> i32_range fd \<Longrightarrow>
    add_drain_watcher fd drain drain_err kind st = (Inr h, st') \<Longrightarrow> registry_run st' (insert h hs)"
| add_drain_fails: "registry_run st hs \<Longrightarrow>
    add_drain_watcher fd drain drain_err kind st = (Inl e, st') \<Longrightarrow> registry_run st' hs"
| detach: "registry_run st hs \<Longrightarrow> detach_watcher fd is_read st = (r, st') \<Longrightarrow> registry_run st' hs"
| cancel: "registry_run st hs \<Longrightarrow> h \<in> hs \<Longrightarrow> fd_handle_cancel h st = (r, st') \<Longrightarrow>
    registry_run st' hs"
| abort: "registry_run st hs \<Longrightarrow> registry_run (abort_all st) hs"

text \<open>
  The registry invariant. Registered slots were allocated, belong to one direction each, are
  alive and own an allocated cancel flag that no other slot owns; no record is empty; the
  watcher count counts the registered directions.
\<close>

definition directions :: "('cb, 'x) loop_state_scheme \<Rightarrow> (int \<times> bool) set" where
  "directions st = {(fd, is_read). watcher st fd is_read \<noteq> None}"

definition live_slot :: "('cb, 'x) loop_state_scheme \<Rightarrow> slot_id \<Rightarrow> bool" where
  "live_slot st sid \<longleftrightarrow>
     sid < next_slot st \<and> \<not> aborted st sid \<and> \<not> sl_dead (slots st sid) \<and>
     (sl_cb (slots st sid) \<noteq> None \<or> sl_drain (slots st sid) \<noteq> None) \<and>
     (\<exists>f<next_flag st. sl_flag (slots st sid) = Some f)"

definition registry_inv :: "('cb, 'x) loop_state_scheme \<Rightarrow> bool" where
  "registry_inv st \<longleftrightarrow>
     distinct (map fst (fds st)) \<and>
     (\<forall>fd r. map_of (fds st) fd = Some r \<longrightarrow> 0 \<le> fd \<and> fd < 2 ^ 31 \<and> (fr_reader r \<noteq> None \<or> fr_writer r \<noteq> None)) \<and>
     (\<forall>fd d sid. watcher st fd d = Some sid \<longrightarrow> live_slot st sid) \<and>
     (\<forall>fd d fd' d' sid sid'. watcher st fd d = Some sid \<longrightarrow> watcher st fd' d' = Some sid' \<longrightarrow>
        sl_flag (slots st sid) = sl_flag (slots st sid') \<longrightarrow> fd = fd' \<and> d = d') \<and>
     n_watchers st = of_nat (card (directions st))"

text \<open>What both kinds of registration put into a new slot: its own flag, and a callback of
  one kind or the other.\<close>

definition fresh_slot :: "(flag_id \<Rightarrow> 'cb fd_slot_state) \<Rightarrow> bool" where
  "fresh_slot mk \<longleftrightarrow> (\<forall>f. sl_flag (mk f) = Some f \<and> \<not> sl_dead (mk f) \<and>
     (sl_cb (mk f) \<noteq> None \<or> sl_drain (mk f) \<noteq> None))"

text \<open>A handle is in use when it is the handle of the watcher registered for its direction.\<close>

definition handle_in_use :: "('cb, 'x) loop_state_scheme \<Rightarrow> fd_handle \<Rightarrow> bool" where
  "handle_in_use st h \<longleftrightarrow>
     (\<exists>sid. watcher st (fh_fd h) (fh_is_read h) = Some sid \<and>
            sl_flag (slots st sid) = Some (fh_flag h))"

section \<open>Effect of the operations on the registry\<close>

lemma dir_of_set_dir [simp]: "dir_of d (set_dir d' v r) = (if d = d' then v else dir_of d r)"
  by (auto simp: dir_of_def set_dir_def)

lemma record_dirs: "fr_reader r = None \<and> fr_writer r = None \<longleftrightarrow> (\<forall>d. dir_of d r = None)"
  by (auto simp: dir_of_def split: if_splits)

lemma detach_slot_fields [simp]:
  "fds (detach_slot sid st) = fds st" "n_watchers (detach_slot sid st) = n_watchers st"
  "next_slot (detach_slot sid st) = next_slot st" "next_flag (detach_slot sid st) = next_flag st"
  by (simp_all add: detach_slot_def Let_def)

lemma detach_slot_flags:
  "flags (detach_slot sid st) f \<longleftrightarrow> flags st f \<or> sl_flag (slots st sid) = Some f"
  by (auto simp: detach_slot_def Let_def split: option.split)

lemma detach_slot_slots [simp]:
  "slots (detach_slot sid st) i =
     (if i = sid then (slots st sid)\<lparr>sl_flag := None, sl_cb := None, sl_dead := True\<rparr> else slots st i)"
  "aborted (detach_slot sid st) i = (i = sid \<or> aborted st i)"
  by (simp_all add: detach_slot_def Let_def)

lemma detach_watcher_None: "watcher st fd d = None \<Longrightarrow> detach_watcher fd d st = (Inr False, st)"
  by (auto simp: detach_watcher_def watcher_def split: option.splits)

lemma detach_watcher_Some:
  assumes "watcher st fd d = Some sid" and "detach_watcher fd d st = (r, st')"
  shows "r = Inr True"
    and "watcher st' fd' d' = (if fd' = fd \<and> d' = d then None else watcher st fd' d')"
    and "slots st' = slots (detach_slot sid st)" and "flags st' = flags (detach_slot sid st)"
    and "aborted st' = aborted (detach_slot sid st)" and "next_slot st' = next_slot st"
    and "next_flag st' = next_flag st" and "n_watchers st' = n_watchers st - 1"
    and "distinct (map fst (fds st)) \<Longrightarrow> distinct (map fst (fds st'))"
    and "map_of (fds st') fd' = Some rec' \<Longrightarrow>
      (\<exists>rec. map_of (fds st) fd' = Some rec) \<and> (fd' = fd \<longrightarrow> fr_reader rec' \<noteq> None \<or> fr_writer rec' \<noteq> None)
      \<and> (fd' \<noteq> fd \<longrightarrow> map_of (fds st) fd' = Some rec')"
proof -
  from assms(1) obtain rec where rec: "map_of (fds st) fd = Some rec" "dir_of d rec = Some sid"
    by (auto simp: watcher_def split: option.splits)
  let ?rec = "set_dir d None rec"
  from assms(2) rec have st': "st' = (detach_slot sid st)\<lparr>n_watchers := n_watchers st - 1,
      fds := (if fr_reader ?rec = None \<and> fr_writer ?rec = None
              then AList.delete fd (fds st) else AList.update fd ?rec (fds st))\<rparr>"
    and r: "r = Inr True"
    by (auto simp: detach_watcher_def Let_def)
  have m: "map_of (fds st') = (if fr_reader ?rec = None \<and> fr_writer ?rec = None
      then (map_of (fds st))(fd := None) else (map_of (fds st))(fd \<mapsto> ?rec))"
    by (simp add: st' delete_conv' update_conv')
  show "r = Inr True" by (fact r)
  show "watcher st' fd' d' = (if fd' = fd \<and> d' = d then None else watcher st fd' d')"
    using rec by (auto simp: watcher_def m record_dirs)
  show "slots st' = slots (detach_slot sid st)" "flags st' = flags (detach_slot sid st)"
    "aborted st' = aborted (detach_slot sid st)" "next_slot st' = next_slot st"
    "next_flag st' = next_flag st" "n_watchers st' = n_watchers st - 1"
    by (simp_all add: st')
  show "distinct (map fst (fds st)) \<Longrightarrow> distinct (map fst (fds st'))"
    by (simp add: st' distinct_delete distinct_update)
  show "map_of (fds st') fd' = Some rec' \<Longrightarrow>
      (\<exists>rec. map_of (fds st) fd' = Some rec) \<and> (fd' = fd \<longrightarrow> fr_reader rec' \<noteq> None \<or> fr_writer rec' \<noteq> None)
      \<and> (fd' \<noteq> fd \<longrightarrow> map_of (fds st) fd' = Some rec')"
    using rec by (auto simp: m split: if_splits)
qed

lemma finite_directions: "finite (directions st)"
proof -
  have "directions st \<subseteq> fst ` set (fds st) \<times> UNIV"
    by (auto simp: directions_def watcher_def split: option.splits dest: map_of_SomeD)
       (metis image_eqI fst_conv map_of_SomeD)
  then show ?thesis by (rule finite_subset) simp
qed

lemma registry_inv_watcher:
  assumes "registry_inv st" and "watcher st fd d = Some sid"
  shows "live_slot st sid"
  using assms by (auto simp: registry_inv_def)

lemma registry_inv_flag_unique:
  assumes "registry_inv st" and "watcher st fd d = Some sid" and "watcher st fd' d' = Some sid'"
    and "sl_flag (slots st sid) = sl_flag (slots st sid')"
  shows "fd = fd' \<and> d = d'"
  using assms unfolding registry_inv_def by blast

lemma detach_watcher_inv:
  assumes inv: "registry_inv st" and det: "detach_watcher fd d st = (r, st')"
  shows "registry_inv st'"
proof (cases "watcher st fd d")
  case None
  with det inv show ?thesis by (simp add: detach_watcher_None)
next
  case (Some sid)
  note D = detach_watcher_Some [OF Some det]
  have other: "sid' \<noteq> sid" if "watcher st fd' d' = Some sid'" "\<not> (fd' = fd \<and> d' = d)" for fd' d' sid'
    using registry_inv_flag_unique [OF inv Some that(1)] that(2) by blast
  have dirs: "directions st' = directions st - {(fd, d)}"
    by (auto simp: directions_def D(2))
  have mem: "(fd, d) \<in> directions st" using Some by (simp add: directions_def)
  then have "card (directions st) \<noteq> 0" using finite_directions [of st] by (auto simp: card_eq_0_iff)
  then have "n_watchers st' = of_nat (card (directions st'))"
    using inv mem by (simp add: D(8) registry_inv_def dirs of_nat_diff)
  moreover have "live_slot st' sid'" if "watcher st' fd' d' = Some sid'" for fd' d' sid'
    using that other registry_inv_watcher [OF inv]
    by (auto simp: D(2,3,5-7) live_slot_def split: if_splits)
  moreover have "fd1 = fd2 \<and> d1 = d2"
    if "watcher st' fd1 d1 = Some s1" "watcher st' fd2 d2 = Some s2"
      "sl_flag (slots st' s1) = sl_flag (slots st' s2)" for fd1 d1 s1 fd2 d2 s2
    using that other registry_inv_flag_unique [OF inv, of fd1 d1 s1 fd2 d2 s2]
    by (auto simp: D(2,3) split: if_splits)
  moreover have "distinct (map fst (fds st'))" using inv D(9) by (simp add: registry_inv_def)
  moreover have "0 \<le> k \<and> k < 2 ^ 31 \<and> (fr_reader q \<noteq> None \<or> fr_writer q \<noteq> None)"
    if "map_of (fds st') k = Some q" for k q
    using D(10) [OF that] inv unfolding registry_inv_def by metis
  ultimately show ?thesis by (simp add: registry_inv_def)
qed

lemma os_register_run:
  "os_register fd st = (r, st') \<Longrightarrow> \<exists>n. st' = st\<lparr>reg_count := n\<rparr>"
  by (auto simp: os_register_def)

lemma registry_inv_reg_count [simp]: "registry_inv (st\<lparr>reg_count := n\<rparr>) = registry_inv st"
  by (simp add: registry_inv_def directions_def watcher_def live_slot_def)

lemma install_watcher_effect:
  assumes inv: "registry_inv st" and ins: "install_watcher fd d task mk st = (r, st')"
  shows "r = Inr \<lparr>fh_fd = fd, fh_is_read = d, fh_flag = next_flag st\<rparr>"
    and "watcher st' fd' d' = (if fd' = fd \<and> d' = d then Some (next_slot st) else watcher st fd' d')"
    and "slots st' (next_slot st) = mk (next_flag st)" and "\<not> aborted st' (next_slot st)"
    and "next_slot st' = Suc (next_slot st)" and "next_flag st' = Suc (next_flag st)"
    and "i < next_slot st \<Longrightarrow> watcher st fd d \<noteq> Some i \<Longrightarrow> slots st' i = slots st i \<and> aborted st' i = aborted st i"
    and "\<not> flags st' (next_flag st)"
    and "f < next_flag st \<Longrightarrow> flags st' f \<longleftrightarrow>
      flags st f \<or> (\<exists>sid. watcher st fd d = Some sid \<and> sl_flag (slots st sid) = Some f)"
    and "n_watchers st' = (if watcher st fd d = None then n_watchers st + 1 else n_watchers st)"
    and "distinct (map fst (fds st'))"
    and "map_of (fds st') k = Some q \<Longrightarrow> k \<noteq> fd \<Longrightarrow> map_of (fds st) k = Some q"
proof -
  let ?rec = "case map_of (fds st) fd of None \<Rightarrow> \<lparr>fr_reader = None, fr_writer = None\<rparr> | Some r \<Rightarrow> r"
  have w: "dir_of d ?rec = watcher st fd d"
    by (simp add: watcher_def dir_of_def split: option.split)
  have old: "i < next_slot st" "\<exists>f<next_flag st. sl_flag (slots st i) = Some f"
    if "watcher st fd d = Some i" for i
    using registry_inv_watcher [OF inv that] by (auto simp: live_slot_def)
  let ?st1 = "st\<lparr>flags := (flags st)(next_flag st := False), next_flag := Suc (next_flag st),
      slots := (slots st)(next_slot st := mk (next_flag st)), next_slot := Suc (next_slot st),
      aborted := (aborted st)(next_slot st := False), hs_permit := (hs_permit st)(next_slot st := False),
      tasks := (tasks st)(next_slot st := task)\<rparr>"
  let ?st2 = "case watcher st fd d of Some old \<Rightarrow> detach_slot old ?st1
      | None \<Rightarrow> ?st1\<lparr>n_watchers := n_watchers ?st1 + 1\<rparr>"
  from ins have st': "st' = ?st2\<lparr>fds := AList.update fd (set_dir d (Some (next_slot st)) ?rec) (fds ?st2)\<rparr>"
    and r: "r = Inr \<lparr>fh_fd = fd, fh_is_read = d, fh_flag = next_flag st\<rparr>"
    by (simp_all add: install_watcher_def Let_def w)
  have f2: "fds ?st2 = fds st" by (simp split: option.split)
  have m: "map_of (fds st') = (map_of (fds st))(fd \<mapsto> set_dir d (Some (next_slot st)) ?rec)"
    by (simp add: st' f2 update_conv')
  show "r = Inr \<lparr>fh_fd = fd, fh_is_read = d, fh_flag = next_flag st\<rparr>" by (fact r)
  show "watcher st' fd' d' = (if fd' = fd \<and> d' = d then Some (next_slot st) else watcher st fd' d')"
    by (auto simp: watcher_def m dir_of_def set_dir_def split: option.split)
  show "slots st' (next_slot st) = mk (next_flag st)" "\<not> aborted st' (next_slot st)"
    using old(1) by (auto simp: st' split: option.split)
  show "next_slot st' = Suc (next_slot st)" "next_flag st' = Suc (next_flag st)"
    by (simp_all add: st' split: option.split)
  show "i < next_slot st \<Longrightarrow> watcher st fd d \<noteq> Some i \<Longrightarrow> slots st' i = slots st i \<and> aborted st' i = aborted st i"
    by (auto simp: st' split: option.split)
  show "\<not> flags st' (next_flag st)"
  proof (cases "watcher st fd d")
    case (Some i)
    with old [of i] show ?thesis by (auto simp: st' detach_slot_flags)
  qed (simp add: st')
  show "flags st' f \<longleftrightarrow>
      flags st f \<or> (\<exists>sid. watcher st fd d = Some sid \<and> sl_flag (slots st sid) = Some f)"
    if "f < next_flag st"
  proof (cases "watcher st fd d")
    case (Some i)
    with old [of i] that show ?thesis by (auto simp: st' detach_slot_flags)
  qed (use that in \<open>simp add: st'\<close>)
  show "n_watchers st' = (if watcher st fd d = None then n_watchers st + 1 else n_watchers st)"
    by (simp add: st' split: option.split)
  show "distinct (map fst (fds st'))"
    using inv by (simp add: st' f2 registry_inv_def distinct_update)
  show "map_of (fds st') k = Some q \<Longrightarrow> k \<noteq> fd \<Longrightarrow> map_of (fds st) k = Some q"
    by (simp add: m)
qed

text \<open>A slot of another direction is untouched by a registration.\<close>

lemma install_watcher_other:
  assumes inv: "registry_inv st" and ins: "install_watcher fd d task mk st = (r, st')"
    and w: "watcher st' k q = Some sid" and ne: "\<not> (k = fd \<and> q = d)"
  shows "watcher st k q = Some sid" and "slots st' sid = slots st sid"
    and "aborted st' sid = aborted st sid" and "live_slot st sid"
proof -
  note E = install_watcher_effect [OF inv ins]
  show w': "watcher st k q = Some sid" using w ne E(2) [of k q] by presburger
  show live: "live_slot st sid" by (rule registry_inv_watcher [OF inv w'])
  have "slots st' sid = slots st sid \<and> aborted st' sid = aborted st sid"
  proof (rule E(7))
    show "sid < next_slot st" using live by (simp add: live_slot_def)
    show "watcher st fd d \<noteq> Some sid"
      using registry_inv_flag_unique [OF inv w', of fd d sid] ne by blast
  qed
  then show "slots st' sid = slots st sid" "aborted st' sid = aborted st sid" by simp_all
qed

lemma install_watcher_flag_unique:
  assumes inv: "registry_inv st" and ins: "install_watcher fd d task mk st = (r, st')"
    and fresh: "fresh_slot mk"
    and w: "watcher st' k q = Some sid" "watcher st' k' q' = Some sid'"
    and eq: "sl_flag (slots st' sid) = sl_flag (slots st' sid')"
  shows "k = k' \<and> q = q'"
proof -
  note E = install_watcher_effect [OF inv ins] and other = install_watcher_other [OF inv ins]
  have old: "sl_flag (slots st' j) \<noteq> Some (next_flag st)"
    if "watcher st' a b = Some j" "\<not> (a = fd \<and> b = d)" for a b j
    using other(2,4) [OF that] by (auto simp: live_slot_def)
  have new: "sl_flag (slots st' j) = Some (next_flag st)" if "watcher st' fd d = Some j" for j
    using that fresh E(2,3) by (simp add: fresh_slot_def)
  consider "k = fd \<and> q = d" | "k' = fd \<and> q' = d" | "\<not> (k = fd \<and> q = d)" "\<not> (k' = fd \<and> q' = d)"
    by blast
  then show ?thesis
  proof cases
    case 1
    with new [of sid] old [OF w(2)] w(1) eq show ?thesis by auto
  next
    case 2
    with new [of sid'] old [OF w(1)] w(2) eq show ?thesis by auto
  next
    case 3
    with other [OF w(1)] other [OF w(2)] eq show ?thesis
      using registry_inv_flag_unique [OF inv, of k q sid k' q' sid'] by simp
  qed
qed

lemma install_watcher_inv:
  assumes inv: "registry_inv st" and ins: "install_watcher fd d task mk st = (r, st')"
    and fd: "0 \<le> fd" "fd < 2 ^ 31"
    and fresh: "fresh_slot mk"
  shows "registry_inv st'"
proof -
  note mk = fresh [unfolded fresh_slot_def, rule_format]
  note E = install_watcher_effect [OF inv ins]
  have dirs: "directions st' = insert (fd, d) (directions st)"
    by (auto simp: directions_def E(2))
  have "live_slot st' sid" if "watcher st' k q = Some sid" for k q sid
  proof (cases "k = fd \<and> q = d")
    case True
    with that mk [of "next_flag st"] E(3-6) show ?thesis by (simp add: live_slot_def E(2))
  next
    case False
    from install_watcher_other [OF inv ins that False] show ?thesis
      by (auto simp: live_slot_def E(5,6))
  qed
  moreover have "n_watchers st' = of_nat (card (directions st'))"
  proof (cases "watcher st fd d = None")
    case True
    then have "(fd, d) \<notin> directions st" by (simp add: directions_def)
    with True inv show ?thesis by (simp add: E(10) dirs registry_inv_def finite_directions)
  next
    case False
    then have "(fd, d) \<in> directions st" by (simp add: directions_def)
    with False inv show ?thesis by (simp add: E(10) dirs registry_inv_def insert_absorb)
  qed
  moreover have "0 \<le> k \<and> k < 2 ^ 31 \<and> (fr_reader q \<noteq> None \<or> fr_writer q \<noteq> None)"
    if "map_of (fds st') k = Some q" for k q
  proof (cases "k = fd")
    case True
    with that E(2) [of fd d] have "dir_of d q = Some (next_slot st)" by (simp add: watcher_def)
    then have "\<not> (fr_reader q = None \<and> fr_writer q = None)" unfolding record_dirs by auto
    with True fd show ?thesis by simp
  next
    case False
    from inv E(12) [OF that False] show ?thesis unfolding registry_inv_def by metis
  qed
  ultimately show ?thesis
    using E(11) install_watcher_flag_unique [OF inv ins fresh] unfolding registry_inv_def by blast
qed

lemma abort_dir_fold:
  "abort_dir d st = fold detach_slot (case d of None \<Rightarrow> [] | Some sid \<Rightarrow> [sid]) st"
  by (simp add: abort_dir_def split: option.split)

definition record_slots :: "(int \<times> fd_record) list \<Rightarrow> slot_id list" where
  "record_slots rs = concat (map (\<lambda>(fd, r). List.map_filter (\<lambda>d. d) [fr_reader r, fr_writer r]) rs)"

lemma abort_records_fold:
  "fold (\<lambda>(fd, r) s. abort_dir (fr_writer r) (abort_dir (fr_reader r) s)) rs st =
     fold detach_slot (record_slots rs) st"
  by (induction rs arbitrary: st)
     (auto simp: record_slots_def abort_dir_def map_filter_def split: option.split)

lemma abort_all_fold:
  "abort_all st = (fold detach_slot (record_slots (fds st)) st)\<lparr>fds := [], n_watchers := 0\<rparr>"
  by (simp add: abort_all_def abort_records_fold)

lemma fold_detach_fields [simp]:
  "next_flag (fold detach_slot l st) = next_flag st" "next_slot (fold detach_slot l st) = next_slot st"
  by (induction l arbitrary: st) simp_all

lemma fold_detach_flags:
  "flags (fold detach_slot l st) f \<longleftrightarrow> flags st f \<or> (\<exists>sid\<in>set l. sl_flag (slots st sid) = Some f)"
  by (induction l arbitrary: st) (auto simp: detach_slot_flags split: if_splits)

lemma watcher_record_slots:
  "watcher st fd d = Some sid \<Longrightarrow> sid \<in> set (record_slots (fds st))"
  by (force simp: watcher_def record_slots_def dir_of_def map_filter_def
      split: option.splits if_splits dest: map_of_SomeD)

lemma abort_all_inv: "registry_inv (abort_all st)"
  by (simp add: abort_all_fold registry_inv_def watcher_def directions_def)

section \<open>Handles and reachable registries\<close>

definition handles_inv :: "('cb, 'x) loop_state_scheme \<Rightarrow> fd_handle set \<Rightarrow> bool" where
  "handles_inv st hs \<longleftrightarrow>
     (\<forall>h\<in>hs. fh_flag h < next_flag st \<and> (fd_handle_cancelled st h \<longleftrightarrow> \<not> handle_in_use st h))"

lemma handles_inv_abort_all:
  assumes "handles_inv st hs"
  shows "handles_inv (abort_all st) hs"
proof -
  have "flags (abort_all st) (fh_flag h)" if "h \<in> hs" for h
    using assms that watcher_record_slots
    by (fastforce simp: handles_inv_def fd_handle_cancelled_def handle_in_use_def abort_all_fold
        fold_detach_flags)
  with assms show ?thesis
    by (simp add: handles_inv_def fd_handle_cancelled_def handle_in_use_def abort_all_fold watcher_def)
qed

lemma handles_inv_detach:
  assumes inv: "registry_inv st" and h: "handles_inv st hs" and det: "detach_watcher fd d st = (r, st')"
  shows "handles_inv st' hs"
proof (cases "watcher st fd d")
  case None
  with det h show ?thesis by (simp add: detach_watcher_None)
next
  case (Some sid)
  note D = detach_watcher_Some [OF Some det]
  have "fd_handle_cancelled st' k \<longleftrightarrow> \<not> handle_in_use st' k" if k: "k \<in> hs" for k
  proof (cases "fh_fd k = fd \<and> fh_is_read k = d")
    case True
    with h k Some show ?thesis
      by (auto simp: handles_inv_def fd_handle_cancelled_def handle_in_use_def D(2,4) detach_slot_flags)
  next
    case False
    have w: "watcher st' (fh_fd k) (fh_is_read k) = watcher st (fh_fd k) (fh_is_read k)"
      using False D(2) by metis
    have ne: "sl_flag (slots st sid) \<noteq> sl_flag (slots st i)"
      if "watcher st (fh_fd k) (fh_is_read k) = Some i" for i
      using False registry_inv_flag_unique [OF inv Some that] by blast
    have "handle_in_use st' k \<longleftrightarrow> handle_in_use st k"
      unfolding handle_in_use_def w D(3) detach_slot_slots using ne by auto
    moreover have "handle_in_use st k \<Longrightarrow> sl_flag (slots st sid) \<noteq> Some (fh_flag k)"
      unfolding handle_in_use_def using ne by auto
    ultimately show ?thesis
      using h k by (auto simp: handles_inv_def fd_handle_cancelled_def D(4) detach_slot_flags)
  qed
  with h show ?thesis by (simp add: handles_inv_def D(7))
qed

lemma handles_inv_install:
  assumes inv: "registry_inv st" and h: "handles_inv st hs"
    and ins: "install_watcher fd d task mk st = (Inr k, st')" and fresh: "fresh_slot mk"
  shows "handles_inv st' (insert k hs)"
proof -
  note E = install_watcher_effect [OF inv ins]
  have k: "k = \<lparr>fh_fd = fd, fh_is_read = d, fh_flag = next_flag st\<rparr>" using E(1) by simp
  have new: "\<not> fd_handle_cancelled st' k \<and> handle_in_use st' k"
    using E(2,3,8) fresh by (simp add: k fd_handle_cancelled_def handle_in_use_def fresh_slot_def)
  have "fd_handle_cancelled st' j \<longleftrightarrow> \<not> handle_in_use st' j" if j: "j \<in> hs" for j
  proof -
    from h j have lt: "fh_flag j < next_flag st"
      and old: "flags st (fh_flag j) \<longleftrightarrow> \<not> handle_in_use st j"
      by (auto simp: handles_inv_def fd_handle_cancelled_def)
    show ?thesis
    proof (cases "fh_fd j = fd \<and> fh_is_read j = d")
      case True
      then have "\<not> handle_in_use st' j" using lt fresh E(2,3)
        by (simp add: handle_in_use_def fresh_slot_def)
      with True old lt show ?thesis
        by (auto simp: fd_handle_cancelled_def E(9) handle_in_use_def)
    next
      case False
      have "handle_in_use st' j \<longleftrightarrow> handle_in_use st j"
        using False E(2) install_watcher_other(2) [OF inv ins _ False]
        by (auto simp: handle_in_use_def)
      moreover have "handle_in_use st j \<Longrightarrow>
          \<not> (\<exists>sid. watcher st fd d = Some sid \<and> sl_flag (slots st sid) = Some (fh_flag j))"
        using False registry_inv_flag_unique [OF inv, of fd d _ "fh_fd j" "fh_is_read j"]
        by (fastforce simp: handle_in_use_def)
      ultimately show ?thesis using old lt by (auto simp: fd_handle_cancelled_def E(9))
    qed
  qed
  with new h k show ?thesis by (auto simp: handles_inv_def E(6))
qed

lemma add_watcher_cases:
  assumes "add_watcher fd d cb args st = (r, st')"
  obtains "st' = st" "r = Inl (ValueError ''file descriptor cannot be negative'')" "fd < 0"
  | n e where "st' = st\<lparr>reg_count := n\<rparr>" "r = Inl e"
  | n task mk where "0 \<le> fd" "install_watcher fd d task mk (st\<lparr>reg_count := n\<rparr>) = (r, st')" "fresh_slot mk"
  using assms
  by (fastforce simp: add_watcher_def py_raise_def py_seq_def py_bind_def os_register_def
      fresh_slot_def split: if_splits option.splits)

lemma add_drain_watcher_cases:
  assumes "add_drain_watcher fd drain drain_err kind st = (r, st')"
  obtains "st' = st" "r = Inl (ValueError ''file descriptor cannot be negative'')" "fd < 0"
  | n e where "st' = st\<lparr>reg_count := n\<rparr>" "r = Inl e"
  | n task mk where "0 \<le> fd" "install_watcher fd True task mk (st\<lparr>reg_count := n\<rparr>) = (r, st')" "fresh_slot mk"
  using assms
  by (fastforce simp: add_drain_watcher_def py_raise_def py_seq_def py_bind_def os_register_def
      fresh_slot_def split: if_splits option.splits)

lemma handles_inv_reg_count [simp]: "handles_inv (st\<lparr>reg_count := n\<rparr>) hs = handles_inv st hs"
  by (simp add: handles_inv_def fd_handle_cancelled_def handle_in_use_def watcher_def)

lemma install_watcher_not_Inl [simp]: "install_watcher fd d task mk st \<noteq> (Inl e, st')"
  by (simp add: install_watcher_def Let_def)

lemma install_step:
  assumes "registry_inv st" "handles_inv st hs" "0 \<le> fd" "i32_range fd"
    and "install_watcher fd d task mk (st\<lparr>reg_count := n\<rparr>) = (Inr h, st')"
    and "fresh_slot mk"
  shows "registry_inv st' \<and> handles_inv st' (insert h hs)"
  using assms install_watcher_inv [OF _ assms(5)] handles_inv_install [OF _ _ assms(5)]
  by (simp add: i32_range_def)

lemma detach_slot_own_flag:
  "sl_flag (slots st sid) = Some f \<Longrightarrow>
     detach_slot sid (st\<lparr>flags := (flags st)(f := True)\<rparr>) = detach_slot sid st"
  by (simp add: detach_slot_def Let_def)

lemma detach_watcher_own_flag:
  assumes "watcher st fd d = Some sid" "sl_flag (slots st sid) = Some f"
  shows "detach_watcher fd d (st\<lparr>flags := (flags st)(f := True)\<rparr>) = detach_watcher fd d st"
proof -
  from assms(1) obtain rec where "map_of (fds st) fd = Some rec" "dir_of d rec = Some sid"
    by (auto simp: watcher_def split: option.splits)
  then show ?thesis by (simp add: detach_watcher_def Let_def detach_slot_own_flag [OF assms(2)])
qed

lemma cancel_step:
  assumes inv: "registry_inv st" and h: "handles_inv st hs" "k \<in> hs"
    and c: "fd_handle_cancel k st = (r, st')"
  shows "registry_inv st' \<and> handles_inv st' hs"
proof (cases "flags st (fh_flag k)")
  case True
  then have "(flags st)(fh_flag k := True) = flags st" by (simp add: fun_upd_idem)
  with True c inv h show ?thesis
    by (simp add: fd_handle_cancel_def swap_flag_def py_bind_def py_ret_def)
next
  case False
  with h obtain sid where sid: "watcher st (fh_fd k) (fh_is_read k) = Some sid"
      "sl_flag (slots st sid) = Some (fh_flag k)"
    by (auto simp: handles_inv_def fd_handle_cancelled_def handle_in_use_def)
  obtain r1 st1 where det: "detach_watcher (fh_fd k) (fh_is_read k) st = (r1, st1)" by fastforce
  have "detach_watcher (fh_fd k) (fh_is_read k) (st\<lparr>flags := (flags st)(fh_flag k := True)\<rparr>) = (r1, st1)"
    using det detach_watcher_own_flag [OF sid] by simp
  with False c have "st' = st1"
    by (auto simp: fd_handle_cancel_def swap_flag_def py_bind_def py_seq_def py_ret_def
        split: sum.splits)
  with detach_watcher_inv [OF inv det] handles_inv_detach [OF inv h(1) det] show ?thesis by simp
qed

lemma registry_run_inv: "registry_run st hs \<Longrightarrow> registry_inv st \<and> handles_inv st hs"
proof (induction rule: registry_run.induct)
  case (fresh t0 reg thread other kind)
  show ?case
    by (simp add: registry_inv_def handles_inv_def watcher_def directions_def tokioop_new_def)
next
  case (add st hs fd is_read cb args h st')
  from add.hyps(3) show ?case
  proof (cases rule: add_watcher_cases)
    case (3 n task mk)
    with add show ?thesis using install_step by blast
  qed simp_all
next
  case (add_fails st hs fd is_read cb args e st')
  from add_fails.hyps(2) show ?case
    by (rule add_watcher_cases) (use add_fails.IH in auto)
next
  case (add_drain st hs fd drain drain_err kind h st')
  from add_drain.hyps(3) show ?case
  proof (cases rule: add_drain_watcher_cases)
    case (3 n task mk)
    with add_drain show ?thesis using install_step by blast
  qed simp_all
next
  case (add_drain_fails st hs fd drain drain_err kind e st')
  from add_drain_fails.hyps(2) show ?case
    by (rule add_drain_watcher_cases) (use add_drain_fails.IH in auto)
next
  case (detach st hs fd is_read r st')
  then show ?case using detach_watcher_inv handles_inv_detach by blast
next
  case (cancel st hs h r st')
  then show ?case using cancel_step by blast
next
  case (abort st hs)
  then show ?case using abort_all_inv handles_inv_abort_all by blast
qed

lemma directions_bound:
  assumes "registry_inv st"
  shows "card (directions st) < 2 ^ 64"
proof -
  have "directions st \<subseteq> {0..<2 ^ 31} \<times> UNIV"
    using assms by (fastforce simp: directions_def registry_inv_def watcher_def split: option.splits)
  then have "card (directions st) \<le> card ({0::int..<2 ^ 31} \<times> (UNIV :: bool set))"
    by (rule card_mono [rotated]) simp
  also have "\<dots> < 2 ^ 64" by (simp add: card_cartesian_product)
  finally show ?thesis .
qed

section \<open>A concrete run\<close>

definition demo_loop :: "nat loop_state" where
  "demo_loop = tokioop_new (Fin 0) (\<lambda>_ _. None) 1 False (\<lambda>_. PlainCallable)"

text \<open>Two registrations for the read direction of descriptor 7: the second replaces the first.\<close>

definition demo_first :: fd_handle where
  "demo_first = \<lparr>fh_fd = 7, fh_is_read = True, fh_flag = 0\<rparr>"

definition demo_second :: fd_handle where
  "demo_second = \<lparr>fh_fd = 7, fh_is_read = True, fh_flag = 1\<rparr>"

definition demo_replaced :: "nat loop_state" where
  "demo_replaced = snd (add_watcher 7 True 5 [] (snd (add_watcher 7 True 4 [] demo_loop)))"

lemmas demo_defs = demo_loop_def tokioop_new_def add_watcher_def py_seq_def py_bind_def
  os_register_def install_watcher_def Let_def dir_of_def set_dir_def detach_slot_def

lemma demo_add_first: "add_watcher 7 True 4 [] demo_loop = (Inr demo_first, snd (add_watcher 7 True 4 [] demo_loop))"
  by (simp add: demo_defs demo_first_def)

lemma demo_add_second:
  "add_watcher 7 True 5 [] (snd (add_watcher 7 True 4 [] demo_loop)) = (Inr demo_second, demo_replaced)"
  by (simp add: demo_replaced_def demo_defs demo_second_def)

lemma demo_run: "registry_run demo_replaced {demo_second, demo_first}"
proof -
  have r0: "registry_run demo_loop {}" unfolding demo_loop_def by (rule registry_run.fresh)
  have r1: "registry_run (snd (add_watcher 7 True 4 [] demo_loop)) {demo_first}"
    by (rule registry_run.add [OF r0 _ demo_add_first]) (simp add: i32_range_def)
  show ?thesis
    by (rule registry_run.add [OF r1 _ demo_add_second]) (simp add: i32_range_def)
qed

section \<open>Properties\<close>

text \<open>
  C5. In every state the registry reaches by adding, replacing, removing, cancelling and
  aborting watchers, a handle that was given out is cancelled exactly when it is no longer
  the handle of the watcher registered for its descriptor and direction. This is what
  \<open>_sock_read_done\<close> and \<open>_sock_write_done\<close> rely on when they ask \<open>handle.cancelled()\<close> before
  they remove a watcher.
\<close>

theorem handle_cancelled_iff_replaced:
  assumes "registry_run st hs" and "h \<in> hs"
  shows "fd_handle_cancelled st h \<longleftrightarrow> \<not> handle_in_use st h"
  using registry_run_inv [OF assms(1)] assms(2) by (simp add: handles_inv_def)

theorem handle_cancelled_iff_replaced_witness:
  "\<not> handle_in_use demo_replaced demo_first \<and> handle_in_use demo_replaced demo_second"
proof -
  have "fd_handle_cancelled demo_replaced demo_first" "\<not> fd_handle_cancelled demo_replaced demo_second"
    by (simp_all add: fd_handle_cancelled_def demo_replaced_def demo_defs demo_first_def demo_second_def)
  with handle_cancelled_iff_replaced [OF demo_run, of demo_first]
    handle_cancelled_iff_replaced [OF demo_run, of demo_second]
  show ?thesis by simp
qed

text \<open>
  C12. The watcher count that decides whether the loop yields to the watcher tasks is exact:
  as an unsigned 64-bit number it equals the number of registered directions (it never wraps),
  no record of the registry is empty, and \<open>is_polling\<close> is true exactly for the registered
  directions.
\<close>

theorem watcher_count_exact:
  assumes "registry_run st hs"
  shows "unat (n_watchers st) = card (directions st) \<and>
    (\<forall>r\<in>snd ` set (fds st). fr_reader r \<noteq> None \<or> fr_writer r \<noteq> None) \<and>
    (\<forall>fd d. is_polling st fd d \<longleftrightarrow> (fd, d) \<in> directions st)"
proof -
  from assms have inv: "registry_inv st" using registry_run_inv by blast
  have "unat (n_watchers st) = card (directions st)"
    using inv directions_bound [OF inv] by (simp add: registry_inv_def unat_of_nat)
  moreover have "\<forall>r\<in>snd ` set (fds st). fr_reader r \<noteq> None \<or> fr_writer r \<noteq> None"
    using inv unfolding registry_inv_def by (metis (no_types, lifting) imageE map_of_is_SomeI prod.collapse)
  moreover have "is_polling st fd d \<longleftrightarrow> (fd, d) \<in> directions st" for fd d
    using registry_inv_watcher [OF inv, of fd d]
    by (auto simp: is_polling_def directions_def watcher_def live_slot_def Let_def split: option.splits)
  ultimately show ?thesis by blast
qed

theorem watcher_count_exact_witness:
  "unat (n_watchers demo_replaced) = 1 \<and> card (directions demo_replaced) = 1"
proof -
  have "unat (n_watchers demo_replaced) = 1" by (simp add: demo_replaced_def demo_defs)
  with watcher_count_exact [OF demo_run] show ?thesis by simp
qed

end
