(* ===== verification/Watcher_Tasks.thy ===== *)
theory Watcher_Tasks
  imports Reactor
begin

text \<open>
  The watcher tasks of \<^verbatim>\<open>src/src/fd_unix.rs\<close>: \<open>drain_task\<close> with its \<open>drain_loop\<close>, which
  reads a socket itself, and \<open>fd_task\<close>, which asks the loop to run a callback.

  A task runs from one \<open>await\<close> to the next; \<open>drain_poll\<close> and \<open>fd_poll\<close> are such runs, and the
  program counter says at which \<open>await\<close> the task is. Tokio's \<open>AsyncFd\<close> is modelled by its
  documented behaviour on one descriptor: the kernel reports an edge (\<open>rd_edge\<close>) when the descriptor
  becomes ready, the driver turns it into the readiness flag and advances the tick, \<open>readable()\<close>
  returns a guard with the tick once the flag is set, and \<open>clear_ready\<close> clears the flag unless the
  tick has moved on since. The kernel's side of a socket is the queue of what the next reads give.
\<close>

section \<open>The drain reader\<close>

datatype kitem = KData bytes addr_repr | KErr pyexc | KEof

datatype drain_pc = Prime | InLoop "nat option" | Parked | Exited

record 'cb drain_world = "'cb loop_state" +
  kq :: "kitem list"
  rd_flag :: bool
  rd_tick :: nat
  rd_edge :: bool
  pc :: drain_pc
  came :: "kitem list"
  pushed :: "io_data list"

text \<open>The fields \<open>came\<close> and \<open>pushed\<close> are histories: everything that arrived, and everything this task
  put into the completion queue.\<close>

datatype recv_result = RecvData bytes addr_repr | RecvError pyexc | WouldBlock

text \<open>\<open>tcp_recv\<close> and \<open>udp_recvfrom\<close>: interrupted calls are repeated; the end of a stream (or a
  socket shut down for reading) stays at the head of the queue; a stream read takes at most the buffer.\<close>

fun tcp_recv :: "nat \<Rightarrow> kitem list \<Rightarrow> recv_result \<times> kitem list" where
  "tcp_recv chunk [] = (WouldBlock, [])"
| "tcp_recv chunk (KErr e # q) =
     (if e = InterruptedError then tcp_recv chunk q
      else if e = BlockingIOError then (WouldBlock, q) else (RecvError e, q))"
| "tcp_recv chunk (KEof # q) = (RecvData [] ReprUnnamed, KEof # q)"
| "tcp_recv chunk (KData d a # q) =
     (if length d \<le> chunk then (RecvData d a, q) else (RecvData (take chunk d) a, KData (drop chunk d) a # q))"

fun udp_recvfrom :: "kitem list \<Rightarrow> recv_result \<times> kitem list" where
  "udp_recvfrom [] = (WouldBlock, [])"
| "udp_recvfrom (KErr e # q) =
     (if e = InterruptedError then udp_recvfrom q
      else if e = BlockingIOError then (WouldBlock, q) else (RecvError e, q))"
| "udp_recvfrom (KEof # q) = (RecvData [] ReprUnnamed, KEof # q)"
| "udp_recvfrom (KData d a # q) = (RecvData d a, q)"

text \<open>\<open>state.io.push(...)\<close>, with the count of bytes read.\<close>

definition push_io :: "slot_id \<Rightarrow> io_data \<Rightarrow> nat \<Rightarrow> 'cb drain_world \<Rightarrow> 'cb drain_world" where
  "push_io sid d len w =
     w\<lparr>io := io w @ [IoData sid d], n_read_bytes := n_read_bytes w + of_nat len, pushed := pushed w @ [d]\<rparr>"

text \<open>What a quantum reports: whether it pushed, whether the socket is drained, the end of the stream.\<close>

record quantum =
  q_pushed :: bool
  q_drained :: bool
  q_eof :: bool

definition udp_quantum_size :: nat where "udp_quantum_size = 16"
definition tcp_quantum_items :: nat where "tcp_quantum_items = 4"
definition tcp_quantum_bytes :: nat where "tcp_quantum_bytes = 256 * 1024"

primrec udp_quantum :: "slot_id \<Rightarrow> nat \<Rightarrow> 'cb drain_world \<Rightarrow> quantum \<times> 'cb drain_world" where
  "udp_quantum sid 0 w = (\<lparr>q_pushed = False, q_drained = False, q_eof = False\<rparr>, w)"
| "udp_quantum sid (Suc n) w =
     (case udp_recvfrom (kq w) of
        (RecvData d a, q) \<Rightarrow>
          (let (r, w') = udp_quantum sid n (push_io sid (UdpDatagram d a) (length d) (w\<lparr>kq := q\<rparr>))
           in (r\<lparr>q_pushed := True\<rparr>, w'))
      | (WouldBlock, q) \<Rightarrow> (\<lparr>q_pushed = False, q_drained = True, q_eof = False\<rparr>, w\<lparr>kq := q\<rparr>)
      | (RecvError e, q) \<Rightarrow>
          (\<lparr>q_pushed = True, q_drained = True, q_eof = False\<rparr>, push_io sid (ReadError e) 0 (w\<lparr>kq := q\<rparr>)))"

primrec tcp_quantum :: "slot_id \<Rightarrow> nat \<Rightarrow> nat \<Rightarrow> nat \<Rightarrow> 'cb drain_world \<Rightarrow> quantum \<times> 'cb drain_world" where
  "tcp_quantum sid chunk 0 got w = (\<lparr>q_pushed = False, q_drained = False, q_eof = False\<rparr>, w)"
| "tcp_quantum sid chunk (Suc n) got w =
     (if tcp_quantum_bytes \<le> got then (\<lparr>q_pushed = False, q_drained = False, q_eof = False\<rparr>, w)
      else
        (case tcp_recv chunk (kq w) of
           (RecvData d a, q) \<Rightarrow>
             if d = [] then (\<lparr>q_pushed = True, q_drained = True, q_eof = True\<rparr>, push_io sid TcpEof 0 (w\<lparr>kq := q\<rparr>))
             else
               (let (r, w') = tcp_quantum sid chunk n (got + length d) (push_io sid (TcpChunk d) (length d) (w\<lparr>kq := q\<rparr>))
                in (r\<lparr>q_pushed := True\<rparr>, w'))
         | (WouldBlock, q) \<Rightarrow> (\<lparr>q_pushed = False, q_drained = True, q_eof = False\<rparr>, w\<lparr>kq := q\<rparr>)
         | (RecvError e, q) \<Rightarrow>
             (\<lparr>q_pushed = True, q_drained = True, q_eof = False\<rparr>, push_io sid (ReadError e) 0 (w\<lparr>kq := q\<rparr>))))"

definition drain_quantum :: "slot_id \<Rightarrow> drain_kind \<Rightarrow> 'cb drain_world \<Rightarrow> quantum \<times> 'cb drain_world" where
  "drain_quantum sid kind w =
     (case kind of
        Udp \<Rightarrow> udp_quantum sid udp_quantum_size w
      | Tcp chunk \<Rightarrow> tcp_quantum sid chunk tcp_quantum_items 0 w)"

text \<open>\<open>guard.clear_ready()\<close>.\<close>

definition clear_ready :: "nat option \<Rightarrow> 'cb drain_world \<Rightarrow> 'cb drain_world" where
  "clear_ready g w = (case g of None \<Rightarrow> w | Some t \<Rightarrow> if t = rd_tick w then w\<lparr>rd_flag := False\<rparr> else w)"

text \<open>One round of \<open>drain_loop\<close> with the guard \<open>g\<close>, up to the next \<open>await\<close>.\<close>

definition drain_round :: "slot_id \<Rightarrow> drain_kind \<Rightarrow> nat option \<Rightarrow> 'cb drain_world \<Rightarrow> 'cb drain_world" where
  "drain_round sid kind g w =
     (let (q, w1) = drain_quantum sid kind w;
          w2 = (if q_pushed q then notify_one (w1\<lparr>n_io_events := n_io_events w1 + 1\<rparr>) else w1)
      in if q_eof q then w2\<lparr>pc := InLoop g\<rparr>
         else if q_drained q
         then (let w3 = clear_ready g w2 in w3\<lparr>pc := (if sl_dead (slots w3 sid) then Exited else Parked)\<rparr>)
         else w2\<lparr>pc := InLoop g\<rparr>)"

definition drain_poll :: "slot_id \<Rightarrow> drain_kind \<Rightarrow> 'cb drain_world \<Rightarrow> 'cb drain_world" where
  "drain_poll sid kind w =
     (case pc w of
        Prime \<Rightarrow> if sl_dead (slots w sid) then w\<lparr>pc := Parked\<rparr> else drain_round sid kind None w
      | InLoop g \<Rightarrow> if sl_dead (slots w sid) then w\<lparr>pc := Exited\<rparr> else drain_round sid kind g w
      | Parked \<Rightarrow>
          if \<not> rd_flag w then w
          else if sl_dead (slots w sid) then w\<lparr>pc := Exited\<rparr>
          else drain_round sid kind (Some (rd_tick w)) w
      | Exited \<Rightarrow> w)"

section \<open>Stalls\<close>

text \<open>What happens around the task: something arrives, the driver sees the edge, the loop runs (it may
  remove the watcher, and never revives a slot), the task is aborted. \<open>ok\<close> restricts the arrivals.\<close>

inductive drain_step :: "slot_id \<Rightarrow> drain_kind \<Rightarrow> (kitem \<Rightarrow> bool) \<Rightarrow> 'cb drain_world \<Rightarrow> 'cb drain_world \<Rightarrow> bool"
  for sid kind ok where
  run_task: "drain_step sid kind ok w (drain_poll sid kind w)"
| arrive: "ok x \<Longrightarrow> drain_step sid kind ok w (w\<lparr>kq := kq w @ [x], came := came w @ [x], rd_edge := True\<rparr>)"
| driver: "rd_edge w \<Longrightarrow> drain_step sid kind ok w (w\<lparr>rd_flag := True, rd_tick := Suc (rd_tick w), rd_edge := False\<rparr>)"
| loop_runs: "kq w' = kq w \<Longrightarrow> rd_flag w' = rd_flag w \<Longrightarrow> rd_tick w' = rd_tick w \<Longrightarrow> rd_edge w' = rd_edge w \<Longrightarrow>
    pc w' = pc w \<Longrightarrow> came w' = came w \<Longrightarrow> pushed w' = pushed w \<Longrightarrow>
    (sl_dead (slots w sid) \<Longrightarrow> sl_dead (slots w' sid)) \<Longrightarrow> drain_step sid kind ok w w'"
| abort_task: "drain_step sid kind ok w (w\<lparr>pc := Exited\<rparr>)"

fun kbytes :: "kitem \<Rightarrow> bytes" where
  "kbytes (KData d a) = d"
| "kbytes _ = []"

fun io_bytes :: "io_data \<Rightarrow> bytes" where
  "io_bytes (UdpDatagram d a) = d"
| "io_bytes (TcpChunk d) = d"
| "io_bytes _ = []"

text \<open>No read error but interrupted calls.\<close>

fun harmless :: "kitem \<Rightarrow> bool" where
  "harmless (KErr e) = (e = InterruptedError)"
| "harmless _ = True"

abbreviation kstream :: "kitem list \<Rightarrow> bytes" where
  "kstream q \<equiv> concat (map kbytes q)"

abbreviation iostream :: "io_data list \<Rightarrow> bytes" where
  "iostream ds \<equiv> concat (map io_bytes ds)"

lemma udp_recvfrom_harmless:
  assumes "list_all harmless q"
  shows "case udp_recvfrom q of
      (RecvData d a, q') \<Rightarrow> list_all harmless q' \<and> kstream q = d @ kstream q'
    | (WouldBlock, q') \<Rightarrow> q' = [] \<and> kstream q = []
    | (RecvError e, q') \<Rightarrow> False"
  using assms by (induction q rule: udp_recvfrom.induct) (auto split: recv_result.splits)

lemma tcp_recv_harmless:
  assumes "list_all harmless q"
  shows "case tcp_recv chunk q of
      (RecvData d a, q') \<Rightarrow> list_all harmless q' \<and> kstream q = d @ kstream q'
    | (WouldBlock, q') \<Rightarrow> q' = [] \<and> kstream q = []
    | (RecvError e, q') \<Rightarrow> False"
  using assms by (induction chunk q rule: tcp_recv.induct) (auto split: recv_result.splits)

text \<open>A quantum appends to the completion queue what it pushed, and touches nothing else but the
  kernel's queue and the count of bytes.\<close>

definition quantum_frame :: "slot_id \<Rightarrow> nat \<Rightarrow> quantum \<Rightarrow> 'cb drain_world \<Rightarrow> 'cb drain_world \<Rightarrow> bool" where
  "quantum_frame sid n r w w' \<longleftrightarrow>
     (\<exists>ds. io w' = io w @ map (IoData sid) ds \<and> pushed w' = pushed w @ ds \<and> length ds \<le> n \<and> (ds \<noteq> [] \<longleftrightarrow> q_pushed r)) \<and>
     rd_flag w' = rd_flag w \<and> rd_tick w' = rd_tick w \<and> rd_edge w' = rd_edge w \<and> came w' = came w \<and> slots w' = slots w"

lemma quantum_frame_step:
  assumes "quantum_frame sid n r (push_io sid d len (w\<lparr>kq := q\<rparr>)) w'"
  shows "quantum_frame sid (Suc n) (r\<lparr>q_pushed := True\<rparr>) w w'"
proof -
  from assms obtain ds where "io w' = io w @ map (IoData sid) (d # ds)" "pushed w' = pushed w @ d # ds" "length ds \<le> n"
    by (auto simp: quantum_frame_def push_io_def)
  with assms show ?thesis unfolding quantum_frame_def
    by (intro conjI exI [of _ "d # ds"]) (simp_all add: push_io_def)
qed

lemma udp_quantum_frame: "udp_quantum sid n w = (r, w') \<Longrightarrow> quantum_frame sid n r w w'"
proof (induction n arbitrary: w r)
  case (Suc n)
  obtain x q where x: "udp_recvfrom (kq w) = (x, q)" by fastforce
  show ?case
  proof (cases x)
    case (RecvData d a)
    then obtain r' where "udp_quantum sid n (push_io sid (UdpDatagram d a) (length d) (w\<lparr>kq := q\<rparr>)) = (r', w')" "r = r'\<lparr>q_pushed := True\<rparr>"
      using Suc.prems x by (auto split: prod.splits)
    with quantum_frame_step [OF Suc.IH] show ?thesis by blast
  qed (use Suc.prems x in \<open>auto simp: quantum_frame_def push_io_def\<close>)
qed (simp add: quantum_frame_def)

lemma tcp_quantum_frame: "tcp_quantum sid chunk n got w = (r, w') \<Longrightarrow> quantum_frame sid n r w w'"
proof (induction n arbitrary: got w r)
  case (Suc n)
  obtain x q where x: "tcp_recv chunk (kq w) = (x, q)" by fastforce
  show ?case
  proof (cases "\<exists>d a. x = RecvData d a \<and> d \<noteq> [] \<and> \<not> tcp_quantum_bytes \<le> got")
    case True
    then obtain d a r' where "tcp_quantum sid chunk n (got + length d) (push_io sid (TcpChunk d) (length d) (w\<lparr>kq := q\<rparr>)) = (r', w')"
      "r = r'\<lparr>q_pushed := True\<rparr>"
      using Suc.prems x by (auto split: prod.splits)
    with quantum_frame_step [OF Suc.IH] show ?thesis by blast
  qed (use Suc.prems x in \<open>auto simp: quantum_frame_def push_io_def split: recv_result.splits if_splits\<close>)
qed (simp add: quantum_frame_def)

lemma quantum_frame_mono:
  assumes "quantum_frame sid n r w w'" and "n \<le> m"
  shows "quantum_frame sid m r w w'"
proof -
  from assms(1) obtain ds where "io w' = io w @ map (IoData sid) ds" "pushed w' = pushed w @ ds" "length ds \<le> n" "ds \<noteq> [] \<longleftrightarrow> q_pushed r"
    by (auto simp: quantum_frame_def)
  with assms show ?thesis unfolding quantum_frame_def by (intro conjI exI [of _ ds]) simp_all
qed

lemma drain_quantum_frame: "drain_quantum sid kind w = (r, w') \<Longrightarrow> quantum_frame sid 16 r w w'"
  by (cases kind) (auto simp: drain_quantum_def udp_quantum_size_def tcp_quantum_items_def
      intro: udp_quantum_frame quantum_frame_mono [OF tcp_quantum_frame])

text \<open>With harmless arrivals no byte is lost, and a drained socket has nothing left to read.\<close>

definition quantum_clean :: "quantum \<Rightarrow> 'cb drain_world \<Rightarrow> 'cb drain_world \<Rightarrow> bool" where
  "quantum_clean r w w' \<longleftrightarrow> list_all harmless (kq w') \<and> (q_drained r \<and> \<not> q_eof r \<longrightarrow> kq w' = []) \<and>
     iostream (pushed w') @ kstream (kq w') = iostream (pushed w) @ kstream (kq w)"

lemma quantum_clean_step:
  assumes "quantum_clean r (push_io sid d len (w\<lparr>kq := q\<rparr>)) w'" and "kstream (kq w) = io_bytes d @ kstream q"
  shows "quantum_clean (r\<lparr>q_pushed := True\<rparr>) w w'"
  using assms by (simp add: quantum_clean_def push_io_def)

lemma udp_quantum_clean:
  "list_all harmless (kq w) \<Longrightarrow> udp_quantum sid n w = (r, w') \<Longrightarrow> quantum_clean r w w'"
proof (induction n arbitrary: w r)
  case (Suc n)
  obtain x q where x: "udp_recvfrom (kq w) = (x, q)" by fastforce
  note k = udp_recvfrom_harmless [OF Suc.prems(1), unfolded x prod.case]
  show ?case
  proof (cases x)
    case (RecvData d a)
    then obtain r' where r': "udp_quantum sid n (push_io sid (UdpDatagram d a) (length d) (w\<lparr>kq := q\<rparr>)) = (r', w')" "r = r'\<lparr>q_pushed := True\<rparr>"
      using Suc.prems x by (auto split: prod.splits)
    from Suc.IH [OF _ r'(1)] k RecvData show ?thesis
      unfolding r'(2) by (intro quantum_clean_step) (simp add: push_io_def, simp)
  qed (use Suc.prems x k in \<open>auto simp: quantum_clean_def\<close>)
qed (simp add: quantum_clean_def)

lemma tcp_quantum_clean:
  "list_all harmless (kq w) \<Longrightarrow> tcp_quantum sid chunk n got w = (r, w') \<Longrightarrow> quantum_clean r w w'"
proof (induction n arbitrary: got w r)
  case (Suc n)
  obtain x q where x: "tcp_recv chunk (kq w) = (x, q)" by fastforce
  note k = tcp_recv_harmless [OF Suc.prems(1), of chunk, unfolded x prod.case]
  show ?case
  proof (cases "\<exists>d a. x = RecvData d a \<and> d \<noteq> [] \<and> \<not> tcp_quantum_bytes \<le> got")
    case True
    then obtain d a r' where d: "x = RecvData d a" and r': "r = r'\<lparr>q_pushed := True\<rparr>"
      "tcp_quantum sid chunk n (got + length d) (push_io sid (TcpChunk d) (length d) (w\<lparr>kq := q\<rparr>)) = (r', w')"
      using Suc.prems x by (auto split: prod.splits)
    from Suc.IH [OF _ r'(2)] k d show ?thesis
      unfolding r'(1) by (intro quantum_clean_step) (simp add: push_io_def, simp)
  qed (use Suc.prems x k in \<open>auto simp: quantum_clean_def push_io_def split: recv_result.splits if_splits\<close>)
qed (simp add: quantum_clean_def)

lemma drain_quantum_clean: "list_all harmless (kq w) \<Longrightarrow> drain_quantum sid kind w = (r, w') \<Longrightarrow> quantum_clean r w w'"
  by (auto simp: drain_quantum_def split: drain_kind.splits intro: udp_quantum_clean tcp_quantum_clean)

definition drain_inv :: "slot_id \<Rightarrow> 'cb drain_world \<Rightarrow> bool" where
  "drain_inv sid w \<longleftrightarrow> list_all harmless (kq w) \<and>
     (pc w = Parked \<longrightarrow> \<not> sl_dead (slots w sid) \<longrightarrow> kq w = [] \<or> rd_flag w \<or> rd_edge w) \<and>
     kstream (came w) = iostream (pushed w) @ kstream (kq w)"

definition drain_start :: "'cb drain_world \<Rightarrow> bool" where
  "drain_start w \<longleftrightarrow> pc w = Prime \<and> came w = kq w \<and> pushed w = [] \<and> list_all harmless (kq w)"

lemma clear_ready_fields [simp]:
  "kq (clear_ready g w) = kq w" "came (clear_ready g w) = came w" "pushed (clear_ready g w) = pushed w"
  "slots (clear_ready g w) = slots w" "io (clear_ready g w) = io w" "permit (clear_ready g w) = permit w"
  by (simp_all add: clear_ready_def split: option.split)

text \<open>What a round does, on both sides of its decision.\<close>

lemma drain_round_effect:
  assumes "drain_quantum sid kind w = (q, w1)"
  shows "io (drain_round sid kind g w) = io w1 \<and> pushed (drain_round sid kind g w) = pushed w1 \<and>
    came (drain_round sid kind g w) = came w1 \<and> kq (drain_round sid kind g w) = kq w1 \<and>
    (q_pushed q \<longrightarrow> permit (drain_round sid kind g w)) \<and>
    (pc (drain_round sid kind g w) = Parked \<longrightarrow> q_drained q \<and> \<not> q_eof q)"
  using assms by (simp add: drain_round_def Let_def notify_one_def)

lemma drain_round_inv:
  assumes "drain_inv sid w"
  shows "drain_inv sid (drain_round sid kind g w)"
proof -
  obtain q w1 where q: "drain_quantum sid kind w = (q, w1)" by fastforce
  have "list_all harmless (kq w)" using assms by (simp add: drain_inv_def)
  with drain_quantum_clean [OF _ q] drain_quantum_frame [OF q] drain_round_effect [OF q, of g] assms show ?thesis
    by (auto simp: drain_inv_def quantum_clean_def quantum_frame_def)
qed

lemma drain_step_inv: "drain_step sid kind harmless w w' \<Longrightarrow> drain_inv sid w \<Longrightarrow> drain_inv sid w'"
proof (induction rule: drain_step.induct)
  case (run_task w)
  have R: "drain_inv sid (drain_round sid kind g w)" for g using run_task by (rule drain_round_inv)
  have P: "sl_dead (slots w sid) \<Longrightarrow> drain_inv sid (w\<lparr>pc := Parked\<rparr>)" "drain_inv sid (w\<lparr>pc := Exited\<rparr>)"
    using run_task by (simp_all add: drain_inv_def)
  from R P run_task show ?case by (cases "pc w") (simp_all add: drain_poll_def)
qed (auto simp: drain_inv_def)


definition sample_drain :: "kitem list \<Rightarrow> nat drain_world" where
  "sample_drain q = loop_state.extend
     ((tokioop_new (Fin 0) (\<lambda>_ _. None) 1 False (\<lambda>_. PlainCallable))
       \<lparr>slots := (\<lambda>_. \<lparr>sl_cb = None, sl_drain = Some 1, sl_drain_err = Some 2, sl_dead = False, sl_flag = None\<rparr>)\<rparr>)
     \<lparr>kq = q, rd_flag = False, rd_tick = 0, rd_edge = False, pc = Prime, came = q, pushed = []\<rparr>"


text \<open>
  C35. A read error stalls the drain reader: the task takes any error but \<open>EAGAIN\<close> for a drained
  socket, clears the readiness flag and parks, although the error (a refused datagram reported by
  ICMP, say) stands before data the kernel already holds. The data stays unread and no wake-up is
  pending; running the task changes nothing, until something new arrives.
\<close>

theorem read_error_stalls_reader:
  assumes "pc w = Parked" and "rd_flag w" and "\<not> rd_edge w" and "\<not> sl_dead (slots w sid)"
    and "kq w = KErr e # rest" and "e \<noteq> InterruptedError" and "e \<noteq> BlockingIOError"
  shows "\<exists>w'. drain_poll sid kind w = w' \<and> pc w' = Parked \<and> \<not> sl_dead (slots w' sid) \<and> kq w' = rest \<and>
    pushed w' = pushed w @ [ReadError e] \<and> \<not> rd_flag w' \<and> \<not> rd_edge w' \<and> drain_poll sid kind w' = w'"
proof -
  let ?w1 = "push_io sid (ReadError e) 0 (w\<lparr>kq := rest\<rparr>)"
  have q: "drain_quantum sid kind w = (\<lparr>q_pushed = True, q_drained = True, q_eof = False\<rparr>, ?w1)"
  proof -
    have "0 < udp_quantum_size" "0 < tcp_quantum_items" and b: "\<not> tcp_quantum_bytes \<le> 0"
      by (simp_all add: udp_quantum_size_def tcp_quantum_items_def tcp_quantum_bytes_def)
    then obtain n m where n: "udp_quantum_size = Suc n" "tcp_quantum_items = Suc m" by (metis gr0_conv_Suc)
    from assms(5-7) b show ?thesis by (cases kind) (simp_all add: drain_quantum_def n)
  qed
  have "drain_poll sid kind w = ?w1\<lparr>n_io_events := n_io_events ?w1 + 1, permit := True, rd_flag := False, pc := Parked\<rparr>"
    using assms(1-4) by (simp add: drain_poll_def drain_round_def q notify_one_def clear_ready_def push_io_def)
  then show ?thesis using assms(3,4) by (auto simp: drain_poll_def push_io_def)
qed

theorem read_error_stalls_reader_witness:
  "\<exists>w'. drain_poll 0 Udp ((sample_drain [KErr (OSError 111 ''Connection refused''), KData [7] ReprUnnamed])\<lparr>pc := Parked, rd_flag := True\<rparr>) = w' \<and>
     pc w' = Parked \<and> kq w' = [KData [7] ReprUnnamed] \<and> \<not> rd_flag w' \<and> \<not> rd_edge w'"
  using read_error_stalls_reader [of "(sample_drain [KErr (OSError 111 ''Connection refused''), KData [7] ReprUnnamed])\<lparr>pc := Parked, rd_flag := True\<rparr>"
      0 "OSError 111 ''Connection refused''" "[KData [7] ReprUnnamed]" Udp]
  by (simp add: sample_drain_def loop_state.defs)

section \<open>The callback watcher\<close>

text \<open>
  \<open>fd_task\<close>. \<open>level\<close> is the readiness of the descriptor for the task's direction, \<open>polls\<close> the
  failures of the next \<open>poll\<close> calls. The task awaits readiness (\<open>FdWait\<close>) or the loop's rendezvous
  after it queued a callback (\<open>FdCalled\<close>), with the tick of its guard if it holds one.
\<close>

datatype fd_pc = FdStart | FdWait | FdCalled "nat option" | FdExited

record 'cb fd_world = "'cb loop_state" +
  level :: bool
  polls :: "pyexc option list"
  fw_flag :: bool
  fw_tick :: nat
  fw_edge :: bool
  fpc :: fd_pc

text \<open>\<open>poll_ready\<close>: interrupted calls are repeated, other failures count as ready.\<close>

fun poll_ready :: "bool \<Rightarrow> pyexc option list \<Rightarrow> bool \<times> pyexc option list" where
  "poll_ready lv [] = (lv, [])"
| "poll_ready lv (None # ps) = (lv, ps)"
| "poll_ready lv (Some e # ps) = (if e = InterruptedError then poll_ready lv ps else (True, ps))"

text \<open>Queue the callback, or leave if there is none.\<close>

definition fd_fire :: "slot_id \<Rightarrow> nat option \<Rightarrow> 'cb fd_world \<Rightarrow> 'cb fd_world" where
  "fd_fire sid g w =
     (if sl_cb (slots w sid) = None then w\<lparr>fpc := FdExited\<rparr>
      else notify_one (w\<lparr>io := io w @ [IoCallback sid], n_io_events := n_io_events w + 1, fpc := FdCalled g\<rparr>))"

text \<open>After the rendezvous: fire again while the descriptor is ready; otherwise clear the flag, through
  the guard or, without one, with \<open>try_io\<close>, and wait.\<close>

definition fd_after :: "slot_id \<Rightarrow> nat option \<Rightarrow> 'cb fd_world \<Rightarrow> 'cb fd_world" where
  "fd_after sid g w =
     (if sl_cb (slots w sid) = None then w\<lparr>fpc := FdExited\<rparr>
      else
        (case poll_ready (level w) (polls w) of
           (True, ps) \<Rightarrow> fd_fire sid g (w\<lparr>polls := ps\<rparr>)
         | (False, ps) \<Rightarrow>
             w\<lparr>polls := ps, fpc := FdWait,
               fw_flag := (case g of Some t \<Rightarrow> if t = fw_tick w then False else fw_flag w | None \<Rightarrow> False)\<rparr>))"

definition fd_poll :: "slot_id \<Rightarrow> 'cb fd_world \<Rightarrow> 'cb fd_world" where
  "fd_poll sid w =
     (case fpc w of
        FdStart \<Rightarrow>
          (case poll_ready (level w) (polls w) of
             (True, ps) \<Rightarrow> fd_fire sid None (w\<lparr>polls := ps\<rparr>)
           | (False, ps) \<Rightarrow> w\<lparr>polls := ps, fpc := FdWait\<rparr>)
      | FdWait \<Rightarrow> if fw_flag w then fd_fire sid (Some (fw_tick w)) w else w
      | FdCalled g \<Rightarrow>
          if hs_permit w sid then fd_after sid g (w\<lparr>hs_permit := (hs_permit w)(sid := False)\<rparr>) else w
      | FdExited \<Rightarrow> w)"

text \<open>The descriptor becomes ready with an edge; the loop's callbacks may use up the readiness.\<close>

inductive fd_step :: "slot_id \<Rightarrow> 'cb fd_world \<Rightarrow> 'cb fd_world \<Rightarrow> bool" for sid where
  fd_run: "fd_step sid w (fd_poll sid w)"
| fd_ready: "fd_step sid w (w\<lparr>level := True, fw_edge := True\<rparr>)"
| fd_driver: "fw_edge w \<Longrightarrow> fd_step sid w (w\<lparr>fw_flag := True, fw_tick := Suc (fw_tick w), fw_edge := False\<rparr>)"
| fd_loop: "(level w' \<Longrightarrow> level w) \<Longrightarrow> fw_flag w' = fw_flag w \<Longrightarrow> fw_tick w' = fw_tick w \<Longrightarrow> fw_edge w' = fw_edge w \<Longrightarrow>
    fpc w' = fpc w \<Longrightarrow> fd_step sid w w'"
| fd_abort: "fd_step sid w (w\<lparr>fpc := FdExited\<rparr>)"

definition fd_inv :: "'cb fd_world \<Rightarrow> bool" where
  "fd_inv w \<longleftrightarrow> (fpc w = FdWait \<longrightarrow> level w \<longrightarrow> fw_flag w \<or> fw_edge w)"

lemma poll_ready_false: "poll_ready lv ps = (False, ps') \<Longrightarrow> \<not> lv"
  by (induction lv ps rule: poll_ready.induct) (auto split: if_splits)

lemma fd_fire_inv: "fd_inv (fd_fire sid g w)"
  by (simp add: fd_inv_def fd_fire_def notify_one_def)

lemma fd_wait_inv: "poll_ready (level w) ps = (False, ps') \<Longrightarrow> fd_inv (w\<lparr>polls := qs, fpc := FdWait, fw_flag := b\<rparr>)"
  using poll_ready_false [of "level w" ps ps'] by (simp add: fd_inv_def)

lemma fd_after_inv: "fd_inv (fd_after sid g w)"
proof (cases "poll_ready (level w) (polls w)")
  case (Pair r ps)
  then show ?thesis using fd_wait_inv [of w "polls w" ps]
    by (cases r) (simp_all add: fd_after_def fd_fire_inv, simp_all add: fd_inv_def)
qed

lemma fd_poll_inv:
  assumes "fd_inv w"
  shows "fd_inv (fd_poll sid w)"
proof (cases "poll_ready (level w) (polls w)")
  case (Pair r ps)
  then have "fpc w = FdStart \<Longrightarrow> fd_inv (fd_poll sid w)"
    using poll_ready_false [of "level w" "polls w" ps] by (cases r) (simp_all add: fd_poll_def fd_fire_inv, simp add: fd_inv_def)
  with assms show ?thesis by (cases "fpc w") (simp_all add: fd_poll_def fd_fire_inv fd_after_inv)
qed

text \<open>A callback watcher that waits on a ready descriptor is about to be woken: no readiness is lost
  between the callback, the probe and the clearing of the flag.\<close>

lemma callback_watcher_never_stalls:
  assumes "fpc w0 = FdStart" and "rtranclp (fd_step sid) w0 w"
  shows "fpc w = FdWait \<Longrightarrow> level w \<Longrightarrow> fw_flag w \<or> fw_edge w"
proof -
  have "fd_inv w" using assms(2)
  proof (induction rule: rtranclp_induct)
    case base
    then show ?case using assms(1) by (simp add: fd_inv_def)
  next
    case (step y z)
    from step.hyps(2) step.IH show ?case
      by (induction rule: fd_step.induct) (auto simp: fd_poll_inv, auto simp: fd_inv_def)
  qed
  then show "fpc w = FdWait \<Longrightarrow> level w \<Longrightarrow> fw_flag w \<or> fw_edge w" by (auto simp: fd_inv_def)
qed

end
