(* ===== verification/Timer_Heap.thy ===== *)
theory Timer_Heap
  imports Loop_State
begin

text \<open>
  The timer heap: \<open>BinaryHeap<TimerEntry>\<close> as \<^verbatim>\<open>src/src/event_loop.rs\<close> uses it
  (push, peek, pop), the interface of a timer queue as a locale, and its interpretation on the
  heap. The heap is kept as the list of its entries; \<open>peek\<close> returns a greatest entry of the
  order \<open>timer_cmp\<close>, which is what the standard library promises.
\<close>

section \<open>Heap operations\<close>

definition heap_push :: "'cb timer_entry \<Rightarrow> 'cb timer_entry list \<Rightarrow> 'cb timer_entry list" where
  "heap_push t h = h @ [t]"

fun heap_peek :: "'cb timer_entry list \<Rightarrow> 'cb timer_entry option" where
  "heap_peek [] = None"
| "heap_peek (t # h) =
     (case heap_peek h of
        None \<Rightarrow> Some t
      | Some u \<Rightarrow> if timer_cmp t u = Less then Some u else Some t)"

definition heap_pop :: "'cb timer_entry list \<Rightarrow> ('cb timer_entry \<times> 'cb timer_entry list) option" where
  "heap_pop h = (case heap_peek h of None \<Rightarrow> None | Some t \<Rightarrow> Some (t, remove1 t h))"

text \<open>\<open>next_deadline\<close>: \<open>None\<close> with no timers, zero when one is due, otherwise the time to
  the earliest deadline; the outer \<open>None\<close> is the panic of \<open>from_secs_f64\<close>.\<close>

definition next_deadline :: "('cb, 'x) loop_state_scheme \<Rightarrow> rat option option" where
  "next_deadline st =
     (case heap_peek (timers st) of
        None \<Rightarrow> Some None
      | Some t \<Rightarrow>
          let dt = f64_sub (te_when t) (now st)
          in if f64_le dt (Fin 0) then Some (Some 0)
             else map_option Some (duration_from_secs_f64 dt))"

text \<open>\<open>timers_due\<close> of \<^verbatim>\<open>event_loop.rs\<close>.\<close>

definition timers_due :: "('cb, 'x) loop_state_scheme \<Rightarrow> bool" where
  "timers_due st =
     (case heap_peek (timers st) of None \<Rightarrow> False | Some t \<Rightarrow> f64_le (te_when t) (now st))"

text \<open>Popping at most \<open>n\<close> entries while the top entry is due, with the entries popped.\<close>

fun pop_due :: "('q \<Rightarrow> ('e \<times> 'q) option) \<Rightarrow> ('e \<Rightarrow> bool) \<Rightarrow> nat \<Rightarrow> 'q \<Rightarrow> 'e list \<times> 'q" where
  "pop_due pop due 0 q = ([], q)"
| "pop_due pop due (Suc n) q =
     (case pop q of
        None \<Rightarrow> ([], q)
      | Some (e, q') \<Rightarrow>
          if due e then (case pop_due pop due n q' of (es, q'') \<Rightarrow> (e # es, q'')) else ([], q))"

text \<open>An ordinary entry has a deadline other than NaN; \<open>fires_before_or_with\<close> compares two
  entries by deadline and then by sequence number.\<close>

definition ordinary :: "'cb timer_entry \<Rightarrow> bool" where
  "ordinary t \<longleftrightarrow> te_when t \<noteq> NaN"

definition fires_no_later :: "'cb timer_entry \<Rightarrow> 'cb timer_entry \<Rightarrow> bool" where
  "fires_no_later a b \<longleftrightarrow>
     f64_le (te_when a) (te_when b) \<and> (te_when a = te_when b \<longrightarrow> te_seq a \<le> te_seq b)"

section \<open>The interface of a timer queue\<close>

locale timer_queue =
  fixes push :: "'e \<Rightarrow> 'q \<Rightarrow> 'q"
    and peek :: "'q \<Rightarrow> 'e option"
    and pop :: "'q \<Rightarrow> ('e \<times> 'q) option"
    and contents :: "'q \<Rightarrow> 'e multiset"
    and le :: "'e \<Rightarrow> 'e \<Rightarrow> bool"
    and ok :: "'e \<Rightarrow> bool"
  assumes contents_push: "contents (push e q) = add_mset e (contents q)"
    and peek_pop: "map_option fst (pop q) = peek q"
    and contents_pop: "pop q = Some (e, q') \<Longrightarrow> contents q = add_mset e (contents q')"
    and peek_None: "peek q = None \<longleftrightarrow> contents q = {#}"
    and peek_least: "(\<forall>x\<in>#contents q. ok x) \<Longrightarrow> peek q = Some e \<Longrightarrow> x \<in># contents q \<Longrightarrow> le e x"
begin

lemma pop_None: "pop q = None \<longleftrightarrow> contents q = {#}"
  by (simp add: peek_pop [symmetric] flip: peek_None)

lemma pop_least:
  "(\<forall>x\<in>#contents q. ok x) \<Longrightarrow> pop q = Some (e, q') \<Longrightarrow> x \<in># contents q \<Longrightarrow> le e x"
  using peek_least [of q e x] peek_pop [of q] by simp

lemma pop_due_contents: "pop_due pop due n q = (es, q') \<Longrightarrow> contents q = mset es + contents q'"
proof (induction n arbitrary: q es q')
  case 0
  then show ?case by simp
next
  case (Suc n)
  then show ?case
    by (fastforce dest: contents_pop split: option.splits prod.splits if_splits)
qed

lemma pop_due_due: "pop_due pop due n q = (es, q') \<Longrightarrow> e \<in> set es \<Longrightarrow> due e"
proof (induction n arbitrary: q es q')
  case 0
  then show ?case by simp
next
  case (Suc n)
  then show ?case
    by (fastforce split: option.splits prod.splits if_splits)
qed

lemma pop_due_sorted:
  assumes "\<forall>x\<in>#contents q. ok x" and "pop_due pop due n q = (es, q')"
  shows "sorted_wrt le es"
  using assms
proof (induction n arbitrary: q es q')
  case 0
  then show ?case by simp
next
  case (Suc n)
  show ?case
  proof (cases "pop q")
    case None
    with Suc.prems show ?thesis by simp
  next
    case (Some p)
    obtain e r where p: "p = (e, r)" by (cases p)
    note c = contents_pop [OF Some [unfolded p]]
    show ?thesis
    proof (cases "due e")
      case False
      with Suc.prems Some p show ?thesis by simp
    next
      case True
      obtain fs r' where fs: "pop_due pop due n r = (fs, r')" by fastforce
      from Suc.prems True Some p fs have es: "es = e # fs" by simp
      from Suc.prems c have "\<forall>x\<in>#contents r. ok x" by simp
      then have s: "sorted_wrt le fs" using fs by (rule Suc.IH)
      have "le e x" if "x \<in> set fs" for x
      proof -
        from that pop_due_contents [OF fs] c have "x \<in># contents q" by simp
        with Suc.prems(1) Some p show ?thesis by (blast intro: pop_least)
      qed
      with s es show ?thesis by simp
    qed
  qed
qed

lemma pop_due_complete:
  assumes "\<forall>x\<in>#contents q. ok x"
    and "\<And>a b. le a b \<Longrightarrow> due b \<Longrightarrow> due a"
    and "size (contents q) \<le> n" and "pop_due pop due n q = (es, q')"
  shows "\<forall>x\<in>#contents q'. \<not> due x"
  using assms(1,3,4)
proof (induction n arbitrary: q es q')
  case 0
  then show ?case by simp
next
  case (Suc n)
  show ?case
  proof (cases "pop q")
    case None
    with Suc.prems pop_None show ?thesis by auto
  next
    case (Some p)
    obtain e r where p: "p = (e, r)" by (cases p)
    note c = contents_pop [OF Some [unfolded p]]
    show ?thesis
    proof (cases "due e")
      case False
      with Suc.prems Some p have "q' = q" by simp
      with False assms(2) pop_least [OF Suc.prems(1) Some [unfolded p]] show ?thesis by blast
    next
      case True
      obtain fs r' where fs: "pop_due pop due n r = (fs, r')" by fastforce
      with Suc.prems True Some p have "q' = r'" by simp
      moreover from Suc.prems c have "\<forall>x\<in>#contents r. ok x" "size (contents r) \<le> n" by simp_all
      ultimately show ?thesis using Suc.IH fs by simp
    qed
  qed
qed

end

section \<open>The heap provides it\<close>

lemma seq_cmp_simps [simp]:
  "seq_cmp a b = Less \<longleftrightarrow> a < b" "seq_cmp a b = Equal \<longleftrightarrow> a = b" "seq_cmp a b = Greater \<longleftrightarrow> b < a"
  by (auto simp: seq_cmp_def)

lemma timer_cmp_fires_no_later:
  assumes "ordinary a" "ordinary b"
  shows "timer_cmp a b \<noteq> Less \<longleftrightarrow> fires_no_later a b"
proof -
  from assms have na: "te_when a \<noteq> NaN" and nb: "te_when b \<noteq> NaN" by (simp_all add: ordinary_def)
  consider "te_when a = te_when b" | "te_when a \<noteq> te_when b" "f64_le (te_when a) (te_when b)"
    | "\<not> f64_le (te_when a) (te_when b)" by blast
  then show ?thesis
  proof cases
    case 1
    with na show ?thesis
      by (auto simp: timer_cmp_def fires_no_later_def f64_partial_cmp_le split: ordering.split)
  next
    case 2
    with na nb have "\<not> f64_le (te_when b) (te_when a)" using f64_le_antisym by blast
    with 2 na nb show ?thesis
      by (simp add: timer_cmp_def fires_no_later_def f64_partial_cmp_le)
  next
    case 3
    with na nb show ?thesis
      by (simp add: timer_cmp_def fires_no_later_def f64_partial_cmp_le)
  qed
qed

lemma fires_no_later_trans: "fires_no_later a b \<Longrightarrow> fires_no_later b c \<Longrightarrow> fires_no_later a c"
  unfolding fires_no_later_def by (metis f64_le_antisym f64_le_trans order_trans)

lemma fires_no_later_total: "ordinary a \<Longrightarrow> ordinary b \<Longrightarrow> fires_no_later a b \<or> fires_no_later b a"
  unfolding fires_no_later_def ordinary_def by (metis f64_le_total f64_le_refl linear f64_le_antisym)

lemma fires_no_later_refl: "ordinary a \<Longrightarrow> fires_no_later a a"
  by (simp add: fires_no_later_def ordinary_def)

lemma heap_peek_None [simp]: "heap_peek h = None \<longleftrightarrow> h = []"
  by (cases h) (auto split: option.splits)

lemma heap_peek_in: "heap_peek h = Some t \<Longrightarrow> t \<in> set h"
  by (induction h arbitrary: t) (auto split: option.splits if_splits)

lemma heap_peek_least:
  "(\<forall>x\<in>set h. ordinary x) \<Longrightarrow> heap_peek h = Some t \<Longrightarrow> x \<in> set h \<Longrightarrow> fires_no_later t x"
proof (induction h arbitrary: t x)
  case Nil
  then show ?case by simp
next
  case (Cons y h)
  show ?case
  proof (cases "heap_peek h")
    case None
    with Cons.prems show ?thesis by (auto simp: fires_no_later_refl)
  next
    case (Some u)
    have u: "fires_no_later u x" if "x \<in> set h" for x
      using Cons.IH Cons.prems(1) Some that by simp
    have ou: "ordinary u" and oy: "ordinary y" using Cons.prems(1) heap_peek_in [OF Some] by auto
    show ?thesis
    proof (cases "timer_cmp y u = Less")
      case True
      with Cons.prems Some have "t = u" by simp
      moreover have "fires_no_later u y"
        using True ou oy fires_no_later_total timer_cmp_fires_no_later by blast
      ultimately show ?thesis using u Cons.prems(3) by auto
    next
      case False
      with Cons.prems Some have "t = y" by simp
      moreover have "fires_no_later y u" using False ou oy timer_cmp_fires_no_later by blast
      ultimately show ?thesis
        using u Cons.prems(3) oy by (auto intro: fires_no_later_refl fires_no_later_trans)
    qed
  qed
qed

interpretation heap: timer_queue heap_push heap_peek heap_pop mset fires_no_later ordinary
proof unfold_locales
  fix e :: "'a timer_entry" and q
  show "mset (heap_push e q) = add_mset e (mset q)" by (simp add: heap_push_def)
next
  fix q :: "'a timer_entry list"
  show "map_option fst (heap_pop q) = heap_peek q"
    by (simp add: heap_pop_def split: option.split)
next
  fix q :: "'a timer_entry list" and e q'
  assume "heap_pop q = Some (e, q')"
  then show "mset q = add_mset e (mset q')"
    by (auto simp: heap_pop_def dest: heap_peek_in split: option.splits)
next
  fix q :: "'a timer_entry list"
  show "heap_peek q = None \<longleftrightarrow> mset q = {#}" by simp
next
  fix q :: "'a timer_entry list" and e x
  assume "\<forall>x\<in>#mset q. ordinary x" "heap_peek q = Some e" "x \<in># mset q"
  then show "fires_no_later e x" using heap_peek_least by auto
qed

lemma due_downward: "fires_no_later a b \<Longrightarrow> f64_le (te_when b) t \<Longrightarrow> f64_le (te_when a) t"
  by (auto simp: fires_no_later_def intro: f64_le_trans)

section \<open>Properties\<close>


definition sample_entry :: "rat \<Rightarrow> 64 word \<Rightarrow> nat timer_entry" where
  "sample_entry d n = \<lparr>te_when = Fin d, te_seq = n,
     te_entry = \<lparr>re_callback = unat n, re_args = [], re_context = None, re_cancelled = 0\<rparr>\<rparr>"


lemma next_deadline_finite:
  assumes "now st = Fin t"
    and "\<forall>e\<in>set (timers st). \<exists>d. te_when e = Fin d \<and> d < t + 2 ^ 64"
  shows "\<exists>r. next_deadline st = Some r \<and> (r = None \<longleftrightarrow> timers st = []) \<and>
    (\<forall>d. r = Some d \<longrightarrow> 0 \<le> d \<and> (d = 0 \<longleftrightarrow> timers_due st) \<and>
       (\<forall>e\<in>set (timers st). \<not> timers_due st \<longrightarrow> f64_le (Fin (t + d)) (te_when e)))"
proof (cases "heap_peek (timers st)")
  case None
  then show ?thesis by (simp add: next_deadline_def)
next
  case (Some u)
  from assms(2) heap_peek_in [OF Some] obtain d where d: "te_when u = Fin d" "d < t + 2 ^ 64"
    by blast
  have o: "\<forall>x\<in>set (timers st). ordinary x" using assms(2) by (fastforce simp: ordinary_def)
  have least: "f64_le (Fin d) (te_when e)" if "e \<in> set (timers st)" for e
    using heap_peek_least [OF o Some that] d(1) by (simp add: fires_no_later_def)
  have ne: "timers st \<noteq> []" using Some by auto
  have sub: "f64_sub (te_when u) (now st) = Fin (d - t)" by (simp add: f64_sub_def d assms(1))
  have due: "timers_due st \<longleftrightarrow> d \<le> t" by (simp add: timers_due_def Some d assms(1))
  show ?thesis
  proof (cases "d \<le> t")
    case True
    then show ?thesis
      by (simp add: next_deadline_def Some sub due ne)
  next
    case False
    have bd: "0 \<le> d - t \<and> d - t < 18446744073709551616" using False d(2) by simp
    have "next_deadline st = Some (Some (d - t))"
      using False bd by (simp add: next_deadline_def Some sub)
    with False ne due least show ?thesis by auto
  qed
qed

lemma next_deadline_infinite:
  assumes "now st = Fin t"
  shows "next_deadline (st\<lparr>timers := [e\<lparr>te_when := PosInf\<rparr>]\<rparr>) = None" "next_deadline (st\<lparr>timers := [e\<lparr>te_when := NaN\<rparr>]\<rparr>) = None"
proof -
  have "now (st\<lparr>timers := ts\<rparr>) = Fin t" for ts using assms by (simp add: now_def)
  then show "next_deadline (st\<lparr>timers := [e\<lparr>te_when := PosInf\<rparr>]\<rparr>) = None" "next_deadline (st\<lparr>timers := [e\<lparr>te_when := NaN\<rparr>]\<rparr>) = None"
    by (simp_all add: next_deadline_def f64_sub_def f64_le_def)
qed


definition sample_loop :: "nat timer_entry list \<Rightarrow> nat loop_state" where
  "sample_loop ts = (tokioop_new (Fin 1) (\<lambda>_ _. None) 1 False (\<lambda>_. PlainCallable))\<lparr>timers := ts, elapsed := Fin 2\<rparr>"


end
