(* ===== verification/Loop_Core.thy ===== *)
theory Loop_Core
  imports Timer_Heap Reactor
begin

text \<open>
  The Python-facing methods of \<open>TokioopLoop\<close> (\<^verbatim>\<open>src/src/event_loop.rs\<close>): the checks,
  scheduling of callbacks and timers, handles, descriptor registration, stop and close. The
  record \<open>tokioop_loop\<close> adds the attributes that \<open>TokioopLoop.__init__\<close> sets on the Python
  object.
\<close>

section \<open>State and checks\<close>

datatype executor = ThreadPool nat | OtherExecutor nat

record 'cb tokioop_loop = "'cb loop_state" +
  transports :: "(int \<times> nat) list"
  asyncgens :: "nat list"
  asyncgens_shutdown_called :: bool
  default_executor :: "executor option"
  executor_shutdown_called :: bool
  task_factory :: "'cb option"
  executors_shut :: "(executor \<times> bool) list"
  resource_warnings :: "nat list"

definition check_closed_state :: "('cb, 'x) loop_state_scheme \<Rightarrow> pyexc + unit" where
  "check_closed_state st = (if loop_closed st then Inl (RuntimeError ''Event loop is closed'') else Inr ())"

definition check_running_state :: "('cb, 'x) loop_state_scheme \<Rightarrow> pyexc + unit" where
  "check_running_state st =
     (if running st then Inl (RuntimeError ''This event loop is already running'')
      else if other_running st
        then Inl (RuntimeError ''Cannot run the event loop while another loop is running'')
      else Inr ())"

definition check_thread_inner :: "('cb, 'x) loop_state_scheme \<Rightarrow> pyexc + unit" where
  "check_thread_inner st =
     (let tid = thread_id st
      in if tid < 0 then Inr ()
         else if caller_thread st \<noteq> tid
           then Inl (RuntimeError ''Non-thread-safe operation invoked on an event loop other than the current one'')
         else Inr ())"

definition check_callback :: "string \<Rightarrow> 'cb \<Rightarrow> ('cb, 'x) loop_state_scheme \<Rightarrow> pyexc + unit" where
  "check_callback meth cb st =
     (case cb_kind st cb of
        Coroutine \<Rightarrow> Inl (TypeError (''coroutines cannot be used with '' @ meth @ ''()''))
      | CoroutineFunction \<Rightarrow> Inl (TypeError (''coroutines cannot be used with '' @ meth @ ''()''))
      | NotCallable \<Rightarrow> Inl (TypeError (''a callable object was expected by '' @ meth @ ''()''))
      | PlainCallable \<Rightarrow> Inr ())"

text \<open>What a caller passes as a descriptor: an integer, an object whose \<open>fileno()\<close> returns an
  integer or raises, one whose \<open>fileno()\<close> returns something else, or an object without it.
  \<open>extract_fd\<close> takes integers that fit an \<open>i32\<close>; a larger integer has no \<open>fileno\<close>.\<close>

datatype fdarg = FdInt int | FdFile "pyexc + int" | FdFileBad | FdNone

fun extract_fd :: "fdarg \<Rightarrow> pyexc + int" where
  "extract_fd (FdInt n) = (if i32_range n then Inr n else Inl (AttributeError ''fileno''))"
| "extract_fd (FdFile (Inl e)) = Inl e"
| "extract_fd (FdFile (Inr n)) =
     (if i32_range n then Inr n else Inl (ValueError ''Invalid file object''))"
| "extract_fd FdFileBad = Inl (ValueError ''Invalid file object'')"
| "extract_fd FdNone = Inl (AttributeError ''fileno'')"

section \<open>Callbacks and timers\<close>

text \<open>A \<open>ReadyHandle\<close> is its cancel flag; \<open>cancel()\<close> returns whether it was not yet cancelled.\<close>

record timer_handle =
  th_flag :: flag_id
  th_when :: f64

definition handle_cancel :: "flag_id \<Rightarrow> (('cb, 'x) loop_state_scheme, bool) py" where
  "handle_cancel f = py_bind (swap_flag f) (\<lambda>was. py_ret (\<not> was))"

definition push_ready ::
  "'cb \<Rightarrow> pyarg list \<Rightarrow> nat option \<Rightarrow> flag_id \<Rightarrow> ('cb, 'x) loop_state_scheme \<Rightarrow> ('cb, 'x) loop_state_scheme" where
  "push_ready cb args ctx f st =
     st\<lparr>ready := ready st @ [\<lparr>re_callback = cb, re_args = args, re_context = ctx, re_cancelled = f\<rparr>]\<rparr>"

definition call_soon ::
  "'cb \<Rightarrow> pyarg list \<Rightarrow> nat option \<Rightarrow> (('cb, 'x) loop_state_scheme, flag_id) py" where
  "call_soon cb args ctx =
     py_seq (py_check check_closed_state)
       (py_seq (py_when debug
                  (py_seq (py_check check_thread_inner) (py_check (check_callback ''call_soon'' cb))))
         (py_bind new_flag
           (\<lambda>f. py_seq (py_mod (push_ready cb args ctx f)) (py_ret f))))"

definition call_soon_threadsafe ::
  "'cb \<Rightarrow> pyarg list \<Rightarrow> nat option \<Rightarrow> (('cb, 'x) loop_state_scheme, flag_id) py" where
  "call_soon_threadsafe cb args ctx =
     py_seq (py_check check_closed_state)
       (py_seq (py_when debug (py_check (check_callback ''call_soon_threadsafe'' cb)))
         (py_bind new_flag
           (\<lambda>f. py_seq (py_mod (push_ready cb args ctx f))
                  (py_seq (py_mod notify_one) (py_ret f)))))"

definition push_timer ::
  "f64 \<Rightarrow> 'cb \<Rightarrow> pyarg list \<Rightarrow> nat option \<Rightarrow> flag_id \<Rightarrow> ('cb, 'x) loop_state_scheme \<Rightarrow>
     ('cb, 'x) loop_state_scheme" where
  "push_timer t cb args ctx f st =
     st\<lparr>seq := seq st + 1,
        timers := heap_push \<lparr>te_when = t, te_seq = seq st,
          te_entry = \<lparr>re_callback = cb, re_args = args, re_context = ctx, re_cancelled = f\<rparr>\<rparr> (timers st)\<rparr>"

definition call_at_impl ::
  "f64 \<Rightarrow> 'cb \<Rightarrow> pyarg list \<Rightarrow> nat option \<Rightarrow> string \<Rightarrow> (('cb, 'x) loop_state_scheme, timer_handle) py" where
  "call_at_impl t cb args ctx meth =
     py_seq (py_check check_closed_state)
       (py_seq (py_when debug
                  (py_seq (py_check check_thread_inner) (py_check (check_callback meth cb))))
         (py_bind new_flag
           (\<lambda>f. py_seq (py_mod (push_timer t cb args ctx f))
                  (py_ret \<lparr>th_flag = f, th_when = t\<rparr>))))"

text \<open>The \<open>None\<close> of the argument is Python's \<open>None\<close>.\<close>

definition call_later ::
  "f64 option \<Rightarrow> 'cb \<Rightarrow> pyarg list \<Rightarrow> nat option \<Rightarrow> (('cb, 'x) loop_state_scheme, timer_handle) py" where
  "call_later delay cb args ctx =
     (case delay of
        None \<Rightarrow> py_raise (TypeError ''delay must not be None'')
      | Some d \<Rightarrow> py_with now (\<lambda>n. call_at_impl (f64_add n d) cb args ctx ''call_later''))"

definition call_at ::
  "f64 option \<Rightarrow> 'cb \<Rightarrow> pyarg list \<Rightarrow> nat option \<Rightarrow> (('cb, 'x) loop_state_scheme, timer_handle) py" where
  "call_at t cb args ctx =
     (case t of
        None \<Rightarrow> py_raise (TypeError ''when cannot be None'')
      | Some d \<Rightarrow> call_at_impl d cb args ctx ''call_at'')"

section \<open>Descriptors\<close>

definition add_reader :: "fdarg \<Rightarrow> 'cb \<Rightarrow> pyarg list \<Rightarrow> (('cb, 'x) loop_state_scheme, fd_handle) py" where
  "add_reader fd cb args =
     py_seq (py_check check_closed_state)
       (py_bind (py_check (\<lambda>_. extract_fd fd)) (\<lambda>n. add_watcher n True cb args))"

definition add_writer :: "fdarg \<Rightarrow> 'cb \<Rightarrow> pyarg list \<Rightarrow> (('cb, 'x) loop_state_scheme, fd_handle) py" where
  "add_writer fd cb args =
     py_seq (py_check check_closed_state)
       (py_bind (py_check (\<lambda>_. extract_fd fd)) (\<lambda>n. add_watcher n False cb args))"

definition remove_reader :: "fdarg \<Rightarrow> (('cb, 'x) loop_state_scheme, bool) py" where
  "remove_reader fd =
     py_if loop_closed (py_ret False)
       (py_bind (py_check (\<lambda>_. extract_fd fd)) (\<lambda>n. detach_watcher n True))"

definition remove_writer :: "fdarg \<Rightarrow> (('cb, 'x) loop_state_scheme, bool) py" where
  "remove_writer fd =
     py_if loop_closed (py_ret False)
       (py_bind (py_check (\<lambda>_. extract_fd fd)) (\<lambda>n. detach_watcher n False))"

definition add_udp_reader :: "fdarg \<Rightarrow> 'cb \<Rightarrow> 'cb \<Rightarrow> (('cb, 'x) loop_state_scheme, fd_handle) py" where
  "add_udp_reader fd cb err_cb =
     py_seq (py_check check_closed_state)
       (py_bind (py_check (\<lambda>_. extract_fd fd)) (\<lambda>n. add_drain_watcher n cb err_cb Udp))"

text \<open>\<open>max_size.clamp(4096, 64 * 1024)\<close>.\<close>

definition tcp_chunk :: "nat \<Rightarrow> nat" where
  "tcp_chunk max_size = max 4096 (min (64 * 1024) max_size)"

definition add_tcp_reader ::
  "fdarg \<Rightarrow> 'cb \<Rightarrow> 'cb \<Rightarrow> nat \<Rightarrow> (('cb, 'x) loop_state_scheme, fd_handle) py" where
  "add_tcp_reader fd cb err_cb max_size =
     py_seq (py_check check_closed_state)
       (py_bind (py_check (\<lambda>_. extract_fd fd))
         (\<lambda>n. add_drain_watcher n cb err_cb (Tcp (tcp_chunk max_size))))"

section \<open>Lifecycle\<close>

definition stop :: "(('cb, 'x) loop_state_scheme, unit) py" where
  "stop = py_mod (\<lambda>st. notify_one (st\<lparr>stop_requested := True\<rparr>))"

text \<open>\<open>TokioopLoop.close\<close>; \<open>executors_shut\<close> records each \<open>shutdown(wait=...)\<close>.\<close>

definition close :: "(('cb, 'x) tokioop_loop_scheme, unit) py" where
  "close =
     py_if running (py_raise (RuntimeError ''Cannot close a running event loop''))
       (py_if loop_closed (py_ret ())
         (py_seq (py_mod (\<lambda>st. st\<lparr>loop_closed := True\<rparr>))
           (py_seq (py_mod abort_all)
             (py_seq (py_mod (\<lambda>st. st\<lparr>ready := []\<rparr>))
               (py_seq (py_mod (\<lambda>st. st\<lparr>timers := []\<rparr>))
                 (py_seq (py_mod (\<lambda>st. st\<lparr>io := []\<rparr>))
                   (py_seq (py_mod (\<lambda>st. st\<lparr>executor_shutdown_called := True\<rparr>))
                     (py_with default_executor
                       (\<lambda>exc. case exc of
                          None \<Rightarrow> py_ret ()
                        | Some ex \<Rightarrow>
                            py_mod (\<lambda>st. st\<lparr>default_executor := None,
                              executors_shut := executors_shut st @ [(ex, False)]\<rparr>))))))))))"

text \<open>\<open>_asyncgen_firstiter_hook\<close> (with its \<open>ResourceWarning\<close>) and
  \<open>_asyncgen_finalizer_hook\<close>, which schedules \<open>create_task(agen.aclose())\<close>.\<close>

definition asyncgen_firstiter_hook :: "nat \<Rightarrow> (('cb, 'x) tokioop_loop_scheme, unit) py" where
  "asyncgen_firstiter_hook ag =
     py_seq (py_when asyncgens_shutdown_called
               (py_mod (\<lambda>st. st\<lparr>resource_warnings := resource_warnings st @ [ag]\<rparr>)))
       (py_mod (\<lambda>st. st\<lparr>asyncgens := List.insert ag (asyncgens st)\<rparr>))"

definition asyncgen_finalizer_hook ::
  "nat \<Rightarrow> 'cb \<Rightarrow> (('cb, 'x) tokioop_loop_scheme, unit) py" where
  "asyncgen_finalizer_hook ag create_aclose =
     py_seq (py_mod (\<lambda>st. st\<lparr>asyncgens := removeAll ag (asyncgens st)\<rparr>))
       (py_when (\<lambda>st. \<not> loop_closed st)
         (py_bind (call_soon_threadsafe create_aclose [] None) (\<lambda>_. py_ret ())))"

lemmas check_defs = check_closed_state_def check_running_state_def check_thread_inner_def
  check_callback_def

lemmas loop_op_defs = call_soon_def call_soon_threadsafe_def call_later_def call_at_def
  call_at_impl_def push_ready_def push_timer_def handle_cancel_def stop_def notify_one_def

end
