(* ===== verification/Scheduler.thy ===== *)
theory Scheduler
  imports Loop_Core "HOL-Library.Sublist"
begin

text \<open>
  One iteration of the loop (\<open>run_batch\<close>) and the parked loop around it (\<open>run_main\<close>), from
  \<^verbatim>\<open>src/src/event_loop.rs\<close>. Python code the loop calls is the parameter \<open>invoke\<close>: it gets the
  context, the callable and its arguments, may change the loop through the loop's methods,
  and returns or raises. The functions also return the entries they ran, in order.

  The locale \<open>callback_env\<close> states what the loop relies on of the code it calls; the programs
  of loop operations at the end of the theory satisfy it.
\<close>

type_synonym ('cb, 'x) invoker =
  "nat option \<Rightarrow> 'cb \<Rightarrow> pyarg list \<Rightarrow> (('cb, 'x) loop_state_scheme, unit) py"

section \<open>Callback invocation and error routing\<close>

definition dispatch_exception_handler ::
  "('cb, 'x) invoker \<Rightarrow> string \<Rightarrow> pyexc option \<Rightarrow> ('cb, 'x) loop_state_scheme \<Rightarrow>
     ('cb, 'x) loop_state_scheme" where
  "dispatch_exception_handler invoke msg exc st =
     (case exc_handler st of
        Some h \<Rightarrow> snd (invoke None h [ACtx msg exc] st)
      | None \<Rightarrow> st\<lparr>exc_reports := exc_reports st @ [(msg, exc)]\<rparr>)"

definition report_callback_error ::
  "('cb, 'x) invoker \<Rightarrow> pyexc \<Rightarrow> string \<Rightarrow> ('cb, 'x) loop_state_scheme \<Rightarrow> ('cb, 'x) loop_state_scheme" where
  "report_callback_error invoke e msg st = dispatch_exception_handler invoke msg (Some e) st"

text \<open>\<open>invoke_entry\<close> and the \<open>if let Err(err)\<close> around it.\<close>

definition call_guarded ::
  "('cb, 'x) invoker \<Rightarrow> nat option \<Rightarrow> 'cb \<Rightarrow> pyarg list \<Rightarrow> ('cb, 'x) loop_state_scheme \<Rightarrow>
     ('cb, 'x) loop_state_scheme" where
  "call_guarded invoke ctx cb args st =
     (case invoke ctx cb args st of
        (Inl e, st') \<Rightarrow> report_callback_error invoke e ''Exception in callback'' st'
      | (Inr _, st') \<Rightarrow> st')"

definition run_entry ::
  "('cb, 'x) invoker \<Rightarrow> 'cb ready_entry \<Rightarrow> ('cb, 'x) loop_state_scheme \<Rightarrow> ('cb, 'x) loop_state_scheme" where
  "run_entry invoke e = call_guarded invoke (re_context e) (re_callback e) (re_args e)"

section \<open>The three phases of a batch\<close>

text \<open>Phase 1: as many ready entries as the queue held at the start, skipping cancelled ones.\<close>

fun run_ready ::
  "('cb, 'x) invoker \<Rightarrow> nat \<Rightarrow> ('cb, 'x) loop_state_scheme \<Rightarrow>
     'cb ready_entry list \<times> ('cb, 'x) loop_state_scheme" where
  "run_ready invoke 0 st = ([], st)"
| "run_ready invoke (Suc n) st =
     (case ready st of
        [] \<Rightarrow> ([], st)
      | e # rest \<Rightarrow>
          let st1 = st\<lparr>ready := rest\<rparr>
          in if flags st1 (re_cancelled e) then run_ready invoke n st1
             else (case run_ready invoke n
                          (run_entry invoke e (st1\<lparr>n_callbacks := n_callbacks st1 + 1\<rparr>)) of
                     (lg, st2) \<Rightarrow> (e # lg, st2)))"

text \<open>Phase 2: timers whose deadline is not after the time \<open>t\<close> read before the loop. The
  callbacks may add timers, so the loop need not end: \<open>None\<close> is a batch that never returns.\<close>

partial_function (option) run_timers ::
  "('cb, 'x) invoker \<Rightarrow> f64 \<Rightarrow> 'cb timer_entry list \<Rightarrow> ('cb, 'x) loop_state_scheme \<Rightarrow>
     ('cb timer_entry list \<times> ('cb, 'x) loop_state_scheme) option" where
  "run_timers invoke t lg st =
     (case heap_pop (timers st) of
        None \<Rightarrow> Some (lg, st)
      | Some (e, rest) \<Rightarrow>
          if \<not> f64_le (te_when e) t then Some (lg, st)
          else if flags st (re_cancelled (te_entry e))
            then run_timers invoke t lg (st\<lparr>timers := rest\<rparr>)
          else run_timers invoke t (lg @ [e])
                 (run_entry invoke (te_entry e)
                   (st\<lparr>timers := rest, n_timers := n_timers st + 1\<rparr>)))"

text \<open>\<open>addr_to_py\<close>.\<close>

fun addr_to_py :: "addr_repr \<Rightarrow> pyaddr" where
  "addr_to_py (ReprInetV4 ip port) = InetV4 ip port"
| "addr_to_py (ReprInetV6 ip port flow scope) = InetV6 ip port flow scope"
| "addr_to_py (ReprUnix path) =
     (case path of [] \<Rightarrow> PathAddr path | b # _ \<Rightarrow> if b = 0 then AbstractAddr path else PathAddr path)"
| "addr_to_py ReprUnnamed = NoAddr"

definition deliver_drain_data ::
  "('cb, 'x) invoker \<Rightarrow> slot_id \<Rightarrow> io_data \<Rightarrow> ('cb, 'x) loop_state_scheme \<Rightarrow> ('cb, 'x) loop_state_scheme" where
  "deliver_drain_data invoke sid d st =
     (case sl_drain (slots st sid) of
        None \<Rightarrow> st
      | Some drain \<Rightarrow>
          (case d of
             UdpDatagram payload addr \<Rightarrow>
               call_guarded invoke None drain [ABytes payload, AAddr (addr_to_py addr)] st
           | TcpChunk payload \<Rightarrow> call_guarded invoke None drain [ABytes payload] st
           | TcpEof \<Rightarrow> call_guarded invoke None drain [ABytes []] st
           | ReadError e \<Rightarrow>
               (case sl_drain_err (slots st sid) of
                  Some h \<Rightarrow> call_guarded invoke None h [AExc e] st
                | None \<Rightarrow> st)))"

definition run_completion ::
  "('cb, 'x) invoker \<Rightarrow> io_completion \<Rightarrow> ('cb, 'x) loop_state_scheme \<Rightarrow> ('cb, 'x) loop_state_scheme" where
  "run_completion invoke c st =
     (case c of
        IoCallback sid \<Rightarrow>
          (let st1 = (case sl_cb (slots st sid) of
                        Some (cb, args) \<Rightarrow> call_guarded invoke None cb args st
                      | None \<Rightarrow> st)
           in st1\<lparr>hs_permit := (hs_permit st1)(sid := True)\<rparr>)
      | IoData sid d \<Rightarrow> deliver_drain_data invoke sid d st)"

text \<open>Phase 3: I/O completions until the queue is empty.\<close>

partial_function (option) run_io ::
  "('cb, 'x) invoker \<Rightarrow> io_completion list \<Rightarrow> ('cb, 'x) loop_state_scheme \<Rightarrow>
     (io_completion list \<times> ('cb, 'x) loop_state_scheme) option" where
  "run_io invoke lg st =
     (case io st of
        [] \<Rightarrow> Some (lg, st)
      | c # rest \<Rightarrow> run_io invoke (lg @ [c]) (run_completion invoke c (st\<lparr>io := rest\<rparr>)))"

text \<open>What one batch ran: ready entries, timers, completions.\<close>

record 'cb batch_log =
  bl_ready :: "'cb ready_entry list"
  bl_timers :: "'cb timer_entry list"
  bl_io :: "io_completion list"

definition run_batch ::
  "('cb, 'x) invoker \<Rightarrow> ('cb, 'x) loop_state_scheme \<Rightarrow>
     ('cb batch_log \<times> ('cb, 'x) loop_state_scheme) option" where
  "run_batch invoke st =
     (let st1 = st\<lparr>n_batches := n_batches st + 1\<rparr>;
          (rr, st2) = run_ready invoke (length (ready st1)) st1
      in case run_timers invoke (now st2) [] st2 of
           None \<Rightarrow> None
         | Some (rt, st3) \<Rightarrow>
             (case run_io invoke [] st3 of
                None \<Rightarrow> None
              | Some (ri, st4) \<Rightarrow>
                  Some (\<lparr>bl_ready = rr, bl_timers = rt, bl_io = ri\<rparr>, st4)))"

section \<open>The loop around the batches\<close>

text \<open>What \<open>run_main\<close> does after a batch: break, go round again (with or without a yield to
  the watcher tasks), park until a wakeup, park until a wakeup or a deadline, or panic.\<close>

datatype main_action = Break | Spin bool | ParkNotified | ParkTimeout rat | YieldDue | Panic

definition main_decide :: "('cb, 'x) loop_state_scheme \<Rightarrow> main_action \<times> ('cb, 'x) loop_state_scheme" where
  "main_decide st =
     (if stop_requested st then (Break, st)
      else if loop_closed st then (Break, st)
      else if ready st \<noteq> [] \<or> io st \<noteq> [] \<or> timers_due st then (Spin (n_watchers st \<noteq> 0), st)
      else
        let st1 = st\<lparr>n_parks := n_parks st + 1\<rparr>
        in (case next_deadline st1 of
              None \<Rightarrow> (Panic, st1)
            | Some None \<Rightarrow> (ParkNotified, st1)
            | Some (Some d) \<Rightarrow> if d = 0 then (YieldDue, st1) else (ParkTimeout d, st1)))"

text \<open>
  The running loop and its surroundings as a step relation. While the loop is parked other
  threads call \<open>call_soon_threadsafe\<close> and \<open>stop\<close>, watcher tasks push completions (and
  notify), time passes, and the loop wakes when the permit is there or the deadline is past.
\<close>

datatype main_pc = InBatch | Parked "rat option" | Finished

inductive main_step ::
  "('cb, 'x) invoker \<Rightarrow> main_pc \<times> ('cb, 'x) loop_state_scheme \<Rightarrow>
     main_pc \<times> ('cb, 'x) loop_state_scheme \<Rightarrow> bool" for invoke where
  spin: "run_batch invoke st = Some (l, st') \<Longrightarrow> main_decide st' = (a, st'') \<Longrightarrow>
    a = Spin b \<or> a = YieldDue \<Longrightarrow> main_step invoke (InBatch, st) (InBatch, st'')"
| finish: "run_batch invoke st = Some (l, st') \<Longrightarrow> main_decide st' = (Break, st'') \<Longrightarrow>
    main_step invoke (InBatch, st) (Finished, st'')"
| park: "run_batch invoke st = Some (l, st') \<Longrightarrow> main_decide st' = (ParkNotified, st'') \<Longrightarrow>
    main_step invoke (InBatch, st) (Parked None, st'')"
| park_timeout: "run_batch invoke st = Some (l, st') \<Longrightarrow> main_decide st' = (ParkTimeout d, st'') \<Longrightarrow>
    main_step invoke (InBatch, st) (Parked (Some d), st'')"
| wake: "permit st \<Longrightarrow> main_step invoke (Parked d, st) (InBatch, st\<lparr>permit := False\<rparr>)"
| timeout: "timers_due st \<Longrightarrow> main_step invoke (Parked (Some d), st) (InBatch, st)"
| threadsafe: "call_soon_threadsafe cb args ctx st = (r, st') \<Longrightarrow> main_step invoke (Parked d, st) (Parked d, st')"
| stop_call: "stop st = (r, st') \<Longrightarrow> main_step invoke (Parked d, st) (Parked d, st')"
| io_push: "main_step invoke (Parked d, st)
    (Parked d, notify_one (st\<lparr>io := io st @ [c], n_io_events := n_io_events st + 1\<rparr>))"
| clock: "main_step invoke (Parked d, st) (Parked d, st\<lparr>elapsed := t\<rparr>)"

inductive main_reach ::
  "('cb, 'x) invoker \<Rightarrow> ('cb, 'x) loop_state_scheme \<Rightarrow> main_pc \<times> ('cb, 'x) loop_state_scheme \<Rightarrow> bool"
  for invoke st0 where
  begin_run: "main_reach invoke st0 (InBatch, st0)"
| next_step: "main_reach invoke st0 c \<Longrightarrow> main_step invoke c c' \<Longrightarrow> main_reach invoke st0 c'"

inductive_cases main_step_parkedE: "main_step invoke (Parked d, st) c"
inductive_cases main_step_batchE: "main_step invoke (InBatch, st) c"

section \<open>What the loop relies on of the code it calls\<close>

lemma subseq_set: "subseq xs ys \<Longrightarrow> set xs \<subseteq> set ys"
  by (induction rule: list_emb.induct) auto

text \<open>A relation kept by every invocation, and by recording an error report, is kept by a
  guarded call, whatever it raises.\<close>

lemma call_guarded_rel:
  assumes inv: "\<And>c cb a st. R st (snd (invoke c cb a st))"
    and rep: "\<And>st r. R st (st\<lparr>exc_reports := r\<rparr>)" and tr: "\<And>a b c. R a b \<Longrightarrow> R b c \<Longrightarrow> R a c"
  shows "R st (call_guarded invoke c cb a st)"
proof -
  obtain r st1 where i: "invoke c cb a st = (r, st1)" by fastforce
  with inv [of st c cb a] have 1: "R st st1" by simp
  have 2: "R st1 (report_callback_error invoke e m st1)" for e m
    by (simp add: report_callback_error_def dispatch_exception_handler_def inv rep split: option.split)
  from 1 2 tr show ?thesis
    by (auto simp: call_guarded_def i split: sum.split)
qed

text \<open>
  \<open>grows st st'\<close>: what running Python code may do to the queues and flags. It appends ready
  entries, allocates flags for them, sets flags but never clears an allocated one, and
  leaves the completion queue to the watcher tasks.
\<close>

definition grows :: "('cb, 'x) loop_state_scheme \<Rightarrow> ('cb, 'x) loop_state_scheme \<Rightarrow> bool" where
  "grows st st' \<longleftrightarrow>
     (\<exists>new. ready st' = ready st @ new \<and>
        (\<forall>e\<in>set new. next_flag st \<le> re_cancelled e \<and> re_cancelled e < next_flag st')) \<and>
     next_flag st \<le> next_flag st' \<and> (\<forall>f<next_flag st. flags st f \<longrightarrow> flags st' f) \<and> io st' = io st"

lemma grows_refl [simp]: "grows st st"
  by (simp add: grows_def)

lemma grows_trans:
  assumes "grows a b" and "grows b c"
  shows "grows a c"
proof -
  from assms obtain new new' where n: "ready b = ready a @ new"
    "\<forall>e\<in>set new. next_flag a \<le> re_cancelled e \<and> re_cancelled e < next_flag b"
    "ready c = ready b @ new'" "\<forall>e\<in>set new'. next_flag b \<le> re_cancelled e \<and> re_cancelled e < next_flag c"
    by (auto simp: grows_def)
  from assms have le: "next_flag a \<le> next_flag b" "next_flag b \<le> next_flag c" by (simp_all add: grows_def)
  have "ready c = ready a @ (new @ new') \<and>
      (\<forall>e\<in>set (new @ new'). next_flag a \<le> re_cancelled e \<and> re_cancelled e < next_flag c)"
    using n le by auto
  then show ?thesis using assms by (auto simp: grows_def)
qed

locale callback_env =
  fixes invoke :: "('cb, 'x) invoker"
  assumes invoke_grows: "grows st (snd (invoke c cb a st))"
begin

lemma call_guarded_grows: "grows st (call_guarded invoke c cb a st)"
  by (rule call_guarded_rel) (auto simp: invoke_grows grows_def [of st "st\<lparr>exc_reports := r\<rparr>" for st r]
      intro: grows_trans)

lemma run_entry_grows: "grows st (run_entry invoke e st)"
  by (simp add: run_entry_def call_guarded_grows)

text \<open>Phase 1 runs a subsequence of the first \<open>n\<close> entries; an entry it leaves out was cancelled
  by then; what callbacks schedule stays behind the rest of the queue.\<close>

lemma run_ready_spec:
  assumes "run_ready invoke n st = (lg, st')" and "n \<le> length (ready st)"
    and "\<forall>e\<in>set (ready st). re_cancelled e < next_flag st"
  shows "subseq lg (take n (ready st)) \<and> grows (st\<lparr>ready := drop n (ready st)\<rparr>) st' \<and>
    (\<forall>e\<in>set (take n (ready st)). e \<notin> set lg \<longrightarrow> flags st' (re_cancelled e)) \<and>
    (\<forall>e\<in>set lg. \<not> flags st (re_cancelled e))"
  using assms
proof (induction n arbitrary: st lg st')
  case 0
  then show ?case by simp
next
  case (Suc n)
  from Suc.prems(2) obtain e rest where r: "ready st = e # rest" by (cases "ready st") auto
  let ?st1 = "st\<lparr>ready := rest\<rparr>"
  have len: "n \<le> length rest" using Suc.prems(2) r by simp
  show ?case
  proof (cases "flags st (re_cancelled e)")
    case True
    with Suc.prems r have "run_ready invoke n ?st1 = (lg, st')" by simp
    from Suc.IH [OF this] len r True Suc.prems(3) show ?thesis by (auto simp: grows_def)
  next
    case False
    let ?st2 = "run_entry invoke e (?st1\<lparr>n_callbacks := n_callbacks ?st1 + 1\<rparr>)"
    from False Suc.prems r obtain lg' where lg: "lg = e # lg'" and
      run: "run_ready invoke n ?st2 = (lg', st')"
      by (auto split: prod.splits)
    have g: "grows (?st1\<lparr>n_callbacks := n_callbacks ?st1 + 1\<rparr>) ?st2" by (rule run_entry_grows)
    then obtain new where new: "ready ?st2 = rest @ new"
      "\<forall>e\<in>set new. next_flag st \<le> re_cancelled e \<and> re_cancelled e < next_flag ?st2"
      and fl: "\<forall>f<next_flag st. flags st f \<longrightarrow> flags ?st2 f" "next_flag st \<le> next_flag ?st2"
      "io ?st2 = io st"
      by (auto simp: grows_def)
    have wf: "\<forall>e\<in>set (ready ?st2). re_cancelled e < next_flag ?st2"
      using new fl(2) Suc.prems(3) r by auto
    from Suc.IH [OF run _ wf] new len
    have IH: "subseq lg' (take n rest)" "grows (?st2\<lparr>ready := drop n rest @ new\<rparr>) st'"
      "\<forall>e\<in>set (take n rest). e \<notin> set lg' \<longrightarrow> flags st' (re_cancelled e)"
      "\<forall>e\<in>set lg'. \<not> flags ?st2 (re_cancelled e)"
      by auto
    have "grows (st\<lparr>ready := drop n rest\<rparr>) (?st2\<lparr>ready := drop n rest @ new\<rparr>)"
      using new fl by (simp add: grows_def)
    then have "grows (st\<lparr>ready := drop n rest\<rparr>) st'" using IH(2) by (rule grows_trans)
    moreover have "\<not> flags st (re_cancelled x)" if "x \<in> set lg'" for x
    proof -
      have "x \<in> set rest" using subseq_set [OF IH(1)] that by (auto dest: in_set_takeD)
      then have "re_cancelled x < next_flag st" using Suc.prems(3) r by simp
      with fl(1) IH(4) that show ?thesis by blast
    qed
    ultimately show ?thesis using IH(1,3) lg r False by simp
  qed
qed

text \<open>Phase 3 handles the completions queued at its start, in order, and ends.\<close>

lemma call_guarded_io_eq: "io (call_guarded invoke c cb a st) = io st"
  using call_guarded_grows by (simp add: grows_def)

lemma run_completion_io: "io (run_completion invoke c st) = io st"
  by (auto simp: run_completion_def deliver_drain_data_def call_guarded_io_eq Let_def
      split: io_completion.split io_data.split option.split prod.split)

lemma grows_queue_updates:
  "grows (st\<lparr>timers := ts\<rparr>) st' = grows st st'" "grows (st\<lparr>n_timers := k\<rparr>) st' = grows st st'"
  "grows (st\<lparr>n_batches := k\<rparr>) st' = grows st st'"
  by (simp_all add: grows_def)

lemma run_timers_grows:
  assumes "run_timers invoke t lg st = Some y"
  shows "grows st (snd y)"
proof -
  have "invoke = invoke \<longrightarrow> grows st (snd y)"
  proof (rule run_timers.raw_induct [where P = "\<lambda>i t lg st y. i = invoke \<longrightarrow> grows st (snd y)", OF _ assms],
      intro impI)
    fix f and i :: "('cb, 'x) invoker" and t lg st y
    assume IH: "\<And>i t lg st y. f i t lg st = Some y \<Longrightarrow> i = invoke \<longrightarrow> grows st (snd y)"
      and run: "(case heap_pop (timers st) of
        None \<Rightarrow> Some (lg, st)
      | Some (e, rest) \<Rightarrow>
          if \<not> f64_le (te_when e) t then Some (lg, st)
          else if flags st (re_cancelled (te_entry e)) then f i t lg (st\<lparr>timers := rest\<rparr>)
          else f i t (lg @ [e])
                 (run_entry i (te_entry e) (st\<lparr>timers := rest, n_timers := n_timers st + 1\<rparr>))) = Some y"
      and i: "i = invoke"
    show "grows st (snd y)"
    proof (cases "heap_pop (timers st)")
      case None
      with run show ?thesis by auto
    next
      case (Some p)
      obtain e rest where p: "p = (e, rest)" by (cases p)
      have g: "grows st (run_entry invoke (te_entry e) (st\<lparr>timers := rest, n_timers := n_timers st + 1\<rparr>))"
        using run_entry_grows [of "st\<lparr>timers := rest, n_timers := n_timers st + 1\<rparr>" "te_entry e"]
        by (simp add: grows_queue_updates)
      have s: "grows (st\<lparr>timers := rest\<rparr>) st' \<Longrightarrow> grows st st'" for st' by (simp add: grows_queue_updates)
      from run IH i show ?thesis
        by (cases y) (auto simp: Some p intro: s grows_trans [OF g] split: if_splits)
    qed
  qed
  then show ?thesis by simp
qed

lemma run_completion_grows: "grows st (run_completion invoke c st)"
proof -
  have "grows st (st'\<lparr>hs_permit := h\<rparr>)" if "grows st st'" for st' h using that by (simp add: grows_def)
  then show ?thesis
    by (auto simp: run_completion_def deliver_drain_data_def call_guarded_grows Let_def
        split: io_completion.split io_data.split option.split prod.split)
qed

lemma run_io_spec:
  "\<exists>st'. run_io invoke lg st = Some (lg @ io st, st') \<and> io st' = [] \<and> grows (st\<lparr>io := []\<rparr>) st'"
proof (induction "io st" arbitrary: lg st)
  case Nil
  then show ?case by (subst run_io.simps) (simp add: grows_def)
next
  case (Cons c rest)
  let ?st1 = "run_completion invoke c (st\<lparr>io := rest\<rparr>)"
  have "io ?st1 = rest" by (simp add: run_completion_io)
  with Cons.hyps(1) [of ?st1 "lg @ [c]"] obtain st' where
    r: "run_io invoke (lg @ [c]) ?st1 = Some ((lg @ [c]) @ rest, st')" "io st' = []"
    and g: "grows (?st1\<lparr>io := []\<rparr>) st'" by auto
  have "grows (st\<lparr>io := []\<rparr>) (?st1\<lparr>io := []\<rparr>)"
    using run_completion_grows [of "st\<lparr>io := rest\<rparr>" c] by (simp add: grows_def)
  from grows_trans [OF this g] r Cons.hyps(2) [symmetric] show ?case by (subst run_io.simps) simp
qed

text \<open>The whole batch, as far as it returns.\<close>

lemma run_batch_queues:
  assumes run: "run_batch invoke st = Some (l, st')"
    and wf: "\<forall>e\<in>set (ready st). re_cancelled e < next_flag st"
  shows "subseq (bl_ready l) (ready st) \<and> (\<forall>e\<in>set (bl_ready l). \<not> flags st (re_cancelled e)) \<and>
    (\<forall>e\<in>set (ready st). e \<notin> set (bl_ready l) \<longrightarrow> flags st' (re_cancelled e)) \<and>
    (\<forall>e\<in>set (ready st'). next_flag st \<le> re_cancelled e \<and> re_cancelled e < next_flag st') \<and>
    bl_io l = io st \<and> io st' = []"
proof -
  let ?st1 = "st\<lparr>n_batches := n_batches st + 1\<rparr>"
  obtain rr st2 where r: "run_ready invoke (length (ready st)) ?st1 = (rr, st2)" by fastforce
  with run obtain rt st3 where t: "run_timers invoke (now st2) [] st2 = Some (rt, st3)"
    by (auto simp: run_batch_def split: option.splits)
  obtain st4 where i: "run_io invoke [] st3 = Some (io st3, st4)" "io st4 = []" "grows (st3\<lparr>io := []\<rparr>) st4"
    using run_io_spec [of "[]" st3] by auto
  have l: "l = \<lparr>bl_ready = rr, bl_timers = rt, bl_io = io st3\<rparr>" "st' = st4"
    using run r t i by (auto simp: run_batch_def)
  have R: "subseq rr (ready st)" "grows (?st1\<lparr>ready := []\<rparr>) st2"
    "\<forall>e\<in>set (ready st). e \<notin> set rr \<longrightarrow> flags st2 (re_cancelled e)"
    "\<forall>e\<in>set rr. \<not> flags st (re_cancelled e)"
    using run_ready_spec [OF r] wf by auto
  have T: "grows st2 st3" using run_timers_grows [OF t] by simp
  from R(2) have g2: "next_flag st \<le> next_flag st2" "io st2 = io st"
    "\<forall>e\<in>set (ready st2). next_flag st \<le> re_cancelled e \<and> re_cancelled e < next_flag st2"
    by (auto simp: grows_def)
  from T i(3) have fl: "\<forall>f<next_flag st2. flags st2 f \<longrightarrow> flags st4 f" and io3: "io st3 = io st2"
    by (auto simp: grows_def)
  have "\<forall>e\<in>set (ready st4). next_flag st \<le> re_cancelled e \<and> re_cancelled e < next_flag st4"
    using g2 T i(3) by (fastforce simp: grows_def)
  moreover have "\<forall>e\<in>set (ready st). e \<notin> set rr \<longrightarrow> flags st4 (re_cancelled e)"
    using R(3) fl wf g2(1) by (meson less_le_trans)
  ultimately show ?thesis using R(1,4) g2(2) io3 i(2) l by simp
qed

end

text \<open>Callbacks that, while the loop expires the timers due at time \<open>t\<close>, add only timers with
  a later deadline: with them phase 2 ends.\<close>

definition adds_later :: "f64 \<Rightarrow> ('cb, 'x) loop_state_scheme \<Rightarrow> ('cb, 'x) loop_state_scheme \<Rightarrow> bool" where
  "adds_later t st st' \<longleftrightarrow>
     (\<exists>new. timers st' = timers st @ new \<and>
        (\<forall>e\<in>set new. ordinary e \<and> \<not> f64_le (te_when e) t \<and> re_cancelled (te_entry e) < next_flag st')) \<and>
     next_flag st \<le> next_flag st'"

text \<open>A heap whose deadlines compare and whose entries own allocated flags.\<close>

definition timers_wf :: "('cb, 'x) loop_state_scheme \<Rightarrow> bool" where
  "timers_wf st \<longleftrightarrow> (\<forall>e\<in>set (timers st). ordinary e \<and> re_cancelled (te_entry e) < next_flag st)"

definition due_timers :: "f64 \<Rightarrow> ('cb, 'x) loop_state_scheme \<Rightarrow> 'cb timer_entry list" where
  "due_timers t st = filter (\<lambda>e. f64_le (te_when e) t) (timers st)"

lemma adds_later_refl: "timers st' = timers st \<Longrightarrow> next_flag st' = next_flag st \<Longrightarrow> adds_later t st st'"
  by (simp add: adds_later_def)

lemma adds_later_trans:
  assumes "adds_later t a b" and "adds_later t b c"
  shows "adds_later t a c"
proof -
  let ?ok = "\<lambda>st e. ordinary e \<and> \<not> f64_le (te_when e) t \<and> re_cancelled (te_entry e) < next_flag st"
  from assms obtain new new' where n: "timers b = timers a @ new" "\<forall>e\<in>set new. ?ok b e"
    "timers c = timers b @ new'" "\<forall>e\<in>set new'. ?ok c e"
    by (auto simp: adds_later_def)
  from assms have le: "next_flag a \<le> next_flag b" "next_flag b \<le> next_flag c" by (simp_all add: adds_later_def)
  have "timers c = timers a @ (new @ new') \<and> (\<forall>e\<in>set (new @ new'). ?ok c e)" using n le by auto
  then show ?thesis using le by (auto simp: adds_later_def)
qed

lemma adds_later_due: "adds_later t st st' \<Longrightarrow> due_timers t st' = due_timers t st"
  by (auto simp: adds_later_def due_timers_def)

lemma adds_later_wf: "adds_later t st st' \<Longrightarrow> timers_wf st \<Longrightarrow> timers_wf st'"
  by (fastforce simp: adds_later_def timers_wf_def)

lemma heap_popD: "heap_pop h = Some (e, rest) \<Longrightarrow> e \<in> set h \<and> rest = remove1 e h \<and> heap_peek h = Some e"
  by (auto simp: heap_pop_def dest: heap_peek_in split: option.splits)

lemma heap_pop_None: "heap_pop h = None \<longleftrightarrow> h = []"
  by (cases "heap_peek h") (auto simp: heap_pop_def)

text \<open>What phase 2 achieves from \<open>st\<close> to \<open>st'\<close> when it runs the timers \<open>lg\<close>: they are due timers
  of the heap that were not cancelled at the start, in firing order; a due timer it did not
  run was cancelled by the end; none is left due.\<close>

definition timers_post ::
  "f64 \<Rightarrow> ('cb, 'x) loop_state_scheme \<Rightarrow> 'cb timer_entry list \<Rightarrow> ('cb, 'x) loop_state_scheme \<Rightarrow> bool" where
  "timers_post t st lg st' \<longleftrightarrow>
     sorted_wrt fires_no_later lg \<and> set lg \<subseteq> set (due_timers t st) \<and>
     (\<forall>e\<in>set lg. \<not> flags st (re_cancelled (te_entry e))) \<and> due_timers t st' = [] \<and>
     (\<forall>f<next_flag st. flags st f \<longrightarrow> flags st' f) \<and> next_flag st \<le> next_flag st' \<and>
     (\<forall>e\<in>set (due_timers t st). e \<in> set lg \<or> flags st' (re_cancelled (te_entry e)))"

lemma due_after_pop:
  assumes "heap_pop (timers st) = Some (e, rest)" and "f64_le (te_when e) t"
  shows "filter (\<lambda>e. f64_le (te_when e) t) rest = remove1 e (due_timers t st)"
    and "e \<in> set (due_timers t st)"
    and "length (remove1 e (due_timers t st)) < length (due_timers t st)"
proof -
  note e = heap_popD [OF assms(1)]
  show "filter (\<lambda>e. f64_le (te_when e) t) rest = remove1 e (due_timers t st)"
    using e assms(2) by (simp add: due_timers_def filter_remove1)
  show mem: "e \<in> set (due_timers t st)" using e assms(2) by (simp add: due_timers_def)
  then have "length (due_timers t st) \<noteq> 0" by auto
  with mem show "length (remove1 e (due_timers t st)) < length (due_timers t st)"
    by (simp add: length_remove1)
qed

lemma timers_post_skip:
  assumes pop: "heap_pop (timers st) = Some (e, rest)" "f64_le (te_when e) t"
    and flag: "flags st (re_cancelled (te_entry e))" and wf: "timers_wf st"
    and post: "timers_post t (st\<lparr>timers := rest\<rparr>) lg st'"
  shows "timers_post t st lg st'"
proof -
  have d: "due_timers t (st\<lparr>timers := rest\<rparr>) = remove1 e (due_timers t st)"
    using due_after_pop(1) [OF pop] by (simp add: due_timers_def)
  have sub: "set lg \<subseteq> set (due_timers t st)"
    using post d set_remove1_subset unfolding timers_post_def by (metis subset_trans)
  have "x \<in> set lg \<or> flags st' (re_cancelled (te_entry x))" if "x \<in> set (due_timers t st)" for x
    using that post flag wf heap_popD [OF pop(1)] unfolding timers_post_def timers_wf_def d
    by (cases "x = e") simp_all
  with post sub show ?thesis unfolding timers_post_def by simp
qed

lemma timers_post_run:
  assumes pop: "heap_pop (timers st) = Some (e, rest)" "f64_le (te_when e) t"
    and flag: "\<not> flags st (re_cancelled (te_entry e))" and wf: "timers_wf st"
    and st2: "due_timers t st2 = remove1 e (due_timers t st)"
      "\<And>f. f < next_flag st \<Longrightarrow> flags st f \<Longrightarrow> flags st2 f" "next_flag st \<le> next_flag st2"
    and post: "timers_post t st2 lg st'"
  shows "timers_post t st (e # lg) st'"
proof -
  have sub: "set lg \<subseteq> set (due_timers t st)"
    using post st2(1) set_remove1_subset unfolding timers_post_def by (metis subset_trans)
  have "fires_no_later e x" if "x \<in> set lg" for x
    using heap_peek_least [of "timers st" e] heap_popD [OF pop(1)] wf sub that
    by (auto simp: due_timers_def timers_wf_def)
  moreover have "x \<in> set (e # lg) \<or> flags st' (re_cancelled (te_entry x))"
    if "x \<in> set (due_timers t st)" for x
    using that post st2(1) unfolding timers_post_def by (cases "x = e") simp_all
  moreover have "\<not> flags st (re_cancelled (te_entry x))" if "x \<in> set lg" for x
  proof -
    from that sub wf have "re_cancelled (te_entry x) < next_flag st"
      by (auto simp: timers_wf_def due_timers_def)
    with that post st2(2) show ?thesis unfolding timers_post_def by blast
  qed
  ultimately show ?thesis
    using post flag sub st2(2,3) due_after_pop(2) [OF pop] unfolding timers_post_def by simp
qed

text \<open>The clock reads a number not before \<open>r\<close>.\<close>

definition clock_at_least :: "rat \<Rightarrow> ('cb, 'x) loop_state_scheme \<Rightarrow> bool" where
  "clock_at_least r st \<longleftrightarrow> (\<exists>n. now st = Fin n \<and> r \<le> n)"

lemma clock_at_least_updates [simp]:
  "clock_at_least r (st\<lparr>exc_reports := x\<rparr>) = clock_at_least r st"
  "clock_at_least r (st\<lparr>timers := ts\<rparr>) = clock_at_least r st"
  "clock_at_least r (st\<lparr>n_timers := k\<rparr>) = clock_at_least r st"
  "clock_at_least r (st\<lparr>n_batches := k\<rparr>) = clock_at_least r st"
  "clock_at_least r (st\<lparr>n_callbacks := k\<rparr>) = clock_at_least r st"
  "clock_at_least r (st\<lparr>ready := q\<rparr>) = clock_at_least r st"
  by (simp_all add: clock_at_least_def now_def)

locale timer_env = callback_env invoke for invoke :: "('cb, 'x) invoker" +
  assumes forward: "clock_at_least r st \<Longrightarrow>
    clock_at_least r (snd (invoke c cb a st)) \<and> adds_later (Fin r) st (snd (invoke c cb a st))"
begin

lemma call_guarded_forward:
  "clock_at_least r st \<Longrightarrow>
    clock_at_least r (call_guarded invoke c cb a st) \<and> adds_later (Fin r) st (call_guarded invoke c cb a st)"
  by (rule call_guarded_rel [where R = "\<lambda>s s'. clock_at_least r s \<longrightarrow>
        clock_at_least r s' \<and> adds_later (Fin r) s s'", rule_format])
     (auto simp: forward intro: adds_later_refl adds_later_trans)

lemma run_entry_timers:
  "clock_at_least r st \<Longrightarrow> clock_at_least r (run_entry invoke e st) \<and> adds_later (Fin r) st (run_entry invoke e st)"
  by (simp add: run_entry_def call_guarded_forward)

text \<open>Phase 2 returns, with the effect \<open>timers_post\<close>.\<close>

lemma run_timers_spec:
  assumes "timers_wf st" and "clock_at_least r st" and "t = Fin r"
  shows "\<exists>lg' st'. run_timers invoke t lg st = Some (lg @ lg', st') \<and> timers_post t st lg' st'"
  using assms(1,2)
proof (induction "length (due_timers t st)" arbitrary: st lg rule: less_induct)
  case less
  show ?case
  proof (cases "heap_pop (timers st)")
    case None
    then have "timers_post t st [] st" by (simp add: heap_pop_None due_timers_def timers_post_def)
    with None show ?thesis by (subst run_timers.simps) auto
  next
    case (Some p)
    obtain e rest where p: "p = (e, rest)" by (cases p)
    note pop = Some [unfolded p]
    have sub: "set rest \<subseteq> set (timers st)" using heap_popD [OF pop] set_remove1_subset by metis
    show ?thesis
    proof (cases "f64_le (te_when e) t")
      case False
      have "due_timers t st = []"
        using False heap_peek_least [of "timers st" e] heap_popD [OF pop] less.prems
        by (auto simp: due_timers_def filter_empty_conv timers_wf_def dest: due_downward)
      then have "timers_post t st [] st" by (simp add: timers_post_def)
      with False pop show ?thesis by (subst run_timers.simps) auto
    next
      case due: True
      show ?thesis
      proof (cases "flags st (re_cancelled (te_entry e))")
        case True
        let ?st1 = "st\<lparr>timers := rest\<rparr>"
        have "length (due_timers t ?st1) < length (due_timers t st)"
          using due_after_pop [OF pop due] by (simp add: due_timers_def)
        then obtain lg' st' where "run_timers invoke t lg ?st1 = Some (lg @ lg', st')"
          "timers_post t ?st1 lg' st'"
          using less.hyps [of ?st1 lg] less.prems sub
          by (auto simp: timers_wf_def clock_at_least_def now_def)
        with timers_post_skip [OF pop due True less.prems(1)] pop due True show ?thesis
          by (subst run_timers.simps) auto
      next
        case False
        let ?st1 = "st\<lparr>timers := rest, n_timers := n_timers st + 1\<rparr>"
        let ?st2 = "run_entry invoke (te_entry e) ?st1"
        have c1: "clock_at_least r ?st1" using less.prems(2) by (simp add: clock_at_least_def now_def)
        have later: "adds_later t ?st1 ?st2" and c2: "clock_at_least r ?st2"
          using run_entry_timers [OF c1] assms(3) by simp_all
        have d2: "due_timers t ?st2 = remove1 e (due_timers t st)"
          using adds_later_due [OF later] due_after_pop(1) [OF pop due] by (simp add: due_timers_def)
        have "timers_wf ?st2"
          by (rule adds_later_wf [OF later]) (use sub less.prems in \<open>auto simp: timers_wf_def\<close>)
        then obtain lg' st' where
          I: "run_timers invoke t (lg @ [e]) ?st2 = Some ((lg @ [e]) @ lg', st')" "timers_post t ?st2 lg' st'"
          using less.hyps [of ?st2 "lg @ [e]"] due_after_pop(3) [OF pop due] c2 unfolding d2 by blast
        have "timers_post t st (e # lg') st'"
          by (rule timers_post_run [OF pop due False less.prems(1) d2 _ _ I(2)]) (use run_entry_grows [of ?st1 "te_entry e"] in \<open>simp_all add: grows_def\<close>)
        with I(1) pop due False show ?thesis by (subst run_timers.simps) auto
      qed
    qed
  qed
qed

text \<open>With such callbacks the whole batch returns and fires every due timer.\<close>

lemma run_ready_forward:
  assumes "run_ready invoke n st = (lg, st')" and "clock_at_least r st"
  shows "clock_at_least r st' \<and> adds_later (Fin r) st st'"
  using assms
proof (induction n arbitrary: st lg)
  case 0
  then show ?case by (simp add: adds_later_refl)
next
  case (Suc n)
  show ?case
  proof (cases "ready st")
    case Nil
    with Suc.prems show ?thesis by (simp add: adds_later_refl)
  next
    case (Cons e rest)
    let ?st1 = "st\<lparr>ready := rest\<rparr>"
    let ?st2 = "st\<lparr>ready := rest, n_callbacks := n_callbacks st + 1\<rparr>"
    have eq: "adds_later t ?st1 x = adds_later t st x" "adds_later t ?st2 x = adds_later t st x" for t x
      by (simp_all add: adds_later_def)
    have 2: "clock_at_least r (run_entry invoke e ?st2)" "adds_later (Fin r) st (run_entry invoke e ?st2)"
      using run_entry_timers [of r ?st2 e] Suc.prems(2) by (simp_all add: eq)
    show ?thesis
    proof (cases "flags st (re_cancelled e)")
      case True
      with Suc.prems Cons Suc.IH [of ?st1 lg] show ?thesis by (simp add: eq)
    next
      case False
      with Suc.prems Cons obtain lg' where "run_ready invoke n (run_entry invoke e ?st2) = (lg', st')"
        by (auto split: prod.splits)
      from Suc.IH [OF this 2(1)] 2(2) show ?thesis by (blast intro: adds_later_trans)
    qed
  qed
qed

lemma run_batch_timers:
  assumes clock: "now st = Fin r" and wf: "timers_wf st"
    and rwf: "\<forall>e\<in>set (ready st). re_cancelled e < next_flag st"
  shows "\<exists>l st'. run_batch invoke st = Some (l, st') \<and> sorted_wrt fires_no_later (bl_timers l) \<and>
    (\<forall>e\<in>set (timers st). f64_le (te_when e) (now st) \<longrightarrow>
       e \<in> set (bl_timers l) \<or> flags st' (re_cancelled (te_entry e))) \<and>
    (\<forall>e\<in>set (timers st). flags st (re_cancelled (te_entry e)) \<longrightarrow> e \<notin> set (bl_timers l))"
proof -
  let ?st1 = "st\<lparr>n_batches := n_batches st + 1\<rparr>"
  obtain rr st2 where r: "run_ready invoke (length (ready st)) ?st1 = (rr, st2)" by fastforce
  have c1: "clock_at_least r ?st1" using clock by (simp add: clock_at_least_def now_def)
  have F: "clock_at_least r st2" "adds_later (Fin r) ?st1 st2" using run_ready_forward [OF r c1] by simp_all
  then obtain n where n: "now st2 = Fin n" "r \<le> n" by (auto simp: clock_at_least_def)
  have sub: "set (timers st) \<subseteq> set (timers st2)" using F(2) by (auto simp: adds_later_def)
  have wf2: "timers_wf st2" by (rule adds_later_wf [OF F(2)]) (use wf in \<open>simp add: timers_wf_def\<close>)
  have fl2: "\<forall>f<next_flag st. flags st f \<longrightarrow> flags st2 f" "next_flag st \<le> next_flag st2"
    using run_ready_spec [OF r] rwf by (auto simp: grows_def)
  obtain rt st3 where t: "run_timers invoke (now st2) [] st2 = Some (rt, st3)" "timers_post (now st2) st2 rt st3"
    using run_timers_spec [OF wf2 _ n(1), of "[]"] n by (auto simp: clock_at_least_def)
  obtain ri st4 where i: "run_io invoke [] st3 = Some (ri, st4)" "grows (st3\<lparr>io := []\<rparr>) st4"
    using run_io_spec [of "[]" st3] by auto
  have b: "run_batch invoke st = Some (\<lparr>bl_ready = rr, bl_timers = rt, bl_io = ri\<rparr>, st4)"
    using r t i by (simp add: run_batch_def)
  have own: "re_cancelled (te_entry e) < next_flag st" if "e \<in> set (timers st)" for e
    using that wf by (simp add: timers_wf_def)
  have "e \<in> set rt \<or> flags st4 (re_cancelled (te_entry e))"
    if "e \<in> set (timers st)" "f64_le (te_when e) (now st)" for e
  proof -
    have "f64_le (te_when e) (now st2)"
      using that(2) n clock by (cases "te_when e") (auto simp: f64_le_def split: if_splits)
    then have "e \<in> set (due_timers (now st2) st2)" using that(1) sub by (auto simp: due_timers_def)
    then have "e \<in> set rt \<or> flags st3 (re_cancelled (te_entry e))" "next_flag st2 \<le> next_flag st3"
      using t(2) by (auto simp: timers_post_def)
    with own [OF that(1)] fl2(2) i(2) show ?thesis by (auto simp: grows_def)
  qed
  moreover have "e \<notin> set rt" if "e \<in> set (timers st)" "flags st (re_cancelled (te_entry e))" for e
    using own [OF that(1)] that fl2(1) t(2) by (auto simp: timers_post_def)
  ultimately show ?thesis using b t(2) by (auto simp: timers_post_def)
qed

end

end
