(* ===== verification/Loop_Api.thy ===== *)
theory Loop_Api
  imports Scheduler
begin

text \<open>
  Python callbacks as programs over the loop's methods. Whatever a callback computes, it
  changes the loop only by calling the loop's methods and its handles, so a callback's effect
  on the loop is a list of such calls, chosen from the state it runs in, and an outcome. Such
  programs satisfy the interface \<open>callback_env\<close> of the scheduler; programs that only set
  timers with a positive delay satisfy \<open>timer_env\<close>. The properties of the batch follow for
  every program.
\<close>

section \<open>Programs of loop operations\<close>

datatype 'cb api_op =
    OpCallSoon 'cb "pyarg list" "nat option"
  | OpCallSoonThreadsafe 'cb "pyarg list" "nat option"
  | OpCallLater "f64 option" 'cb "pyarg list" "nat option"
  | OpCallAt "f64 option" 'cb "pyarg list" "nat option"
  | OpCancel flag_id
  | OpStop
  | OpAddReader fdarg 'cb "pyarg list"
  | OpAddWriter fdarg 'cb "pyarg list"
  | OpRemoveReader fdarg
  | OpRemoveWriter fdarg
  | OpAddUdpReader fdarg 'cb 'cb
  | OpAddTcpReader fdarg 'cb 'cb nat
  | OpFdCancel fd_handle
  | OpSetDebug bool
  | OpSetExceptionHandler "'cb option"
  | OpTimePasses nat

definition ignore :: "('w, 'a) py \<Rightarrow> 'w \<Rightarrow> 'w" where
  "ignore m w = snd (m w)"

fun exec_api :: "'cb api_op \<Rightarrow> ('cb, 'x) loop_state_scheme \<Rightarrow> ('cb, 'x) loop_state_scheme" where
  "exec_api (OpCallSoon cb args ctx) = ignore (call_soon cb args ctx)"
| "exec_api (OpCallSoonThreadsafe cb args ctx) = ignore (call_soon_threadsafe cb args ctx)"
| "exec_api (OpCallLater d cb args ctx) = ignore (call_later d cb args ctx)"
| "exec_api (OpCallAt d cb args ctx) = ignore (call_at d cb args ctx)"
| "exec_api (OpCancel f) = ignore (handle_cancel f)"
| "exec_api OpStop = ignore stop"
| "exec_api (OpAddReader fd cb args) = ignore (add_reader fd cb args)"
| "exec_api (OpAddWriter fd cb args) = ignore (add_writer fd cb args)"
| "exec_api (OpRemoveReader fd) = ignore (remove_reader fd)"
| "exec_api (OpRemoveWriter fd) = ignore (remove_writer fd)"
| "exec_api (OpAddUdpReader fd cb err) = ignore (add_udp_reader fd cb err)"
| "exec_api (OpAddTcpReader fd cb err n) = ignore (add_tcp_reader fd cb err n)"
| "exec_api (OpFdCancel h) = ignore (fd_handle_cancel h)"
| "exec_api (OpSetDebug b) = (\<lambda>st. st\<lparr>debug := b\<rparr>)"
| "exec_api (OpSetExceptionHandler h) = (\<lambda>st. st\<lparr>exc_handler := h\<rparr>)"
| "exec_api (OpTimePasses n) = (\<lambda>st. st\<lparr>elapsed := f64_add (elapsed st) (Fin (of_nat n))\<rparr>)"

type_synonym ('cb, 'x) program =
  "nat option \<Rightarrow> 'cb \<Rightarrow> pyarg list \<Rightarrow> ('cb, 'x) loop_state_scheme \<Rightarrow> 'cb api_op list \<times> (pyexc + unit)"

definition invoke_prog :: "('cb, 'x) program \<Rightarrow> ('cb, 'x) invoker" where
  "invoke_prog prog ctx cb args st =
     (case prog ctx cb args st of (ops, r) \<Rightarrow> (r, fold exec_api ops st))"

text \<open>The operations that never set a timer in the past: timers get a positive finite delay.\<close>

fun forward_op :: "'cb api_op \<Rightarrow> bool" where
  "forward_op (OpCallLater d cb args ctx) = (case d of Some (Fin r) \<Rightarrow> 0 < r | None \<Rightarrow> True | _ \<Rightarrow> False)"
| "forward_op (OpCallAt d cb args ctx) = (d = None)"
| "forward_op _ = True"

definition forward_only :: "('cb, 'x) program \<Rightarrow> ('cb, 'x) program" where
  "forward_only prog ctx cb args st = (case prog ctx cb args st of (ops, r) \<Rightarrow> (filter forward_op ops, r))"

definition forward_program :: "('cb, 'x) program \<Rightarrow> bool" where
  "forward_program prog \<longleftrightarrow> (\<forall>ctx cb args st. list_all forward_op (fst (prog ctx cb args st)))"

text \<open>A callback that re-schedules itself at a deadline in the past.\<close>

definition rearm_past :: "(nat, 'x) program" where
  "rearm_past ctx cb args st = ([OpCallAt (Some (Fin 0)) cb args ctx], Inr ())"

text \<open>A sample program and loop.\<close>

definition demo_program :: "(nat, 'x) program" where
  "demo_program ctx cb args st =
     (if cb = 1 then ([OpCallSoon 3 [] None, OpCancel 1], Inr ())
      else if cb = 2 then ([OpCallLater (Some (Fin 5)) 4 [] None], Inl (AppException 7))
      else ([OpCallSoon 2 [] None], Inr ()))"

definition demo_entry :: "nat \<Rightarrow> flag_id \<Rightarrow> nat ready_entry" where
  "demo_entry cb f = \<lparr>re_callback = cb, re_args = [], re_context = None, re_cancelled = f\<rparr>"

definition batch_loop :: "nat loop_state" where
  "batch_loop = (tokioop_new (Fin 1) (\<lambda>_ _. None) 1 False (\<lambda>_. PlainCallable))
     \<lparr>ready := [demo_entry 1 0, demo_entry 5 1, demo_entry 2 2], next_flag := 4,
      timers := [\<lparr>te_when = Fin 1, te_seq = 0, te_entry = demo_entry 6 3\<rparr>]\<rparr>"

definition idle_loop :: "nat loop_state" where
  "idle_loop = tokioop_new (Fin 1) (\<lambda>_ _. None) 1 False (\<lambda>_. PlainCallable)"

section \<open>The programs satisfy the scheduler's interface\<close>

text \<open>Operations that leave queues, timers and clock alone (the registry operations).\<close>

definition quiet :: "('cb, 'x) loop_state_scheme \<Rightarrow> ('cb, 'x) loop_state_scheme \<Rightarrow> bool" where
  "quiet st st' \<longleftrightarrow> ready st' = ready st \<and> timers st' = timers st \<and> io st' = io st \<and>
     t0_wall st' = t0_wall st \<and> elapsed st' = elapsed st \<and> next_flag st \<le> next_flag st' \<and>
     (\<forall>f<next_flag st. flags st f \<longrightarrow> flags st' f)"

lemma quiet_refl [simp]: "quiet st st"
  by (simp add: quiet_def)

lemma quiet_trans: "quiet a b \<Longrightarrow> quiet b c \<Longrightarrow> quiet a c"
  by (auto simp: quiet_def)

lemma quiet_grows: "quiet st st' \<Longrightarrow> grows st st'"
  by (simp add: quiet_def grows_def)

lemma quiet_forward:
  "quiet st st' \<Longrightarrow> clock_at_least r st \<Longrightarrow> clock_at_least r st' \<and> adds_later t st st'"
  by (simp add: quiet_def clock_at_least_def now_def adds_later_def)

lemma detach_slot_quiet: "quiet st (detach_slot sid st)"
  by (auto simp: quiet_def detach_slot_def Let_def split: option.split)

lemma detach_watcher_quiet: "quiet st (snd (detach_watcher fd d st))"
  using detach_slot_quiet [of st]
  by (auto simp: detach_watcher_def Let_def quiet_def split: option.split)

lemma install_watcher_quiet: "quiet st (snd (install_watcher fd d task mk st))"
proof -
  let ?st1 = "st\<lparr>flags := (flags st)(next_flag st := False), next_flag := Suc (next_flag st),
      slots := (slots st)(next_slot st := mk (next_flag st)), next_slot := Suc (next_slot st),
      aborted := (aborted st)(next_slot st := False), hs_permit := (hs_permit st)(next_slot st := False),
      tasks := (tasks st)(next_slot st := task)\<rparr>"
  have "quiet st ?st1" by (simp add: quiet_def)
  then have "quiet st (detach_slot old ?st1)" for old using detach_slot_quiet quiet_trans by blast
  then show ?thesis
    by (auto simp: install_watcher_def Let_def quiet_def split: option.split)
qed

lemma add_watcher_quiet: "quiet st (snd (add_watcher fd d cb args st))"
  and add_drain_watcher_quiet: "quiet st (snd (add_drain_watcher fd cb err k st))"
proof -
  have r: "quiet st (st\<lparr>reg_count := n\<rparr>)" for n by (simp add: quiet_def)
  show "quiet st (snd (add_watcher fd d cb args st))"
    using quiet_trans [OF r install_watcher_quiet] r
    by (auto simp: add_watcher_def py_raise_def py_seq_def py_bind_def os_register_def split: option.split)
  show "quiet st (snd (add_drain_watcher fd cb err k st))"
    using quiet_trans [OF r install_watcher_quiet] r
    by (auto simp: add_drain_watcher_def py_raise_def py_seq_def py_bind_def os_register_def split: option.split)
qed

lemmas py_run_defs = py_seq_def py_bind_def py_check_def py_when_def py_if_def py_ret_def py_raise_def
  py_with_def py_mod_def py_get_def

lemma fd_ops_quiet:
  "quiet st (snd (add_reader fd cb args st))" "quiet st (snd (add_writer fd cb args st))"
  "quiet st (snd (remove_reader fd st))" "quiet st (snd (remove_writer fd st))"
  "quiet st (snd (add_udp_reader fd cb err st))" "quiet st (snd (add_tcp_reader fd cb err n st))"
  "quiet st (snd (fd_handle_cancel h st))"
proof -
  show "quiet st (snd (add_reader fd cb args st))" "quiet st (snd (add_writer fd cb args st))"
    by (auto simp: add_reader_def add_writer_def py_run_defs add_watcher_quiet split: sum.split)
  show "quiet st (snd (remove_reader fd st))" "quiet st (snd (remove_writer fd st))"
    by (auto simp: remove_reader_def remove_writer_def py_run_defs detach_watcher_quiet split: sum.split)
  show "quiet st (snd (add_udp_reader fd cb err st))" "quiet st (snd (add_tcp_reader fd cb err n st))"
    by (auto simp: add_udp_reader_def add_tcp_reader_def py_run_defs add_drain_watcher_quiet split: sum.split)
  have "quiet st (st\<lparr>flags := (flags st)(f := True)\<rparr>)" for f by (simp add: quiet_def)
  from quiet_trans [OF this detach_watcher_quiet] this show "quiet st (snd (fd_handle_cancel h st))"
    by (auto simp: fd_handle_cancel_def swap_flag_def py_run_defs split: prod.split sum.split)
       (metis snd_conv)+
qed

lemma call_soon_grows: "grows st (snd (call_soon cb args ctx st))"
  "grows st (snd (call_soon_threadsafe cb args ctx st))"
  by (auto simp: call_soon_def call_soon_threadsafe_def py_run_defs push_ready_def notify_one_def
      grows_def split: sum.split)

lemma call_at_impl_grows: "grows st (snd (call_at_impl t cb args ctx meth st))"
  by (auto simp: call_at_impl_def py_run_defs push_timer_def grows_def split: sum.split)

lemma state_ops_grows:
  "grows st (st\<lparr>debug := b\<rparr>)" "grows st (st\<lparr>exc_handler := h\<rparr>)" "grows st (st\<lparr>elapsed := t\<rparr>)"
  "grows st (snd (handle_cancel f st))" "grows st (snd (stop st))"
  by (simp_all add: grows_def handle_cancel_def swap_flag_def stop_def notify_one_def py_run_defs)

lemma exec_api_grows: "grows st (exec_api op st)"
proof (cases op)
  case (OpCallLater d cb args ctx)
  then show ?thesis by (cases d) (simp_all add: ignore_def call_later_def py_run_defs call_at_impl_grows)
next
  case (OpCallAt d cb args ctx)
  then show ?thesis by (cases d) (simp_all add: ignore_def call_at_def py_run_defs call_at_impl_grows)
qed (simp_all add: ignore_def call_soon_grows quiet_grows fd_ops_quiet state_ops_grows)

lemma exec_api_fold_grows: "grows st (fold exec_api ops st)"
  by (induction ops arbitrary: st) (auto intro: grows_trans exec_api_grows)

lemma invoke_prog_grows: "grows st (snd (invoke_prog prog ctx cb args st))"
  by (simp add: invoke_prog_def exec_api_fold_grows split: prod.split)

interpretation prog: callback_env "invoke_prog p" for p
  by unfold_locales (rule invoke_prog_grows)

text \<open>Programs that set timers forward: the clock does not go back and every new timer has a
  later deadline than the time the loop expires timers at.\<close>

lemma call_at_impl_forward:
  assumes "clock_at_least r st" and "t = Fin w" and "r < w"
  shows "clock_at_least r (snd (call_at_impl t cb args ctx meth st)) \<and>
    adds_later (Fin r) st (snd (call_at_impl t cb args ctx meth st))"
  using assms
  by (auto simp: call_at_impl_def py_run_defs push_timer_def new_flag_def clock_at_least_def now_def
      adds_later_def heap_push_def ordinary_def f64_le_def split: sum.split)

lemma scheduling_forward:
  assumes "clock_at_least r st"
  shows "clock_at_least r (snd (call_soon cb args ctx st)) \<and> adds_later (Fin r) st (snd (call_soon cb args ctx st))"
    and "clock_at_least r (snd (call_soon_threadsafe cb args ctx st)) \<and>
      adds_later (Fin r) st (snd (call_soon_threadsafe cb args ctx st))"
    and "clock_at_least r (snd (handle_cancel f st)) \<and> adds_later (Fin r) st (snd (handle_cancel f st))"
    and "clock_at_least r (snd (stop st)) \<and> adds_later (Fin r) st (snd (stop st))"
  using assms
  by (auto simp: call_soon_def call_soon_threadsafe_def handle_cancel_def stop_def py_run_defs push_ready_def
      new_flag_def notify_one_def swap_flag_def clock_at_least_def now_def adds_later_def split: sum.split)

lemma state_forward:
  assumes "clock_at_least r st"
  shows "clock_at_least r (st\<lparr>debug := b\<rparr>) \<and> adds_later (Fin r) st (st\<lparr>debug := b\<rparr>)"
    and "clock_at_least r (st\<lparr>exc_handler := h\<rparr>) \<and> adds_later (Fin r) st (st\<lparr>exc_handler := h\<rparr>)"
    and "clock_at_least r (st\<lparr>elapsed := f64_add (elapsed st) (Fin (of_nat n))\<rparr>) \<and>
      adds_later (Fin r) st (st\<lparr>elapsed := f64_add (elapsed st) (Fin (of_nat n))\<rparr>)"
proof -
  from assms obtain a b where "t0_wall st = Fin a" "elapsed st = Fin b" "r \<le> a + b"
    by (cases "t0_wall st"; cases "elapsed st") (auto simp: clock_at_least_def now_def)
  then show "clock_at_least r (st\<lparr>elapsed := f64_add (elapsed st) (Fin (of_nat n))\<rparr>) \<and>
      adds_later (Fin r) st (st\<lparr>elapsed := f64_add (elapsed st) (Fin (of_nat n))\<rparr>)"
    by (simp add: clock_at_least_def now_def adds_later_def)
qed (use assms in \<open>simp_all add: clock_at_least_def now_def adds_later_def\<close>)

lemma exec_api_forward:
  assumes "clock_at_least r st" and "forward_op op"
  shows "clock_at_least r (exec_api op st) \<and> adds_later (Fin r) st (exec_api op st)"
proof (cases op)
  case (OpCallLater d cb args ctx)
  from assms(1) obtain n where n: "now st = Fin n" "r \<le> n" by (auto simp: clock_at_least_def)
  show ?thesis
  proof (cases d)
    case None
    then show ?thesis using OpCallLater assms
      by (simp add: ignore_def call_later_def py_run_defs adds_later_refl)
  next
    case (Some x)
    then obtain q where q: "x = Fin q" "0 < q" using OpCallLater assms(2) by (cases x) auto
    with n call_at_impl_forward [OF assms(1), of "Fin (n + q)" "n + q"] show ?thesis
      by (simp add: OpCallLater Some ignore_def call_later_def py_run_defs)
  qed
next
  case (OpCallAt d cb args ctx)
  with assms show ?thesis by (simp add: ignore_def call_at_def py_run_defs adds_later_refl)
qed (use assms in \<open>simp_all only: exec_api.simps ignore_def quiet_forward [OF fd_ops_quiet(1)]
       quiet_forward [OF fd_ops_quiet(2)] quiet_forward [OF fd_ops_quiet(3)] quiet_forward [OF fd_ops_quiet(4)]
       quiet_forward [OF fd_ops_quiet(5)] quiet_forward [OF fd_ops_quiet(6)] quiet_forward [OF fd_ops_quiet(7)]
       scheduling_forward state_forward simp_thms\<close>)

lemma exec_api_fold_forward:
  "clock_at_least r st \<Longrightarrow> list_all forward_op ops \<Longrightarrow>
     clock_at_least r (fold exec_api ops st) \<and> adds_later (Fin r) st (fold exec_api ops st)"
proof (induction ops arbitrary: st)
  case Nil
  then show ?case by (simp add: adds_later_refl)
next
  case (Cons op ops)
  with exec_api_forward [of r st op] show ?case by (auto intro: adds_later_trans)
qed

lemma forward_only_id: "forward_program p \<Longrightarrow> forward_only p = p"
proof (intro ext)
  fix ctx cb args st
  assume "forward_program p"
  then have "filter forward_op (fst (p ctx cb args st)) = fst (p ctx cb args st)"
    by (auto simp: forward_program_def list_all_iff filter_id_conv)
  then show "forward_only p ctx cb args st = p ctx cb args st"
    by (cases "p ctx cb args st") (simp add: forward_only_def)
qed

interpretation fwd: timer_env "invoke_prog (forward_only p)" for p
proof unfold_locales
  fix r c cb a and st :: "('a, 'b) loop_state_scheme"
  assume "clock_at_least r st"
  then show "clock_at_least r (snd (invoke_prog (forward_only p) c cb a st)) \<and>
    adds_later (Fin r) st (snd (invoke_prog (forward_only p) c cb a st))"
    using exec_api_fold_forward [of r st "filter forward_op (fst (p c cb a st))"]
    by (cases "p c cb a st") (simp add: invoke_prog_def forward_only_def list_all_iff)
qed

section \<open>What a batch does, for every program\<close>

text \<open>
  C2. A batch that returns ran, of the entries that were ready when it began, a subsequence in
  the order they were scheduled; it left out only entries that were cancelled by then and never
  ran one that was cancelled at the start; every entry left in the queue was scheduled during
  the batch and waits for the next one; and all I/O completions queued at the start were
  handled in order.
\<close>

theorem batch_runs_snapshot_in_order:
  assumes "run_batch (invoke_prog p) st = Some (l, st')"
    and "\<forall>e\<in>set (ready st). re_cancelled e < next_flag st"
  shows "subseq (bl_ready l) (ready st) \<and> (\<forall>e\<in>set (bl_ready l). \<not> flags st (re_cancelled e)) \<and>
    (\<forall>e\<in>set (ready st). e \<notin> set (bl_ready l) \<longrightarrow> flags st' (re_cancelled e)) \<and>
    (\<forall>e\<in>set (ready st'). next_flag st \<le> re_cancelled e \<and> re_cancelled e < next_flag st') \<and>
    bl_io l = io st \<and> io st' = []"
  using assms by (rule prog.run_batch_queues)

lemma batch_loop_run:
  "\<exists>st'. run_batch (invoke_prog demo_program) batch_loop =
     Some (\<lparr>bl_ready = [demo_entry 1 0, demo_entry 2 2],
       bl_timers = [\<lparr>te_when = Fin 1, te_seq = 0, te_entry = demo_entry 6 3\<rparr>], bl_io = []\<rparr>, st') \<and>
     map re_callback (ready st') = [3, 2]"
  by (simp add: run_batch_def batch_loop_def tokioop_new_def demo_entry_def run_entry_def call_guarded_def
      invoke_prog_def demo_program_def ignore_def loop_op_defs check_defs py_run_defs run_timers.simps
      run_io.simps report_callback_error_def dispatch_exception_handler_def swap_flag_def now_def
      heap_pop_def heap_push_def timer_cmp_def Let_def)

theorem batch_runs_snapshot_in_order_witness:
  "\<exists>l st'. run_batch (invoke_prog demo_program) batch_loop = Some (l, st') \<and>
     bl_ready l = [demo_entry 1 0, demo_entry 2 2] \<and> subseq (bl_ready l) (ready batch_loop) \<and>
     flags st' (re_cancelled (demo_entry 5 1)) \<and> map re_callback (ready st') = [3, 2]"
proof -
  obtain l st' where run: "run_batch (invoke_prog demo_program) batch_loop = Some (l, st')"
    and l: "bl_ready l = [demo_entry 1 0, demo_entry 2 2]" "map re_callback (ready st') = [3, 2]"
    using batch_loop_run by fastforce
  have wf: "\<forall>e\<in>set (ready batch_loop). re_cancelled e < next_flag batch_loop"
    by (simp add: batch_loop_def demo_entry_def)
  have mem: "demo_entry 5 1 \<in> set (ready batch_loop)" "demo_entry 5 1 \<notin> set (bl_ready l)"
    using l by (simp_all add: batch_loop_def demo_entry_def)
  from batch_runs_snapshot_in_order [OF run wf] mem have
    "subseq (bl_ready l) (ready batch_loop) \<and> flags st' (re_cancelled (demo_entry 5 1))" by blast
  with run l show ?thesis by (intro exI [of _ l] exI [of _ st']) simp
qed



text \<open>A state in which a timer is due whatever cancelled timers come before it.\<close>

definition live_due_timer :: "f64 \<Rightarrow> ('cb, 'x) loop_state_scheme \<Rightarrow> bool" where
  "live_due_timer t st \<longleftrightarrow> timers_wf st \<and> \<not> loop_closed st \<and> \<not> debug st \<and>
     (\<exists>e\<in>set (timers st). f64_le (te_when e) t \<and> \<not> flags st (re_cancelled (te_entry e)))"

lemma rearm_past_live:
  assumes "timers_wf st" and "\<not> loop_closed st" and "\<not> debug st" and "0 \<le> r"
  shows "live_due_timer (Fin r) (run_entry (invoke_prog rearm_past) e st)"
  using assms
  by (auto simp: run_entry_def call_guarded_def invoke_prog_def rearm_past_def ignore_def loop_op_defs
      check_defs py_run_defs live_due_timer_def timers_wf_def heap_push_def ordinary_def less_Suc_eq)

lemma live_due_timer_pop:
  assumes live: "live_due_timer t st" and pop: "heap_pop (timers st) = Some (e, rest)"
  shows "f64_le (te_when e) t" and "timers_wf (st\<lparr>timers := rest\<rparr>)"
    and "flags st (re_cancelled (te_entry e)) \<Longrightarrow> live_due_timer t (st\<lparr>timers := rest\<rparr>)"
proof -
  note P = heap_popD [OF pop]
  from live obtain x where x: "x \<in> set (timers st)" "f64_le (te_when x) t" "\<not> flags st (re_cancelled (te_entry x))"
    and wf: "timers_wf st" by (auto simp: live_due_timer_def)
  then have "fires_no_later e x" using heap_peek_least [of "timers st" e x] P by (auto simp: timers_wf_def)
  then show "f64_le (te_when e) t" using x(2) by (auto dest: due_downward)
  show w: "timers_wf (st\<lparr>timers := rest\<rparr>)"
    using wf P by (auto simp: timers_wf_def dest: notin_set_remove1 [rotated])
  show "live_due_timer t (st\<lparr>timers := rest\<rparr>)" if "flags st (re_cancelled (te_entry e))"
  proof -
    from x that have "x \<noteq> e" by auto
    with x P have "x \<in> set rest" by simp
    with live w x show ?thesis by (auto simp: live_due_timer_def)
  qed
qed

lemma run_timers_rearm_past:
  assumes "run_timers (invoke_prog rearm_past) (Fin r) lg st = Some y" and "0 \<le> r"
  shows "\<not> live_due_timer (Fin r) st"
proof -
  let ?i = "invoke_prog rearm_past :: (nat, 'a) invoker"
  have "?i = ?i \<and> Fin r = Fin r \<longrightarrow> \<not> live_due_timer (Fin r) st"
  proof (rule run_timers.raw_induct [where P = "\<lambda>i t lg st y. i = ?i \<and> t = Fin r \<longrightarrow> \<not> live_due_timer t st",
        OF _ assms(1)], intro impI)
    fix f and i :: "(nat, 'a) invoker" and t lg st y
    assume IH: "\<And>i t lg st y. f i t lg st = Some y \<Longrightarrow> i = ?i \<and> t = Fin r \<longrightarrow> \<not> live_due_timer t st"
      and run: "(case heap_pop (timers st) of
        None \<Rightarrow> Some (lg, st)
      | Some (e, rest) \<Rightarrow>
          if \<not> f64_le (te_when e) t then Some (lg, st)
          else if flags st (re_cancelled (te_entry e)) then f i t lg (st\<lparr>timers := rest\<rparr>)
          else f i t (lg @ [e])
                 (run_entry i (te_entry e) (st\<lparr>timers := rest, n_timers := n_timers st + 1\<rparr>))) = Some y"
      and it: "i = ?i \<and> t = Fin r"
    show "\<not> live_due_timer t st"
    proof
      assume live: "live_due_timer t st"
      then obtain e rest where pop: "heap_pop (timers st) = Some (e, rest)"
        by (cases "heap_pop (timers st)") (auto simp: heap_pop_None live_due_timer_def)
      let ?st1 = "st\<lparr>timers := rest, n_timers := n_timers st + 1\<rparr>"
      have "live_due_timer t (run_entry ?i (te_entry e) ?st1)"
        using live_due_timer_pop(2) [OF live pop] live it assms(2) rearm_past_live [of ?st1 r "te_entry e"]
        by (simp add: live_due_timer_def timers_wf_def)
      with live_due_timer_pop [OF live pop] IH run it pop show False by (auto split: if_splits)
    qed
  qed
  then show ?thesis by simp
qed

text \<open>
  C36. When a callback re-schedules itself with \<open>call_at\<close> at a deadline that is already past,
  the loop that expires timers never ends: from every state with a live timer due, the timer
  phase does not return.
\<close>

theorem rearmed_past_timer_never_returns:
  assumes "live_due_timer (Fin r) st" and "0 \<le> r"
  shows "run_timers (invoke_prog rearm_past) (Fin r) lg st = None"
  using run_timers_rearm_past [of r lg st] assms by (cases "run_timers (invoke_prog rearm_past) (Fin r) lg st") auto

theorem rearmed_past_timer_never_returns_witness:
  "run_timers (invoke_prog rearm_past) (Fin 1) [] batch_loop = None"
proof -
  have "live_due_timer (Fin 1) batch_loop"
    by (simp add: live_due_timer_def timers_wf_def batch_loop_def demo_entry_def ordinary_def tokioop_new_def)
  then show ?thesis using rearmed_past_timer_never_returns [of 1 batch_loop "[]"] by simp
qed

section \<open>No wakeup is lost\<close>

lemma main_decide_park:
  "main_decide st = (ParkNotified, st') \<Longrightarrow>
     ready st' = [] \<and> io st' = [] \<and> \<not> stop_requested st' \<and> timers st' = []"
  "main_decide st = (ParkTimeout d, st') \<Longrightarrow> ready st' = [] \<and> io st' = [] \<and> \<not> stop_requested st'"
  by (auto simp: main_decide_def next_deadline_def Let_def split: if_splits option.splits)

definition wakeup_inv :: "main_pc \<times> ('cb, 'x) loop_state_scheme \<Rightarrow> bool" where
  "wakeup_inv c = (case c of
     (Parked d, st) \<Rightarrow> (ready st \<noteq> [] \<or> io st \<noteq> [] \<or> stop_requested st \<longrightarrow> permit st) \<and>
       (d = None \<longrightarrow> timers st = [])
   | _ \<Rightarrow> True)"

lemma wakeup_inv_step: "main_step invoke c c' \<Longrightarrow> wakeup_inv c \<Longrightarrow> wakeup_inv c'"
proof (induction rule: main_step.induct)
  case (threadsafe cb args ctx st r st' d)
  then show ?case
    by (auto simp: wakeup_inv_def call_soon_threadsafe_def py_run_defs push_ready_def notify_one_def
        split: sum.splits if_splits)
next
  case (stop_call st r st' d)
  then show ?case by (auto simp: wakeup_inv_def stop_def notify_one_def py_mod_def)
qed (auto simp: wakeup_inv_def notify_one_def dest: main_decide_park)


lemma idle_batch: "ready st = [] \<Longrightarrow> timers st = [] \<Longrightarrow> io st = [] \<Longrightarrow>
  run_batch invoke st = Some (\<lparr>bl_ready = [], bl_timers = [], bl_io = []\<rparr>, st\<lparr>n_batches := n_batches st + 1\<rparr>)"
  by (simp add: run_batch_def run_timers.simps run_io.simps heap_pop_def)


end
