(* ===== verification/Rust_Loop.thy ===== *)
theory Rust_Loop
  imports Loop_Api "HOL-Library.AList"
begin

text \<open>
  \<open>RustEventLoop\<close> of \<^verbatim>\<open>src/python/tokioop/loop.py\<close>, the part that is not about sockets:
  guarded descriptor registration, task factory, executors, asynchronous generators, signals;
  and the policy and module functions of \<^verbatim>\<open>policy.py\<close> and \<^verbatim>\<open>__init__.py\<close>.

  Code outside the repository is a parameter: \<open>tr_closing\<close> is \<open>is_closing()\<close> of a
  transport object, \<open>fresh\<close> the identity of a thread pool the interpreter creates,
  \<open>results\<close> what closing a generator gives, \<open>os_signal\<close> the answer of
  \<open>signal.signal\<close>.
\<close>

section \<open>State\<close>

record 'cb rust_loop = "'cb tokioop_loop" +
  signal_handlers :: "(int \<times> ('cb \<times> pyarg list)) list"
  unix_server_sockets :: "(nat \<times> nat) list"
  signal_disposition :: "int \<Rightarrow> ('cb \<times> pyarg list) option"
  os_signal :: "int \<Rightarrow> pyexc option"

text \<open>\<open>__init__\<close> of both classes, on a fresh core.\<close>

definition new_rust_loop :: "'cb loop_state \<Rightarrow> (int \<Rightarrow> pyexc option) \<Rightarrow> 'cb rust_loop" where
  "new_rust_loop core sig =
     tokioop_loop.extend
       (loop_state.extend core (tokioop_loop.fields [] [] False None False None [] []))
       (rust_loop.fields [] [] (\<lambda>_. None) sig)"

section \<open>Descriptors that belong to a transport\<close>

text \<open>\<open>int(fileno.fileno())\<close> with its \<open>except (AttributeError, TypeError, ValueError)\<close>.\<close>

fun is_fileno_error :: "pyexc \<Rightarrow> bool" where
  "is_fileno_error (AttributeError _) = True"
| "is_fileno_error (TypeError _) = True"
| "is_fileno_error (ValueError _) = True"
| "is_fileno_error _ = False"

fun fileno_of :: "fdarg \<Rightarrow> pyexc + int" where
  "fileno_of (FdInt n) = Inr n"
| "fileno_of (FdFile (Inr n)) = Inr n"
| "fileno_of (FdFile (Inl e)) = Inl (if is_fileno_error e then ValueError ''Invalid file object'' else e)"
| "fileno_of FdFileBad = Inl (ValueError ''Invalid file object'')"
| "fileno_of FdNone = Inl (ValueError ''Invalid file object'')"

definition ensure_fd_no_transport ::
  "(nat \<Rightarrow> bool) \<Rightarrow> fdarg \<Rightarrow> (('cb, 'x) tokioop_loop_scheme, unit) py" where
  "ensure_fd_no_transport tr_closing fd =
     py_bind (py_check (\<lambda>_. fileno_of fd)) (\<lambda>n.
       py_with (\<lambda>w. map_of (transports w) n) (\<lambda>t. case t of
          None \<Rightarrow> py_ret ()
        | Some tr \<Rightarrow> if tr_closing tr then py_ret ()
                    else py_raise (RuntimeError ''File descriptor is used by transport'')))"

definition py_add_reader ::
  "(nat \<Rightarrow> bool) \<Rightarrow> fdarg \<Rightarrow> 'cb \<Rightarrow> pyarg list \<Rightarrow> (('cb, 'x) tokioop_loop_scheme, unit) py" where
  "py_add_reader tr_closing fd cb args =
     py_seq (ensure_fd_no_transport tr_closing fd) (py_seq (add_reader fd cb args) (py_ret ()))"

definition py_remove_reader :: "(nat \<Rightarrow> bool) \<Rightarrow> fdarg \<Rightarrow> (('cb, 'x) tokioop_loop_scheme, bool) py" where
  "py_remove_reader tr_closing fd = py_seq (ensure_fd_no_transport tr_closing fd) (remove_reader fd)"

definition py_add_writer ::
  "(nat \<Rightarrow> bool) \<Rightarrow> fdarg \<Rightarrow> 'cb \<Rightarrow> pyarg list \<Rightarrow> (('cb, 'x) tokioop_loop_scheme, unit) py" where
  "py_add_writer tr_closing fd cb args =
     py_seq (ensure_fd_no_transport tr_closing fd) (py_seq (add_writer fd cb args) (py_ret ()))"

definition py_remove_writer :: "(nat \<Rightarrow> bool) \<Rightarrow> fdarg \<Rightarrow> (('cb, 'x) tokioop_loop_scheme, bool) py" where
  "py_remove_writer tr_closing fd = py_seq (ensure_fd_no_transport tr_closing fd) (remove_writer fd)"

section \<open>Task factory and callbacks\<close>

definition set_task_factory :: "'cb option \<Rightarrow> (('cb, 'x) tokioop_loop_scheme, unit) py" where
  "set_task_factory factory =
     py_if (\<lambda>w. case factory of None \<Rightarrow> False | Some f \<Rightarrow> cb_kind w f = NotCallable)
       (py_raise (TypeError ''task factory must be a callable or None''))
       (py_mod (\<lambda>w. w\<lparr>task_factory := factory\<rparr>))"

definition get_task_factory :: "('cb, 'x) tokioop_loop_scheme \<Rightarrow> 'cb option" where
  "get_task_factory w = task_factory w"

definition py_check_callback :: "'cb \<Rightarrow> string \<Rightarrow> ('cb, 'x) loop_state_scheme \<Rightarrow> pyexc + unit" where
  "py_check_callback cb meth w =
     (if cb_kind w cb = Coroutine \<or> cb_kind w cb = CoroutineFunction
      then Inl (TypeError (''coroutines cannot be used with '' @ meth @ ''()''))
      else if cb_kind w cb = NotCallable
      then Inl (TypeError (''a callable object was expected by '' @ meth @ ''()''))
      else Inr ())"

section \<open>Executors\<close>

definition check_default_executor :: "('cb, 'x) tokioop_loop_scheme \<Rightarrow> pyexc + unit" where
  "check_default_executor w =
     (if executor_shutdown_called w then Inl (RuntimeError ''Executor shutdown has been called'') else Inr ())"

text \<open>\<open>run_in_executor\<close>: the executor the function is submitted to.\<close>

definition run_in_executor ::
  "nat \<Rightarrow> executor option \<Rightarrow> 'cb \<Rightarrow> (('cb, 'x) tokioop_loop_scheme, executor) py" where
  "run_in_executor fresh ex func =
     py_seq (py_check check_closed_state)
       (py_seq (py_when debug (py_check (py_check_callback func ''run_in_executor'')))
         (case ex of
            Some e \<Rightarrow> py_ret e
          | None \<Rightarrow>
              py_with default_executor (\<lambda>d.
                py_seq (py_check check_default_executor)
                  (case d of
                     Some e \<Rightarrow> py_ret e
                   | None \<Rightarrow> py_seq (py_mod (\<lambda>w. w\<lparr>default_executor := Some (ThreadPool fresh)\<rparr>))
                               (py_ret (ThreadPool fresh))))))"

definition set_default_executor :: "executor \<Rightarrow> (('cb, 'x) tokioop_loop_scheme, unit) py" where
  "set_default_executor ex =
     (case ex of
        ThreadPool _ \<Rightarrow> py_mod (\<lambda>w. w\<lparr>default_executor := Some ex\<rparr>)
      | OtherExecutor _ \<Rightarrow> py_raise (TypeError ''executor must be ThreadPoolExecutor instance''))"

text \<open>\<open>_do_shutdown\<close> in its thread: joins the pool (\<open>joined\<close> is what \<open>shutdown(wait=True)\<close>
  raised, if anything), then wakes the waiting future, or gives it the exception.\<close>

definition do_shutdown ::
  "executor \<Rightarrow> pyexc option \<Rightarrow> bool \<Rightarrow> 'cb \<Rightarrow> 'cb \<Rightarrow> (('cb, 'x) tokioop_loop_scheme, unit) py" where
  "do_shutdown ex joined fut_cancelled set_result set_exception =
     py_try
       (case joined of
          Some e \<Rightarrow> py_raise e
        | None \<Rightarrow>
            py_seq (py_mod (\<lambda>w. w\<lparr>executors_shut := executors_shut w @ [(ex, True)]\<rparr>))
              (py_when (\<lambda>w. \<not> loop_closed w)
                (py_seq (call_soon_threadsafe set_result [ANone] None) (py_ret ()))))
       (\<lambda>e. if is_Exception e
            then py_when (\<lambda>w. \<not> loop_closed w \<and> \<not> fut_cancelled)
                   (py_seq (call_soon_threadsafe set_exception [AExc e] None) (py_ret ()))
            else py_raise e)"

text \<open>\<open>shutdown_default_executor\<close>: \<open>timed_out\<close> says whether the pool's threads were still
  running after the timeout. It returns whether the warning was given; awaiting the future raises
  what joining the pool raised.\<close>

definition shutdown_default_executor ::
  "bool \<Rightarrow> pyexc option \<Rightarrow> 'cb \<Rightarrow> 'cb \<Rightarrow> (('cb, 'x) tokioop_loop_scheme, bool) py" where
  "shutdown_default_executor timed_out joined set_result set_exception =
     py_seq (py_mod (\<lambda>w. w\<lparr>executor_shutdown_called := True\<rparr>))
       (py_with default_executor (\<lambda>d. case d of
          None \<Rightarrow> py_ret False
        | Some ex \<Rightarrow>
            if timed_out
            then py_seq (py_mod (\<lambda>w. w\<lparr>executors_shut := executors_shut w @ [(ex, False)]\<rparr>)) (py_ret True)
            else py_seq (do_shutdown ex joined False set_result set_exception)
                   (case joined of None \<Rightarrow> py_ret False | Some e \<Rightarrow> py_raise e)))"

section \<open>Name resolution\<close>

text \<open>The text \<open>_getaddrinfo_debug\<close> logs (\<open>repr\<close> prints a number), and the executor that
  \<open>getaddrinfo\<close> and \<open>getnameinfo\<close> hand the lookup to.\<close>

definition getaddrinfo_debug ::
  "(int \<Rightarrow> string) \<Rightarrow> string \<Rightarrow> string \<Rightarrow> int \<Rightarrow> int \<Rightarrow> int \<Rightarrow> int \<Rightarrow> string" where
  "getaddrinfo_debug repr host port fam typ prot flgs =
     concat ([host @ '':'' @ port] @
       (if fam \<noteq> 0 then [''family='' @ repr fam] else []) @
       (if typ \<noteq> 0 then [''type='' @ repr typ] else []) @
       (if prot \<noteq> 0 then [''proto='' @ repr prot] else []) @
       (if flgs \<noteq> 0 then [''flags='' @ repr flgs] else []))"

definition getaddrinfo :: "nat \<Rightarrow> 'cb \<Rightarrow> 'cb \<Rightarrow> (('cb, 'x) tokioop_loop_scheme, executor \<times> 'cb) py" where
  "getaddrinfo fresh debug_func plain_func =
     py_with (\<lambda>w. if debug w then debug_func else plain_func) (\<lambda>func.
       py_bind (run_in_executor fresh None func) (\<lambda>ex. py_ret (ex, func)))"

definition getnameinfo :: "nat \<Rightarrow> 'cb \<Rightarrow> (('cb, 'x) tokioop_loop_scheme, executor) py" where
  "getnameinfo fresh func = run_in_executor fresh None func"

section \<open>Asynchronous generators\<close>

definition close_reports ::
  "('cb, ('cb, 'x) tokioop_loop_ext) invoker \<Rightarrow> (nat \<Rightarrow> pyexc option) \<Rightarrow> nat list \<Rightarrow>
     ('cb, 'x) tokioop_loop_scheme \<Rightarrow> ('cb, 'x) tokioop_loop_scheme" where
  "close_reports invoke results =
     fold (\<lambda>ag w. case results ag of
        Some e \<Rightarrow> if is_Exception e
                  then dispatch_exception_handler invoke
                         ''an error occurred during closing of asynchronous generator'' (Some e) w
                  else w
      | None \<Rightarrow> w)"

definition shutdown_asyncgens ::
  "('cb, ('cb, 'x) tokioop_loop_ext) invoker \<Rightarrow> (nat \<Rightarrow> pyexc option) \<Rightarrow>
     (('cb, 'x) tokioop_loop_scheme, unit) py" where
  "shutdown_asyncgens invoke results =
     py_seq (py_mod (\<lambda>w. w\<lparr>asyncgens_shutdown_called := True\<rparr>))
       (py_with asyncgens (\<lambda>ags.
          if ags = [] then py_ret ()
          else py_seq (py_mod (\<lambda>w. w\<lparr>asyncgens := []\<rparr>)) (py_mod (close_reports invoke results ags))))"

section \<open>Signals\<close>

datatype sigarg = SigInt int | SigOther

text \<open>\<open>signal.NSIG\<close>, \<open>SIGKILL\<close> and \<open>SIGSTOP\<close> on Linux.\<close>

definition check_signal :: "sigarg \<Rightarrow> pyexc + int" where
  "check_signal s =
     (case s of
        SigOther \<Rightarrow> Inl (TypeError ''sig must be an int'')
      | SigInt n \<Rightarrow>
          if \<not> (1 \<le> n \<and> n < 65) then Inl (ValueError ''invalid signal number'')
          else if n = 9 \<or> n = 19 then Inl (RuntimeError ''signals SIGKILL and SIGSTOP cannot be caught'')
          else Inr n)"

definition add_signal_handler :: "sigarg \<Rightarrow> 'cb \<Rightarrow> pyarg list \<Rightarrow> (('cb, 'x) rust_loop_scheme, unit) py" where
  "add_signal_handler s cb args =
     py_seq (py_check check_closed_state)
       (py_bind (py_check (\<lambda>_. check_signal s)) (\<lambda>n.
         py_seq (py_check (py_check_callback cb ''add_signal_handler''))
           (py_with (\<lambda>w. os_signal w n) (\<lambda>r. case r of
              Some e \<Rightarrow> py_raise (if is_oserror e then RuntimeError ''signal'' else e)
            | None \<Rightarrow>
                py_mod (\<lambda>w. w\<lparr>signal_disposition := (signal_disposition w)(n := Some (cb, args)),
                             signal_handlers := AList.update n (cb, args) (signal_handlers w)\<rparr>)))))"

definition remove_signal_handler :: "sigarg \<Rightarrow> (('cb, 'x) rust_loop_scheme, bool) py" where
  "remove_signal_handler s =
     py_bind (py_check (\<lambda>_. check_signal s)) (\<lambda>n.
       py_if (\<lambda>w. map_of (signal_handlers w) n = None) (py_ret False)
         (py_seq (py_mod (\<lambda>w. w\<lparr>signal_handlers := AList.delete n (signal_handlers w)\<rparr>))
           (py_with (\<lambda>w. os_signal w n) (\<lambda>r. case r of
              Some e \<Rightarrow> if is_oserror e then py_ret True else py_raise e
            | None \<Rightarrow> py_seq (py_mod (\<lambda>w. w\<lparr>signal_disposition := (signal_disposition w)(n := None)\<rparr>))
                        (py_ret True)))))"

text \<open>The interpreter runs the installed \<open>_handler\<close>.\<close>

definition deliver_signal :: "int \<Rightarrow> (('cb, 'x) rust_loop_scheme, unit) py" where
  "deliver_signal n =
     py_with (\<lambda>w. signal_disposition w n) (\<lambda>h. case h of
        None \<Rightarrow> py_ret ()
      | Some (cb, args) \<Rightarrow> py_seq (call_soon_threadsafe cb args None) (py_ret ()))"

section \<open>Subprocesses and pipes\<close>

definition subprocess_exec :: "('w, unit) py" where
  "subprocess_exec = py_raise (NotImplementedError ''subprocesses are not supported by tokioop'')"

definition subprocess_shell :: "('w, unit) py" where
  "subprocess_shell = py_raise (NotImplementedError ''subprocesses are not supported by tokioop'')"

definition connect_read_pipe :: "('w, unit) py" where
  "connect_read_pipe = py_raise (NotImplementedError ''pipes are not supported by tokioop'')"

definition connect_write_pipe :: "('w, unit) py" where
  "connect_write_pipe = py_raise (NotImplementedError ''pipes are not supported by tokioop'')"

section \<open>Policy and module\<close>

text \<open>\<open>RustEventLoopPolicy\<close>: the thread-local loop of each thread, and the loops the factory
  has created.\<close>

record policy =
  local_loop :: "int \<Rightarrow> nat option"
  loops_made :: nat

definition new_policy :: policy where
  "new_policy = \<lparr>local_loop = (\<lambda>_. None), loops_made = 0\<rparr>"

definition get_event_loop :: "int \<Rightarrow> (policy, nat) py" where
  "get_event_loop thread =
     py_with (\<lambda>p. local_loop p thread) (\<lambda>l. case l of
        None \<Rightarrow> py_raise (RuntimeError ''There is no current event loop in thread'')
      | Some x \<Rightarrow> py_ret x)"

definition set_event_loop :: "int \<Rightarrow> nat option \<Rightarrow> (policy, unit) py" where
  "set_event_loop thread l = py_mod (\<lambda>p. p\<lparr>local_loop := (local_loop p)(thread := l)\<rparr>)"

definition new_event_loop :: "(policy, nat) py" where
  "new_event_loop =
     py_with loops_made (\<lambda>n. py_seq (py_mod (\<lambda>p. p\<lparr>loops_made := Suc n\<rparr>)) (py_ret n))"

text \<open>\<open>install\<close>: the policy that becomes asyncio's.\<close>

definition install :: "policy option \<Rightarrow> (policy option, policy) py" where
  "install p =
     (let q = (case p of None \<Rightarrow> new_policy | Some q \<Rightarrow> q)
      in py_seq (py_mod (\<lambda>_. Some q)) (py_ret q))"

section \<open>Properties\<close>

definition sample_rust :: "nat rust_loop" where
  "sample_rust = new_rust_loop idle_loop (\<lambda>_. None)"

lemma sample_rust_eqs:
  "loop_closed sample_rust = False" "debug sample_rust = False" "default_executor sample_rust = None"
  "executor_shutdown_called sample_rust = False" "executors_shut sample_rust = []" "os_signal sample_rust = (\<lambda>_. None)"
  "cb_kind sample_rust = (\<lambda>_. PlainCallable)"
  by (simp_all add: sample_rust_def new_rust_loop_def idle_loop_def tokioop_new_def loop_state.defs tokioop_loop.defs
      rust_loop.defs)

text \<open>
  C29. A descriptor that a live transport uses is protected: the public registration methods
  raise \<open>RuntimeError\<close> and leave the loop exactly as it was, whichever form the descriptor is
  given in.
\<close>

theorem transport_descriptors_protected:
  assumes "fileno_of fd = Inr n" and "map_of (transports w) n = Some tr" and "\<not> tr_closing tr"
  shows "py_add_reader tr_closing fd cb args w = (Inl (RuntimeError ''File descriptor is used by transport''), w) \<and>
    py_remove_reader tr_closing fd w = (Inl (RuntimeError ''File descriptor is used by transport''), w) \<and>
    py_add_writer tr_closing fd cb args w = (Inl (RuntimeError ''File descriptor is used by transport''), w) \<and>
    py_remove_writer tr_closing fd w = (Inl (RuntimeError ''File descriptor is used by transport''), w)"
  using assms
  by (simp add: py_add_reader_def py_remove_reader_def py_add_writer_def py_remove_writer_def
      ensure_fd_no_transport_def py_run_defs)

theorem transport_descriptors_protected_witness:
  "py_remove_reader (\<lambda>_. False) (FdFile (Inr 7)) (sample_rust\<lparr>transports := [(7, 1)]\<rparr>) =
     (Inl (RuntimeError ''File descriptor is used by transport''), sample_rust\<lparr>transports := [(7, 1)]\<rparr>)"
  using transport_descriptors_protected [of "FdFile (Inr 7)" 7 "sample_rust\<lparr>transports := [(7, 1)]\<rparr>" 1 "\<lambda>_. False"]
  by simp





end
