(* ===== verification/Transport_Base.thy ===== *)
theory Transport_Base
  imports Loop_Core
begin

text \<open>
  The base class of the transports, \<open>_SelectorTransport\<close> of
  \<^verbatim>\<open>src/python/tokioop/transports.py\<close>, with the flow control it inherits from asyncio's
  \<open>_FlowControlMixin\<close>.

  The record holds the attributes of one transport object and the loop it runs on. A protocol
  is the parameter \<open>P\<close>: called with an event it may call back into the transport, and it
  returns (a number: the truth value of \<open>eof_received\<close>, the buffer length of
  \<open>get_buffer\<close>) or raises. \<open>log\<close> lists the protocol calls made so far. Dropping
  \<open>_loop\<close>, \<open>_sock\<close> or \<open>_protocol\<close> turns later uses into the
  \<open>AttributeError\<close> of \<open>None\<close>.
\<close>

section \<open>Data\<close>

text \<open>The callables the transports give to the loop.\<close>

datatype tcb =
    CbConnectionMade
  | CbRegisterReader
  | CbCallConnectionLost
  | CbSetWaiter nat
  | CbReadReady
  | CbWriteSendmsg
  | CbWriteSend
  | CbNone
  | CbDrainStream
  | CbDrainDatagram
  | CbDrainError
  | CbSendtoReady
  | CbUser nat

datatype proto_kind = PlainProtocol | BufferedProtocol

datatype proto_event =
    ConnectionMade
  | DataReceived bytes
  | EofReceived
  | ConnectionLost "pyexc option"
  | PauseWriting
  | ResumeWriting
  | GetBuffer
  | BufferUpdated nat
  | DatagramReceived bytes pyaddr
  | ErrorReceived pyexc
  | ExceptionHandler string pyexc

text \<open>The delivery closures of the replay queue.\<close>

datatype replay_item = ReplayStream bytes | ReplayDatagram bytes pyaddr | ReplayError pyexc

datatype drain_mode = DrainTcp | DrainUdp

record 'e selector_transport =
  loop :: "tcb loop_state"
  has_loop :: bool
  has_sock :: bool
  sock_closed :: bool
  sock_fd :: int
  peername :: "pyaddr option"
  protocol :: "proto_kind option"
  protocol_connected :: bool
  server :: "nat option"
  server_active :: int
  buffer :: "'e list"
  conn_lost :: nat
  closing :: bool
  paused :: bool
  replay :: "replay_item list"
  drain_mode :: "drain_mode option"
  protocol_paused :: bool
  high_water :: nat
  low_water :: nat
  connlost_warnings :: nat
  log :: "proto_event list"

type_synonym 'w proto = "proto_event \<Rightarrow> ('w, nat) py"

section \<open>Access to the loop, the socket and the protocol\<close>

definition none_error :: pyexc where
  "none_error = AttributeError ''NoneType''"

text \<open>\<open>self._loop.m(...)\<close>.\<close>

definition on_loop :: "(tcb loop_state, 'a) py \<Rightarrow> (('e, 'x) selector_transport_scheme, 'a) py" where
  "on_loop m w =
     (if has_loop w then (case m (loop w) of (r, l) \<Rightarrow> (r, w\<lparr>loop := l\<rparr>)) else (Inl none_error, w))"

definition need_loop :: "(('e, 'x) selector_transport_scheme, unit) py" where
  "need_loop = py_if has_loop (py_ret ()) (py_raise none_error)"

definition need_sock :: "(('e, 'x) selector_transport_scheme, unit) py" where
  "need_sock = py_if has_sock (py_ret ()) (py_raise none_error)"

text \<open>\<open>self._protocol.m(...)\<close>. asyncio's \<open>BufferedProtocol\<close> has no \<open>data_received\<close>, and
  only it has \<open>get_buffer\<close> and \<open>buffer_updated\<close>.\<close>

fun has_method :: "proto_kind \<Rightarrow> proto_event \<Rightarrow> bool" where
  "has_method BufferedProtocol (DataReceived _) = False"
| "has_method PlainProtocol GetBuffer = False"
| "has_method PlainProtocol (BufferUpdated _) = False"
| "has_method _ _ = True"

definition call_protocol ::
  "(('e, 'x) selector_transport_scheme) proto \<Rightarrow> proto_event \<Rightarrow> (('e, 'x) selector_transport_scheme, nat) py" where
  "call_protocol P ev =
     py_with protocol (\<lambda>p. case p of
        None \<Rightarrow> py_raise none_error
      | Some k \<Rightarrow>
          if has_method k ev then py_seq (py_mod (\<lambda>w. w\<lparr>log := log w @ [ev]\<rparr>)) (P ev)
          else py_raise (AttributeError ''protocol''))"

text \<open>\<open>self._loop.call_exception_handler({...})\<close>: an exception of the handler is printed by the
  loop and goes no further.\<close>

definition call_exception_handler ::
  "(('e, 'x) selector_transport_scheme) proto \<Rightarrow> string \<Rightarrow> pyexc \<Rightarrow>
     (('e, 'x) selector_transport_scheme, unit) py" where
  "call_exception_handler P msg exc =
     py_seq need_loop
       (py_try_else (P (ExceptionHandler msg exc)) (\<lambda>_. py_ret ()) (\<lambda>_. py_ret ()))"

text \<open>\<open>except (SystemExit, KeyboardInterrupt): raise\<close> before \<open>except BaseException as exc: h\<close>.\<close>

definition on_error :: "(pyexc \<Rightarrow> ('w, 'a) py) \<Rightarrow> pyexc \<Rightarrow> ('w, 'a) py" where
  "on_error h e = (if is_exit e then py_raise e else h e)"

section \<open>Flow control\<close>

text \<open>\<open>_maybe_pause_protocol\<close> and \<open>_maybe_resume_protocol\<close>; \<open>sz\<close> is the class's
  \<open>get_write_buffer_size\<close>.\<close>

definition maybe_pause_protocol ::
  "(('e, 'x) selector_transport_scheme \<Rightarrow> nat) \<Rightarrow> (('e, 'x) selector_transport_scheme) proto \<Rightarrow>
     (('e, 'x) selector_transport_scheme, unit) py" where
  "maybe_pause_protocol sz P =
     py_if (\<lambda>w. sz w \<le> high_water w) (py_ret ())
       (py_when (\<lambda>w. \<not> protocol_paused w)
         (py_seq (py_mod (\<lambda>w. w\<lparr>protocol_paused := True\<rparr>))
           (py_try_else (call_protocol P PauseWriting)
             (on_error (\<lambda>e. call_exception_handler P ''protocol.pause_writing() failed'' e))
             (\<lambda>_. py_ret ()))))"

definition maybe_resume_protocol ::
  "(('e, 'x) selector_transport_scheme \<Rightarrow> nat) \<Rightarrow> (('e, 'x) selector_transport_scheme) proto \<Rightarrow>
     (('e, 'x) selector_transport_scheme, unit) py" where
  "maybe_resume_protocol sz P =
     py_when (\<lambda>w. protocol_paused w \<and> sz w \<le> low_water w)
       (py_seq (py_mod (\<lambda>w. w\<lparr>protocol_paused := False\<rparr>))
         (py_try_else (call_protocol P ResumeWriting)
           (on_error (\<lambda>e. call_exception_handler P ''protocol.resume_writing() failed'' e))
           (\<lambda>_. py_ret ())))"

definition set_write_buffer_limits ::
  "(('e, 'x) selector_transport_scheme \<Rightarrow> nat) \<Rightarrow> (('e, 'x) selector_transport_scheme) proto \<Rightarrow>
     nat option \<Rightarrow> nat option \<Rightarrow> (('e, 'x) selector_transport_scheme, unit) py" where
  "set_write_buffer_limits sz P high low =
     (let h = (case high of Some h \<Rightarrow> h | None \<Rightarrow> (case low of None \<Rightarrow> 64 * 1024 | Some l \<Rightarrow> 4 * l));
          l = (case low of Some l \<Rightarrow> l | None \<Rightarrow> h div 4)
      in if h < l then py_raise (ValueError ''high must be >= low must be >= 0'')
         else py_seq (py_mod (\<lambda>w. w\<lparr>high_water := h, low_water := l\<rparr>)) (maybe_pause_protocol sz P))"

section \<open>The methods of the base class\<close>

definition set_protocol :: "proto_kind \<Rightarrow> (('e, 'x) selector_transport_scheme, unit) py" where
  "set_protocol k = py_mod (\<lambda>w. w\<lparr>protocol := Some k, protocol_connected := True\<rparr>)"

definition is_closing :: "('e, 'x) selector_transport_scheme \<Rightarrow> bool" where
  "is_closing w = closing w"

definition is_reading :: "('e, 'x) selector_transport_scheme \<Rightarrow> bool" where
  "is_reading w \<longleftrightarrow> \<not> is_closing w \<and> \<not> paused w"

definition remove_reader_of :: "(('e, 'x) selector_transport_scheme, unit) py" where
  "remove_reader_of = py_with sock_fd (\<lambda>fd. py_seq (on_loop (remove_reader (FdInt fd))) (py_ret ()))"

definition remove_writer_of :: "(('e, 'x) selector_transport_scheme, unit) py" where
  "remove_writer_of = py_with sock_fd (\<lambda>fd. py_seq (on_loop (remove_writer (FdInt fd))) (py_ret ()))"

definition add_writer_of :: "tcb \<Rightarrow> (('e, 'x) selector_transport_scheme, unit) py" where
  "add_writer_of cb = py_with sock_fd (\<lambda>fd. py_seq (on_loop (add_writer (FdInt fd) cb [])) (py_ret ()))"

definition call_soon_of :: "tcb \<Rightarrow> pyarg list \<Rightarrow> (('e, 'x) selector_transport_scheme, unit) py" where
  "call_soon_of cb args = py_seq (on_loop (call_soon cb args None)) (py_ret ())"

text \<open>\<open>pause_reading\<close>; \<open>need_loop\<close> is the \<open>self._loop.get_debug()\<close> of the log line.\<close>

definition pause_reading :: "(('e, 'x) selector_transport_scheme, unit) py" where
  "pause_reading =
     py_if (\<lambda>w. \<not> is_reading w) (py_ret ())
       (py_seq (py_mod (\<lambda>w. w\<lparr>paused := True\<rparr>))
         (py_seq (py_when (\<lambda>w. drain_mode w = None) remove_reader_of) need_loop))"

text \<open>\<open>max_size = 256 * 1024\<close>.\<close>

definition max_size :: nat where
  "max_size = 256 * 1024"

definition register_reader :: "(('e, 'x) selector_transport_scheme, unit) py" where
  "register_reader =
     py_if (\<lambda>w. \<not> is_reading w) (py_ret ())
       (py_with sock_fd (\<lambda>fd. py_with drain_mode (\<lambda>k.
         py_seq
           (on_loop
             (case k of
                Some DrainUdp \<Rightarrow> add_udp_reader (FdInt fd) CbDrainDatagram CbDrainError
              | Some DrainTcp \<Rightarrow> add_tcp_reader (FdInt fd) CbDrainStream CbDrainError max_size
              | None \<Rightarrow> add_reader (FdInt fd) CbReadReady []))
           (py_ret ()))))"

text \<open>\<open>_flush_replay\<close>. \<open>deliver\<close> runs the closure of an item. Nothing a delivery may call
  appends to the replay queue, so its length at the start bounds the number of rounds.\<close>

primrec flush_replay ::
  "nat \<Rightarrow> (replay_item \<Rightarrow> (('e, 'x) selector_transport_scheme, unit) py) \<Rightarrow>
     (('e, 'x) selector_transport_scheme, unit) py" where
  "flush_replay 0 deliver = py_ret ()"
| "flush_replay (Suc n) deliver =
     py_with replay
       (\<lambda>r. case r of
          [] \<Rightarrow> py_ret ()
        | fn # rest \<Rightarrow>
            py_if (\<lambda>w. \<not> paused w \<and> \<not> closing w \<and> conn_lost w = 0)
              (py_seq (py_mod (\<lambda>w. w\<lparr>replay := rest\<rparr>))
                (py_seq (deliver fn) (flush_replay n deliver)))
              (py_ret ()))"

definition resume_reading ::
  "(replay_item \<Rightarrow> (('e, 'x) selector_transport_scheme, unit) py) \<Rightarrow>
     (('e, 'x) selector_transport_scheme, unit) py" where
  "resume_reading deliver =
     py_if (\<lambda>w. closing w \<or> \<not> paused w) (py_ret ())
       (py_seq (py_mod (\<lambda>w. w\<lparr>paused := False\<rparr>))
         (py_seq (py_with (\<lambda>w. length (replay w)) (\<lambda>n. flush_replay n deliver))
           (py_if (\<lambda>w. paused w \<or> closing w) (py_ret ())
             (py_seq need_loop
               (py_when (\<lambda>w. \<not> is_polling (loop w) (sock_fd w) True) register_reader)))))"

definition base_close :: "(('e, 'x) selector_transport_scheme, unit) py" where
  "base_close =
     py_if closing (py_ret ())
       (py_seq (py_mod (\<lambda>w. w\<lparr>closing := True\<rparr>))
         (py_seq remove_reader_of
           (py_when (\<lambda>w. buffer w = [])
             (py_seq (py_mod (\<lambda>w. w\<lparr>conn_lost := Suc (conn_lost w)\<rparr>))
               (py_seq remove_writer_of (call_soon_of CbCallConnectionLost [ANone]))))))"

definition exc_arg :: "pyexc option \<Rightarrow> pyarg" where
  "exc_arg exc = (case exc of None \<Rightarrow> ANone | Some e \<Rightarrow> AExc e)"

definition force_close :: "pyexc option \<Rightarrow> (('e, 'x) selector_transport_scheme, unit) py" where
  "force_close exc =
     py_if (\<lambda>w. conn_lost w \<noteq> 0) (py_ret ())
       (py_seq (py_when (\<lambda>w. buffer w \<noteq> [])
                  (py_seq (py_mod (\<lambda>w. w\<lparr>buffer := []\<rparr>)) remove_writer_of))
         (py_seq (py_when (\<lambda>w. \<not> closing w)
                    (py_seq (py_mod (\<lambda>w. w\<lparr>closing := True\<rparr>)) remove_reader_of))
           (py_seq (py_mod (\<lambda>w. w\<lparr>conn_lost := Suc (conn_lost w)\<rparr>))
             (call_soon_of CbCallConnectionLost [exc_arg exc]))))"

definition abort :: "(('e, 'x) selector_transport_scheme, unit) py" where
  "abort = force_close None"

definition fatal_error ::
  "(('e, 'x) selector_transport_scheme) proto \<Rightarrow> pyexc \<Rightarrow> string \<Rightarrow>
     (('e, 'x) selector_transport_scheme, unit) py" where
  "fatal_error P exc msg =
     py_seq (if is_oserror exc then need_loop else call_exception_handler P msg exc)
       (force_close (Some exc))"

text \<open>\<open>_call_connection_lost\<close> of the base class.\<close>

definition base_call_connection_lost ::
  "(('e, 'x) selector_transport_scheme) proto \<Rightarrow> pyexc option \<Rightarrow>
     (('e, 'x) selector_transport_scheme, unit) py" where
  "base_call_connection_lost P exc =
     py_finally
       (py_when protocol_connected (py_seq (call_protocol P (ConnectionLost exc)) (py_ret ())))
       (py_seq need_sock
         (py_seq (py_mod (\<lambda>w. w\<lparr>sock_closed := True, has_sock := False, protocol := None, has_loop := False\<rparr>))
           (py_when (\<lambda>w. server w \<noteq> None)
             (py_mod (\<lambda>w. w\<lparr>server_active := server_active w - 1, server := None\<rparr>)))))"

text \<open>\<open>__del__\<close> of an object that still has its socket: it closes the socket and detaches from the
  server (the attributes stay as they are, the object is gone).\<close>

definition transport_del :: "(('e, 'x) selector_transport_scheme, unit) py" where
  "transport_del =
     py_when has_sock
       (py_seq (py_mod (\<lambda>w. w\<lparr>sock_closed := True\<rparr>))
         (py_when (\<lambda>w. server w \<noteq> None) (py_mod (\<lambda>w. w\<lparr>server_active := server_active w - 1\<rparr>))))"

definition get_protocol :: "('e, 'x) selector_transport_scheme \<Rightarrow> proto_kind option" where
  "get_protocol w = protocol w"

text \<open>\<open>__init__\<close> up to the class-specific part: the attributes it sets on a fresh object over
  the loop, with the socket's \<open>fileno()\<close> and peer name, attached to a server if one is given.
  The protocol is set by the class's own \<open>set_protocol\<close>.\<close>

definition init_transport ::
  "tcb loop_state \<Rightarrow> int \<Rightarrow> pyaddr option \<Rightarrow> nat option \<Rightarrow> int \<Rightarrow> drain_mode option \<Rightarrow> 'e selector_transport" where
  "init_transport l fd peer srv active kind =
     \<lparr>loop = l, has_loop = True, has_sock = True, sock_closed = False, sock_fd = fd, peername = peer,
      protocol = None, protocol_connected = False, server = srv,
      server_active = (if srv = None then active else active + 1),
      buffer = [], conn_lost = 0, closing = False, paused = False, replay = [], drain_mode = kind,
      protocol_paused = False, high_water = 64 * 1024, low_water = 16 * 1024, connlost_warnings = 0, log = []\<rparr>"

text \<open>\<open>__repr__\<close>: the words it prints.\<close>

datatype repr_word = WClosed | WClosing | WFd int | WRead bool | WWrite bool nat

definition repr_words ::
  "(('e, 'x) selector_transport_scheme \<Rightarrow> nat) \<Rightarrow> ('e, 'x) selector_transport_scheme \<Rightarrow> repr_word list" where
  "repr_words sz w =
     (if \<not> has_sock w then [WClosed] else if closing w then [WClosing] else []) @ [WFd (sock_fd w)] @
     (if has_loop w \<and> \<not> loop_closed (loop w)
      then [WRead (is_polling (loop w) (sock_fd w) True),
            WWrite (is_polling (loop w) (sock_fd w) False) (sz w)]
      else [])"

end
