(* ===== verification/Sock_Ops.thy ===== *)
theory Sock_Ops
  imports Rust_Loop Transport_Base "HOL-Library.Sublist"
begin

text \<open>
  The \<open>sock_*\<close> coroutines of \<open>RustEventLoop\<close> (\<^verbatim>\<open>src/python/tokioop/loop.py\<close>).

  The world extends the loop with the futures it created and one socket: scripts of what the
  kernel answers to the next calls (past its end a script answers \<open>BlockingIOError\<close>), the
  bytes and datagrams it took, and the caller's buffer for the \<open>_into\<close> calls. A coroutine
  either returns at once or waits for a future (\<open>Awaiting\<close>); the task that awaits it gets the
  future's result. Futures are asyncio's: setting a result schedules the done callbacks.
  \<open>tr_closing\<close> is \<open>is_closing()\<close> of transport objects.
\<close>

section \<open>World\<close>

record sock_obj =
  so_fd :: int
  so_ssl :: bool
  so_nonblocking :: bool
  so_inet :: bool
  so_stream :: bool

datatype answer =
    VBytes bytes
  | VCount nat
  | VFrom bytes pyaddr
  | VCountFrom nat pyaddr
  | VConn nat pyaddr
  | VNone

datatype future = FPending | FValue answer | FExc pyexc | FCancelled

datatype coro = Returned answer | Awaiting nat

datatype scb =
    ScRecv nat nat
  | ScRecvInto nat
  | ScRecvfrom nat nat
  | ScRecvfromInto nat nat
  | ScSendall nat bytes nat
  | ScSendto nat bytes pyaddr
  | ScConnectCb nat pyaddr
  | ScAccept nat
  | ScReadDone int fd_handle
  | ScWriteDone int fd_handle
  | ScUser nat

record sock_world = "scb rust_loop" +
  futs :: "nat \<Rightarrow> future"
  fut_callbacks :: "nat \<Rightarrow> scb list"
  next_fut :: nat
  cells :: "nat \<Rightarrow> nat"
  next_cell :: nat
  sk :: sock_obj
  tr_closing :: "nat \<Rightarrow> bool"
  recv_answers :: "(pyexc + bytes \<times> pyaddr) list"
  send_answers :: "(pyexc + nat) list"
  connect_answers :: "pyexc option list"
  so_errors :: "(pyexc + int) list"
  accept_answers :: "(pyexc + nat \<times> pyaddr) list"
  wire :: bytes
  sent_datagrams :: "(bytes \<times> pyaddr) list"
  user_buf :: bytes

type_synonym 'a so_m = "(sock_world, 'a) py"

section \<open>Kernel calls\<close>

definition next_recv :: "(bytes \<times> pyaddr) so_m" where
  "next_recv =
     py_with recv_answers (\<lambda>s. case s of
        [] \<Rightarrow> py_raise BlockingIOError
      | a # rest \<Rightarrow> py_seq (py_mod (\<lambda>w. w\<lparr>recv_answers := rest\<rparr>))
          (case a of Inl e \<Rightarrow> py_raise e | Inr d \<Rightarrow> py_ret d))"

definition k_recv :: "nat \<Rightarrow> answer so_m" where
  "k_recv n = py_bind next_recv (\<lambda>(d, a). py_ret (VBytes (take n d)))"

definition k_recvfrom :: "nat \<Rightarrow> answer so_m" where
  "k_recvfrom n = py_bind next_recv (\<lambda>(d, a). py_ret (VFrom (take n d) a))"

text \<open>\<open>recv_into(buf)\<close> and \<open>recvfrom_into(buf, nbytes)\<close> overwrite the front of the buffer.\<close>

definition store_buf :: "bytes \<Rightarrow> unit so_m" where
  "store_buf d = py_mod (\<lambda>w. w\<lparr>user_buf := d @ drop (length d) (user_buf w)\<rparr>)"

definition k_recv_into :: "answer so_m" where
  "k_recv_into = py_bind next_recv (\<lambda>(d, a).
     py_with (\<lambda>w. take (length (user_buf w)) d) (\<lambda>x. py_seq (store_buf x) (py_ret (VCount (length x)))))"

definition k_recvfrom_into :: "nat \<Rightarrow> answer so_m" where
  "k_recvfrom_into n = py_bind next_recv (\<lambda>(d, a).
     py_with (\<lambda>w. take (min n (length (user_buf w))) d)
       (\<lambda>x. py_seq (store_buf x) (py_ret (VCountFrom (length x) a))))"

definition next_send :: "nat so_m" where
  "next_send =
     py_with send_answers (\<lambda>s. case s of
        [] \<Rightarrow> py_raise BlockingIOError
      | a # rest \<Rightarrow> py_seq (py_mod (\<lambda>w. w\<lparr>send_answers := rest\<rparr>))
          (case a of Inl e \<Rightarrow> py_raise e | Inr n \<Rightarrow> py_ret n))"

definition k_send :: "bytes \<Rightarrow> nat so_m" where
  "k_send data = py_bind next_send (\<lambda>n.
     py_seq (py_mod (\<lambda>w. w\<lparr>wire := wire w @ take n data\<rparr>)) (py_ret (min n (length data))))"

definition k_sendto :: "bytes \<Rightarrow> pyaddr \<Rightarrow> answer so_m" where
  "k_sendto data addr = py_bind next_send (\<lambda>n.
     py_seq (py_mod (\<lambda>w. w\<lparr>sent_datagrams := sent_datagrams w @ [(data, addr)]\<rparr>)) (py_ret (VCount (length data))))"

definition k_connect :: "pyaddr \<Rightarrow> unit so_m" where
  "k_connect addr =
     py_with connect_answers (\<lambda>s. case s of
        [] \<Rightarrow> py_raise BlockingIOError
      | a # rest \<Rightarrow> py_seq (py_mod (\<lambda>w. w\<lparr>connect_answers := rest\<rparr>))
          (case a of Some e \<Rightarrow> py_raise e | None \<Rightarrow> py_ret ()))"

definition k_so_error :: "int so_m" where
  "k_so_error =
     py_with so_errors (\<lambda>s. case s of
        [] \<Rightarrow> py_ret 0
      | a # rest \<Rightarrow> py_seq (py_mod (\<lambda>w. w\<lparr>so_errors := rest\<rparr>))
          (case a of Inl e \<Rightarrow> py_raise e | Inr n \<Rightarrow> py_ret n))"

definition k_accept :: "answer so_m" where
  "k_accept =
     py_with accept_answers (\<lambda>s. case s of
        [] \<Rightarrow> py_raise BlockingIOError
      | a # rest \<Rightarrow> py_seq (py_mod (\<lambda>w. w\<lparr>accept_answers := rest\<rparr>))
          (case a of Inl e \<Rightarrow> py_raise e | Inr (c, addr) \<Rightarrow> py_ret (VConn c addr)))"

section \<open>Futures\<close>

definition create_future :: "nat so_m" where
  "create_future =
     py_with next_fut (\<lambda>f.
       py_seq (py_mod (\<lambda>w. w\<lparr>futs := (futs w)(f := FPending), fut_callbacks := (fut_callbacks w)(f := []),
                            next_fut := Suc f\<rparr>)) (py_ret f))"

definition fut_done :: "nat \<Rightarrow> sock_world \<Rightarrow> bool" where
  "fut_done f w \<longleftrightarrow> futs w f \<noteq> FPending"

primrec schedule_all :: "scb list \<Rightarrow> unit so_m" where
  "schedule_all [] = py_ret ()"
| "schedule_all (c # cs) = py_seq (call_soon c [] None) (schedule_all cs)"

definition fut_finish :: "nat \<Rightarrow> future \<Rightarrow> unit so_m" where
  "fut_finish f v =
     py_if (fut_done f) (py_raise InvalidStateError)
       (py_with (\<lambda>w. fut_callbacks w f) (\<lambda>cs.
         py_seq (py_mod (\<lambda>w. w\<lparr>futs := (futs w)(f := v), fut_callbacks := (fut_callbacks w)(f := [])\<rparr>))
           (schedule_all cs)))"

definition set_result :: "nat \<Rightarrow> answer \<Rightarrow> unit so_m" where
  "set_result f v = fut_finish f (FValue v)"

definition set_exception :: "nat \<Rightarrow> pyexc \<Rightarrow> unit so_m" where
  "set_exception f e = fut_finish f (FExc e)"

definition fut_cancel :: "nat \<Rightarrow> bool so_m" where
  "fut_cancel f = py_if (fut_done f) (py_ret False) (py_seq (fut_finish f FCancelled) (py_ret True))"

definition add_done_callback :: "nat \<Rightarrow> scb \<Rightarrow> unit so_m" where
  "add_done_callback f c =
     py_if (fut_done f) (py_seq (call_soon c [] None) (py_ret ()))
       (py_mod (\<lambda>w. w\<lparr>fut_callbacks := (fut_callbacks w)(f := fut_callbacks w f @ [c])\<rparr>))"

section \<open>Checks and waiting\<close>

text \<open>\<open>_check_ssl_socket\<close> and the debug check of every \<open>sock_*\<close> coroutine.\<close>

definition check_sock :: "unit so_m" where
  "check_sock =
     py_seq (py_when (\<lambda>w. so_ssl (sk w)) (py_raise (TypeError ''Socket cannot be of type SSLSocket'')))
       (py_when (\<lambda>w. debug w \<and> \<not> so_nonblocking (sk w)) (py_raise (ValueError ''the socket must be non-blocking'')))"

definition ensure_no_transport :: "unit so_m" where
  "ensure_no_transport =
     py_with tr_closing (\<lambda>c. py_with (\<lambda>w. so_fd (sk w)) (\<lambda>fd. ensure_fd_no_transport c (FdInt fd)))"

text \<open>Register the callback of a pending operation and arrange its removal when the future is
  done.\<close>

definition await_readable :: "nat \<Rightarrow> scb \<Rightarrow> unit so_m" where
  "await_readable f cb =
     py_with (\<lambda>w. so_fd (sk w)) (\<lambda>fd.
       py_seq ensure_no_transport
         (py_bind (add_reader (FdInt fd) cb []) (\<lambda>h. add_done_callback f (ScReadDone fd h))))"

definition await_writable :: "nat \<Rightarrow> scb \<Rightarrow> unit so_m" where
  "await_writable f cb =
     py_with (\<lambda>w. so_fd (sk w)) (\<lambda>fd.
       py_seq ensure_no_transport
         (py_bind (add_writer (FdInt fd) cb []) (\<lambda>h. add_done_callback f (ScWriteDone fd h))))"

definition sock_read_done :: "int \<Rightarrow> fd_handle option \<Rightarrow> unit so_m" where
  "sock_read_done fd handle =
     py_when (\<lambda>w. case handle of None \<Rightarrow> True | Some h \<Rightarrow> \<not> fd_handle_cancelled w h)
       (py_with tr_closing (\<lambda>c. py_seq (py_remove_reader c (FdInt fd)) (py_ret ())))"

definition sock_write_done :: "int \<Rightarrow> fd_handle option \<Rightarrow> unit so_m" where
  "sock_write_done fd handle =
     py_when (\<lambda>w. case handle of None \<Rightarrow> True | Some h \<Rightarrow> \<not> fd_handle_cancelled w h)
       (py_with tr_closing (\<lambda>c. py_seq (py_remove_writer c (FdInt fd)) (py_ret ())))"

section \<open>Receiving\<close>

definition sock_recv :: "nat \<Rightarrow> coro so_m" where
  "sock_recv n =
     py_seq check_sock
       (py_try_else (k_recv n)
         (\<lambda>e. if is_blocking e
              then py_bind create_future (\<lambda>f. py_seq (await_readable f (ScRecv f n)) (py_ret (Awaiting f)))
              else py_raise e)
         (\<lambda>d. py_ret (Returned d)))"

definition sock_recv_cb :: "nat \<Rightarrow> nat \<Rightarrow> unit so_m" where
  "sock_recv_cb f n =
     py_if (fut_done f) (py_ret ())
       (py_try_else (k_recv n)
         (\<lambda>e. if is_blocking e then py_ret () else on_error (set_exception f) e)
         (set_result f))"

definition sock_recv_into :: "coro so_m" where
  "sock_recv_into =
     py_seq check_sock
       (py_try_else k_recv_into
         (\<lambda>e. if is_blocking e
              then py_bind create_future (\<lambda>f. py_seq (await_readable f (ScRecvInto f)) (py_ret (Awaiting f)))
              else py_raise e)
         (\<lambda>d. py_ret (Returned d)))"

definition sock_recv_into_cb :: "nat \<Rightarrow> unit so_m" where
  "sock_recv_into_cb f =
     py_if (fut_done f) (py_ret ())
       (py_try_else k_recv_into
         (\<lambda>e. if is_blocking e then py_ret () else on_error (set_exception f) e)
         (set_result f))"

definition sock_recvfrom :: "nat \<Rightarrow> coro so_m" where
  "sock_recvfrom n =
     py_seq check_sock
       (py_try_else (k_recvfrom n)
         (\<lambda>e. if is_blocking e
              then py_bind create_future (\<lambda>f. py_seq (await_readable f (ScRecvfrom f n)) (py_ret (Awaiting f)))
              else py_raise e)
         (\<lambda>d. py_ret (Returned d)))"

definition sock_recvfrom_cb :: "nat \<Rightarrow> nat \<Rightarrow> unit so_m" where
  "sock_recvfrom_cb f n =
     py_if (fut_done f) (py_ret ())
       (py_try_else (k_recvfrom n)
         (\<lambda>e. if is_blocking e then py_ret () else on_error (set_exception f) e)
         (set_result f))"

definition sock_recvfrom_into :: "nat \<Rightarrow> coro so_m" where
  "sock_recvfrom_into n0 =
     py_seq check_sock
       (py_with (\<lambda>w. if n0 = 0 then length (user_buf w) else n0) (\<lambda>n.
         py_try_else (k_recvfrom_into n)
           (\<lambda>e. if is_blocking e
                then py_bind create_future (\<lambda>f. py_seq (await_readable f (ScRecvfromInto f n)) (py_ret (Awaiting f)))
                else py_raise e)
           (\<lambda>d. py_ret (Returned d))))"

definition sock_recvfrom_into_cb :: "nat \<Rightarrow> nat \<Rightarrow> unit so_m" where
  "sock_recvfrom_into_cb f n =
     py_if (fut_done f) (py_ret ())
       (py_try_else (k_recvfrom_into n)
         (\<lambda>e. if is_blocking e then py_ret () else on_error (set_exception f) e)
         (set_result f))"

section \<open>Sending\<close>

text \<open>The list \<open>[n]\<close> shared by the calls of \<open>_sock_sendall\<close> is a cell of the world.\<close>

definition sock_sendall :: "bytes \<Rightarrow> coro so_m" where
  "sock_sendall data =
     py_seq check_sock
       (py_bind (py_try (k_send data) (\<lambda>e. if is_blocking e then py_ret 0 else py_raise e))
         (\<lambda>n. if n = length data then py_ret (Returned VNone)
              else py_bind create_future (\<lambda>f.
                py_with next_cell (\<lambda>c.
                  py_seq (py_mod (\<lambda>w. w\<lparr>cells := (cells w)(c := n), next_cell := Suc c\<rparr>))
                    (py_seq (await_writable f (ScSendall f data c)) (py_ret (Awaiting f)))))))"

definition sock_sendall_cb :: "nat \<Rightarrow> bytes \<Rightarrow> nat \<Rightarrow> unit so_m" where
  "sock_sendall_cb f view c =
     py_if (fut_done f) (py_ret ())
       (py_with (\<lambda>w. cells w c) (\<lambda>start.
         py_try_else (k_send (drop start view))
           (\<lambda>e. if is_blocking e then py_ret () else on_error (set_exception f) e)
           (\<lambda>n. if start + n = length view then set_result f VNone
                else py_mod (\<lambda>w. w\<lparr>cells := (cells w)(c := start + n)\<rparr>))))"

definition sock_sendto :: "bytes \<Rightarrow> pyaddr \<Rightarrow> coro so_m" where
  "sock_sendto data addr =
     py_seq check_sock
       (py_try_else (k_sendto data addr)
         (\<lambda>e. if is_blocking e
              then py_bind create_future (\<lambda>f. py_seq (await_writable f (ScSendto f data addr)) (py_ret (Awaiting f)))
              else py_raise e)
         (\<lambda>d. py_ret (Returned d)))"

definition sock_sendto_cb :: "nat \<Rightarrow> bytes \<Rightarrow> pyaddr \<Rightarrow> unit so_m" where
  "sock_sendto_cb f data addr =
     py_if (fut_done f) (py_ret ())
       (py_try_else (k_sendto data addr)
         (\<lambda>e. if is_blocking e then py_ret () else on_error (set_exception f) e)
         (set_result f))"

section \<open>Connecting and accepting\<close>

definition sock_connect_start :: "nat \<Rightarrow> pyaddr \<Rightarrow> unit so_m" where
  "sock_connect_start f addr =
     py_try_else (k_connect addr)
       (\<lambda>e. if is_blocking e then await_writable f (ScConnectCb f addr) else on_error (set_exception f) e)
       (\<lambda>_. set_result f VNone)"

text \<open>\<open>sock_connect\<close>; \<open>resolve\<close> is \<open>_ensure_resolved\<close> followed by taking the first entry.\<close>

definition sock_connect :: "(pyaddr \<Rightarrow> pyexc + pyaddr) \<Rightarrow> pyaddr \<Rightarrow> coro so_m" where
  "sock_connect resolve address =
     py_seq check_sock
       (py_bind (py_check (\<lambda>w. if so_inet (sk w) then resolve address else Inr address)) (\<lambda>addr.
         py_bind create_future (\<lambda>f. py_seq (sock_connect_start f addr) (py_ret (Awaiting f)))))"

text \<open>Python maps an errno to a subclass of \<open>OSError\<close>: \<open>EAGAIN\<close>, \<open>EALREADY\<close>,
  \<open>EINPROGRESS\<close> to \<open>BlockingIOError\<close>, \<open>EINTR\<close> to \<open>InterruptedError\<close>.\<close>

definition os_error :: "int \<Rightarrow> string \<Rightarrow> pyexc" where
  "os_error err msg =
     (if err \<in> {11, 114, 115} then BlockingIOError else if err = 4 then InterruptedError else OSError err msg)"

definition sock_connect_cb :: "nat \<Rightarrow> pyaddr \<Rightarrow> unit so_m" where
  "sock_connect_cb f addr =
     py_if (fut_done f) (py_ret ())
       (py_try_else
         (py_bind k_so_error (\<lambda>err. if err \<noteq> 0 then py_raise (os_error err ''Connect call failed'') else py_ret ()))
         (\<lambda>e. if is_blocking e then py_ret () else on_error (set_exception f) e)
         (\<lambda>_. set_result f VNone))"

definition sock_accept_cb :: "nat \<Rightarrow> unit so_m" where
  "sock_accept_cb f =
     py_if (fut_done f) (py_ret ())
       (py_try_else k_accept
         (\<lambda>e. if is_blocking e then await_readable f (ScAccept f) else on_error (set_exception f) e)
         (set_result f))"

definition sock_accept :: "coro so_m" where
  "sock_accept =
     py_seq check_sock
       (py_bind create_future (\<lambda>f. py_seq (sock_accept_cb f) (py_ret (Awaiting f))))"

section \<open>What the loop invokes\<close>

fun run_scb :: "scb \<Rightarrow> unit so_m" where
  "run_scb (ScRecv f n) = sock_recv_cb f n"
| "run_scb (ScRecvInto f) = sock_recv_into_cb f"
| "run_scb (ScRecvfrom f n) = sock_recvfrom_cb f n"
| "run_scb (ScRecvfromInto f n) = sock_recvfrom_into_cb f n"
| "run_scb (ScSendall f d c) = sock_sendall_cb f d c"
| "run_scb (ScSendto f d a) = sock_sendto_cb f d a"
| "run_scb (ScConnectCb f a) = sock_connect_cb f a"
| "run_scb (ScAccept f) = sock_accept_cb f"
| "run_scb (ScReadDone fd h) = sock_read_done fd (Some h)"
| "run_scb (ScWriteDone fd h) = sock_write_done fd (Some h)"
| "run_scb (ScUser n) = py_ret ()"

end
