(* ===== verification/Sock_Calls.thy ===== *)
theory Sock_Calls
  imports Sock_Ops
begin

text \<open>
  What awaiting a \<open>sock_*\<close> coroutine amounts to. A turn of the loop finds the socket ready in
  one direction, runs the callback the registry holds for it and then the callbacks that became
  ready. The reference is the plain loop that repeats the system call until it does not block;
  the locales below state what an operation has to look like for the two to agree, and are
  interpreted for every operation of the source.
\<close>

section \<open>Turns of the loop\<close>

definition registered :: "sock_world \<Rightarrow> bool \<Rightarrow> (scb \<times> pyarg list) option" where
  "registered w d = (case watcher w (so_fd (sk w)) d of None \<Rightarrow> None | Some sid \<Rightarrow> sl_cb (slots w sid))"

definition socket_ready :: "bool \<Rightarrow> sock_world \<Rightarrow> sock_world" where
  "socket_ready d w = (case registered w d of None \<Rightarrow> w | Some (c, _) \<Rightarrow> snd (run_scb c w))"

definition run_ready_scbs :: "sock_world \<Rightarrow> sock_world" where
  "run_ready_scbs w = fold (\<lambda>e v. snd (run_scb (re_callback e) v)) (ready w) (w\<lparr>ready := []\<rparr>)"

definition turn :: "bool \<Rightarrow> sock_world \<Rightarrow> sock_world" where
  "turn d w = run_ready_scbs (socket_ready d w)"

text \<open>Turns until the awaited future is done.\<close>

primrec turns :: "bool \<Rightarrow> nat \<Rightarrow> nat \<Rightarrow> sock_world \<Rightarrow> sock_world" where
  "turns d f 0 w = w"
| "turns d f (Suc k) w = (if fut_done f w then w else turns d f k (turn d w))"

text \<open>What the task that awaits the coroutine sees.\<close>

definition outcome :: "nat \<Rightarrow> sock_world \<Rightarrow> (pyexc + answer) option" where
  "outcome f w =
     (case futs w f of
        FPending \<Rightarrow> None
      | FValue v \<Rightarrow> Some (Inr v)
      | FExc e \<Rightarrow> Some (Inl e)
      | FCancelled \<Rightarrow> Some (Inl CancelledError))"

definition drive :: "bool \<Rightarrow> coro so_m \<Rightarrow> nat \<Rightarrow> sock_world \<Rightarrow> (pyexc + answer) option \<times> sock_world" where
  "drive d start k w =
     (case start w of
        (Inl e, w') \<Rightarrow> (Some (Inl e), w')
      | (Inr (Returned v), w') \<Rightarrow> (Some (Inr v), w')
      | (Inr (Awaiting f), w') \<Rightarrow> (outcome f (turns d f k w'), turns d f k w'))"

section \<open>The reference: repeat the call until it does not block\<close>

text \<open>An attempt returns \<open>None\<close> when it made progress and has more to do.\<close>

primrec attempts :: "answer option so_m \<Rightarrow> nat \<Rightarrow> sock_world \<Rightarrow> (pyexc + answer) option \<times> sock_world" where
  "attempts a 0 w = (None, w)"
| "attempts a (Suc k) w =
     (case a w of
        (Inl e, w') \<Rightarrow> if is_blocking e then attempts a k w' else (Some (Inl e), w')
      | (Inr None, w') \<Rightarrow> attempts a k w'
      | (Inr (Some v), w') \<Rightarrow> (Some (Inr v), w'))"

text \<open>What a system call can see and change: the socket, not the loop.\<close>

record kernel_view =
  v_recv :: "(pyexc + bytes \<times> pyaddr) list"
  v_send :: "(pyexc + nat) list"
  v_connect :: "pyexc option list"
  v_soerr :: "(pyexc + int) list"
  v_accept :: "(pyexc + nat \<times> pyaddr) list"
  v_wire :: bytes
  v_sent :: "(bytes \<times> pyaddr) list"
  v_buf :: bytes
  v_cells :: "nat \<Rightarrow> nat"

definition view :: "sock_world \<Rightarrow> kernel_view" where
  "view w = \<lparr>v_recv = recv_answers w, v_send = send_answers w, v_connect = connect_answers w, v_soerr = so_errors w,
     v_accept = accept_answers w, v_wire = wire w, v_sent = sent_datagrams w, v_buf = user_buf w, v_cells = cells w\<rparr>"

definition set_view :: "kernel_view \<Rightarrow> sock_world \<Rightarrow> sock_world" where
  "set_view v w = w\<lparr>recv_answers := v_recv v, send_answers := v_send v, connect_answers := v_connect v,
     so_errors := v_soerr v, accept_answers := v_accept v, wire := v_wire v, sent_datagrams := v_sent v,
     user_buf := v_buf v, cells := v_cells v\<rparr>"

text \<open>System calls raise no \<open>SystemExit\<close> or \<open>KeyboardInterrupt\<close>.\<close>

definition no_exit :: "kernel_view \<Rightarrow> bool" where
  "no_exit v \<longleftrightarrow> (\<forall>e. is_exit e \<longrightarrow> Inl e \<notin> set (v_recv v) \<and> Inl e \<notin> set (v_send v) \<and>
     Some e \<notin> set (v_connect v) \<and> Inl e \<notin> set (v_soerr v) \<and> Inl e \<notin> set (v_accept v))"

lemma view_set_view [simp]: "view (set_view v w) = v"
  by (simp add: view_def set_view_def)

lemma set_view_view [simp]: "set_view (view w) w = w"
  by (simp add: view_def set_view_def)

lemma set_view_set_view [simp]: "set_view v (set_view u w) = set_view v w"
  by (simp add: set_view_def)

lemma set_view_fields [simp]:
  "futs (set_view v w) = futs w" "fut_callbacks (set_view v w) = fut_callbacks w" "sk (set_view v w) = sk w"
  "ready (set_view v w) = ready w" "flags (set_view v w) = flags w" "fds (set_view v w) = fds w"
  "slots (set_view v w) = slots w" "loop_closed (set_view v w) = loop_closed w" "debug (set_view v w) = debug w"
  "transports (set_view v w) = transports w" "tr_closing (set_view v w) = tr_closing w"
  "os_reg (set_view v w) = os_reg w" "reg_count (set_view v w) = reg_count w"
  "watcher (set_view v w) = watcher w" "registered (set_view v w) = registered w"
  by (auto simp: set_view_def watcher_def registered_def fun_eq_iff split: option.split)

section \<open>A socket the loop can use, and a pending operation\<close>

definition open_for :: "sock_world \<Rightarrow> bool" where
  "open_for w \<longleftrightarrow> \<not> loop_closed w \<and> \<not> debug w \<and> 0 \<le> so_fd (sk w) \<and> i32_range (so_fd (sk w)) \<and>
     (case map_of (transports w) (so_fd (sk w)) of None \<Rightarrow> True | Some t \<Rightarrow> tr_closing w t) \<and>
     \<not> so_ssl (sk w) \<and> registry_inv w \<and> (\<forall>n. os_reg w n (so_fd (sk w)) = None)"

definition usable :: "sock_world \<Rightarrow> bool" where
  "usable w \<longleftrightarrow> open_for w \<and> ready w = [] \<and> no_exit (view w)"

definition done_cb :: "bool \<Rightarrow> int \<Rightarrow> fd_handle \<Rightarrow> scb" where
  "done_cb d fd h = (if d then ScReadDone fd h else ScWriteDone fd h)"

definition await_dir :: "bool \<Rightarrow> nat \<Rightarrow> scb \<Rightarrow> unit so_m" where
  "await_dir d f c = (if d then await_readable f c else await_writable f c)"

definition waiting :: "bool \<Rightarrow> nat \<Rightarrow> scb \<Rightarrow> sock_world \<Rightarrow> bool" where
  "waiting d f c w \<longleftrightarrow> open_for w \<and> ready w = [] \<and> futs w f = FPending \<and> registered w d = Some (c, []) \<and>
     (\<exists>h. fut_callbacks w f = [done_cb d (so_fd (sk w)) h] \<and> \<not> flags w (fh_flag h))"

text \<open>A finished operation left nothing behind.\<close>

definition settled :: "bool \<Rightarrow> sock_world \<Rightarrow> bool" where
  "settled d w \<longleftrightarrow> open_for w \<and> ready w = [] \<and> watcher w (so_fd (sk w)) d = None"

lemma registry_inv_mono:
  assumes "fds w' = fds w" "slots w' = slots w" "next_slot w' = next_slot w" "next_flag w \<le> next_flag w'"
    "aborted w' = aborted w" "n_watchers w' = n_watchers w" and inv: "registry_inv w"
  shows "registry_inv w'"
proof -
  have "watcher w' = watcher w" using assms(1) by (simp add: watcher_def fun_eq_iff)
  moreover have "live_slot w sid \<Longrightarrow> live_slot w' sid" for sid
    using assms(2-5) by (auto simp: live_slot_def intro: less_le_trans)
  ultimately show ?thesis using assms unfolding registry_inv_def directions_def by simp
qed

lemma open_for_mono:
  assumes "open_for w" and "registry_inv w'" and "loop_closed w' = loop_closed w" "debug w' = debug w"
    "transports w' = transports w" "tr_closing w' = tr_closing w" "sk w' = sk w" "os_reg w' = os_reg w"
  shows "open_for w'"
  using assms by (simp add: open_for_def split: option.splits)

lemma set_view_registry [simp]: "registry_inv (set_view v w) = registry_inv w"
  by (rule iffI; erule registry_inv_mono [rotated -1]) (simp_all add: set_view_def)

lemma open_for_set_view [simp]: "open_for (set_view v w) = open_for w"
  by (simp add: open_for_def split: option.split)

lemma waiting_set_view [simp]: "waiting d f c (set_view v w) = waiting d f c w"
  by (simp add: waiting_def)

lemma turns_done: "fut_done f w \<Longrightarrow> turns d f k w = w"
  by (cases k) simp_all

text \<open>The done callback of a pending operation removes its watcher.\<close>

lemma run_done_cb:
  assumes "open_for w" and "\<not> flags w (fh_flag h)"
  shows "run_scb (done_cb d (so_fd (sk w)) h) w = (Inr (), snd (detach_watcher (so_fd (sk w)) d w))"
  using assms
  by (auto simp: done_cb_def sock_read_done_def sock_write_done_def py_remove_reader_def py_remove_writer_def
      ensure_fd_no_transport_def remove_reader_def remove_writer_def py_run_defs open_for_def fd_handle_cancelled_def
      detach_watcher_def Let_def split: option.splits prod.splits)

lemma detach_watcher_frame [simp]:
  "futs (snd (detach_watcher fd d w)) = futs w" "fut_callbacks (snd (detach_watcher fd d w)) = fut_callbacks w"
  "ready (snd (detach_watcher fd d w)) = ready w" "sk (snd (detach_watcher fd d w)) = sk w"
  "view (snd (detach_watcher fd d w)) = view w"
  by (simp_all add: detach_watcher_def detach_slot_def Let_def view_def split: option.split)

lemma detach_watcher_open_for:
  assumes "open_for w"
  shows "open_for (snd (detach_watcher fd d w))"
proof (rule open_for_mono [OF assms])
  show "registry_inv (snd (detach_watcher fd d w))"
    using assms detach_watcher_inv [of w fd d] by (metis open_for_def prod.collapse)
qed (simp_all add: detach_watcher_def detach_slot_def Let_def split: option.split)

lemma detach_watcher_gone: "watcher (snd (detach_watcher fd d w)) fd d = None"
proof (cases "watcher w fd d")
  case None
  then show ?thesis by (simp add: detach_watcher_None)
next
  case (Some sid)
  obtain r w' where "detach_watcher fd d w = (r, w')" by fastforce
  with detach_watcher_Some(2) [OF Some] show ?thesis by simp
qed

text \<open>Finishing the future of a pending operation schedules its done callback, which clears the
  registration in the same turn.\<close>

lemma fut_finish_waiting:
  assumes "waiting d f c w" and "v \<noteq> FPending"
  shows "futs (run_ready_scbs (snd (fut_finish f v w))) f = v"
    and "view (run_ready_scbs (snd (fut_finish f v w))) = view w"
    and "sk (run_ready_scbs (snd (fut_finish f v w))) = sk w"
    and "settled d (run_ready_scbs (snd (fut_finish f v w)))"
proof -
  from assms obtain h where h: "fut_callbacks w f = [done_cb d (so_fd (sk w)) h]" "\<not> flags w (fh_flag h)"
    and w: "open_for w" "ready w = []" "futs w f = FPending"
    by (auto simp: waiting_def)
  let ?w1 = "w\<lparr>futs := (futs w)(f := v), fut_callbacks := (fut_callbacks w)(f := [])\<rparr>"
  let ?w2 = "?w1\<lparr>flags := (flags w)(next_flag w := False), next_flag := Suc (next_flag w), ready := []\<rparr>"
  have "registry_inv ?w2" using w(1) by (intro registry_inv_mono [of ?w2 w]) (simp_all add: open_for_def)
  with w(1) have "open_for ?w2" by (rule open_for_mono) simp_all
  moreover have "\<not> flags ?w2 (fh_flag h)" "sk ?w2 = sk w" "view ?w2 = view w" "ready ?w2 = []" "futs ?w2 f = v"
    using w h by (simp_all add: view_def)
  moreover have "run_ready_scbs (snd (fut_finish f v w)) = snd (run_scb (done_cb d (so_fd (sk ?w2)) h) ?w2)"
    using w h by (simp add: fut_finish_def fut_done_def call_soon_def push_ready_def py_run_defs check_defs open_for_def
        run_ready_scbs_def py_mod_def)
  ultimately show "futs (run_ready_scbs (snd (fut_finish f v w))) f = v"
    and "view (run_ready_scbs (snd (fut_finish f v w))) = view w"
    and "sk (run_ready_scbs (snd (fut_finish f v w))) = sk w"
    and "settled d (run_ready_scbs (snd (fut_finish f v w)))"
    using run_done_cb [of ?w2 h d] by (simp_all add: settled_def detach_watcher_gone detach_watcher_open_for)
qed

lemma waiting_pending: "waiting d f c w \<Longrightarrow> futs w f = FPending \<and> ready w = []"
  by (simp add: waiting_def)

section \<open>System calls\<close>

text \<open>A system call changes only the socket, its effect depends only on the socket, and it raises
  no exit exception when the scripts hold none.\<close>

definition kernel_call :: "'a so_m \<Rightarrow> bool" where
  "kernel_call m \<longleftrightarrow>
     (\<forall>w. snd (m w) = set_view (view (snd (m w))) w) \<and>
     (\<forall>w1 w2. view w1 = view w2 \<longrightarrow> fst (m w1) = fst (m w2) \<and> view (snd (m w1)) = view (snd (m w2))) \<and>
     (\<forall>w. no_exit (view w) \<longrightarrow> no_exit (view (snd (m w))) \<and> (\<forall>e. fst (m w) = Inl e \<longrightarrow> \<not> is_exit e))"

lemma kernel_callD:
  assumes "kernel_call m"
  shows "m w = (r, w') \<Longrightarrow> w' = set_view (view w') w"
    and "view w1 = view w2 \<Longrightarrow> fst (m w1) = fst (m w2) \<and> view (snd (m w1)) = view (snd (m w2))"
    and "no_exit (view w) \<Longrightarrow> m w = (r, w') \<Longrightarrow> no_exit (view w') \<and> (\<forall>e. r = Inl e \<longrightarrow> \<not> is_exit e)"
  using assms unfolding kernel_call_def by (metis snd_conv, blast, metis fst_conv snd_conv)

named_theorems kernel_call_rules \<open>system calls and their combinations\<close>

lemma kernel_call_ret [kernel_call_rules]: "kernel_call (py_ret x)"
  by (simp add: kernel_call_def py_ret_def)

lemma kernel_call_raise [kernel_call_rules]: "\<not> is_exit e \<Longrightarrow> kernel_call (py_raise e)"
  by (simp add: kernel_call_def py_raise_def)

lemma kernel_call_bind [kernel_call_rules]:
  assumes "kernel_call m" and "\<And>x. kernel_call (k x)"
  shows "kernel_call (py_bind m k)"
  unfolding kernel_call_def
proof (intro conjI allI impI)
  fix w
  show "snd (py_bind m k w) = set_view (view (snd (py_bind m k w))) w"
  proof (cases "m w")
    case (Pair r w1)
    obtain u where u: "w1 = set_view u w" using kernel_callD(1) [OF assms(1) Pair] by blast
    show ?thesis
    proof (cases r)
      case (Inr x)
      obtain r2 w2 where k: "k x w1 = (r2, w2)" by fastforce
      from kernel_callD(1) [OF assms(2) k] have "w2 = set_view (view w2) w" unfolding u by simp
      with Pair Inr k show ?thesis by (simp add: py_bind_def)
    qed (use Pair u in \<open>simp add: py_bind_def\<close>)
  qed
next
  fix w1 w2 :: sock_world
  assume v: "view w1 = view w2"
  obtain r u1 u2 where m: "m w1 = (r, u1)" "m w2 = (r, u2)" "view u1 = view u2"
    using kernel_callD(2) [OF assms(1) v] by (cases "m w1"; cases "m w2") auto
  then show "fst (py_bind m k w1) = fst (py_bind m k w2)" "view (snd (py_bind m k w1)) = view (snd (py_bind m k w2))"
    using kernel_callD(2) [OF assms(2) m(3)] by (cases r; simp add: py_bind_def)+
next
  fix w
  assume ne: "no_exit (view w)"
  obtain r w1 where m: "m w = (r, w1)" by fastforce
  note c = kernel_callD(3) [OF assms(1) ne m]
  have k: "no_exit (view (snd (k x w1))) \<and> (\<forall>e. fst (k x w1) = Inl e \<longrightarrow> \<not> is_exit e)" for x
    using kernel_callD(3) [OF assms(2), of w1 x] c by (metis prod.collapse)
  show "no_exit (view (snd (py_bind m k w)))" using m c k by (cases r) (simp_all add: py_bind_def)
  show "\<not> is_exit e" if "fst (py_bind m k w) = Inl e" for e
    using that m c k by (cases r) (simp_all add: py_bind_def)
qed

lemma kernel_call_seq [kernel_call_rules]: "kernel_call m \<Longrightarrow> kernel_call n \<Longrightarrow> kernel_call (py_seq m n)"
  by (simp add: py_seq_def kernel_call_bind)

lemma kernel_call_with:
  assumes "\<And>x. kernel_call (k x)" and "\<And>w1 w2. view w1 = view w2 \<Longrightarrow> f w1 = f w2"
  shows "kernel_call (py_with f k)"
  unfolding kernel_call_def py_with_def
proof (intro conjI allI impI)
  fix w show "snd (k (f w) w) = set_view (view (snd (k (f w) w))) w"
    using kernel_callD(1) [OF assms(1)] by (metis prod.collapse)
next
  fix w1 w2 :: sock_world
  assume v: "view w1 = view w2"
  from kernel_callD(2) [OF assms(1) this, of "f w1"]
  show "fst (k (f w1) w1) = fst (k (f w2) w2)" "view (snd (k (f w1) w1)) = view (snd (k (f w2) w2))"
    unfolding assms(2) [OF v] by simp_all
next
  fix w e assume "no_exit (view w)"
  from kernel_callD(3) [OF assms(1) this, of "f w"]
  show "no_exit (view (snd (k (f w) w)))" "fst (k (f w) w) = Inl e \<Longrightarrow> \<not> is_exit e"
    by (metis prod.collapse)+
qed

lemma kernel_call_case_prod [kernel_call_rules]:
  "(\<And>a b. kernel_call (k a b)) \<Longrightarrow> kernel_call (case x of (a, b) \<Rightarrow> k a b)"
  by (cases x) simp

lemma kernel_call_if [kernel_call_rules]: "kernel_call m \<Longrightarrow> kernel_call n \<Longrightarrow> kernel_call (if b then m else n)"
  by simp

lemma script_calls [kernel_call_rules]:
  "kernel_call next_recv" "kernel_call next_send" "kernel_call k_so_error" "kernel_call (k_connect addr)" "kernel_call k_accept"
  by (auto simp: kernel_call_def next_recv_def next_send_def k_so_error_def k_connect_def k_accept_def py_run_defs py_mod_def view_def set_view_def
      no_exit_def split: list.split sum.split option.split)

lemma socket_writes [kernel_call_rules]:
  "kernel_call (store_buf x)" "kernel_call (py_mod (\<lambda>w. w\<lparr>wire := wire w @ x\<rparr>))"
  "kernel_call (py_mod (\<lambda>w. w\<lparr>sent_datagrams := sent_datagrams w @ [g]\<rparr>))"
  "kernel_call (py_mod (\<lambda>w. w\<lparr>cells := (cells w)(c := n)\<rparr>))"
  by (simp_all add: kernel_call_def store_buf_def py_mod_def view_def set_view_def no_exit_def)

lemma system_calls [kernel_call_rules]:
  "kernel_call (k_recv n)" "kernel_call (k_recvfrom n)" "kernel_call k_recv_into" "kernel_call (k_recvfrom_into n)"
  "kernel_call (k_send data)" "kernel_call (k_sendto data addr)"
  unfolding k_recv_def k_recvfrom_def k_recv_into_def k_recvfrom_into_def k_send_def k_sendto_def
  by (auto intro!: kernel_call_bind kernel_call_seq kernel_call_case_prod kernel_call_with script_calls socket_writes
      kernel_call_ret simp: view_def)

section \<open>Pending operations follow the reference\<close>

locale pending_call =
  fixes attempt :: "answer option so_m" and cb :: "nat \<Rightarrow> scb"
  assumes run_cb: "run_scb (cb f) =
      py_if (fut_done f) (py_ret ())
        (py_try_else attempt
          (\<lambda>e. if is_blocking e then py_ret () else on_error (set_exception f) e)
          (\<lambda>r. case r of None \<Rightarrow> py_ret () | Some v \<Rightarrow> set_result f v))"
    and kernel: "kernel_call attempt"
begin

lemmas frame = kernel_callD(1) [OF kernel]
lemmas depends = kernel_callD(2) [OF kernel]
lemmas clean = kernel_callD(3) [OF kernel]

lemma attempts_view:
  assumes "view w1 = view w2"
  shows "fst (attempts attempt k w1) = fst (attempts attempt k w2) \<and>
    view (snd (attempts attempt k w1)) = view (snd (attempts attempt k w2))"
  using assms
proof (induction k arbitrary: w1 w2)
  case (Suc k)
  obtain r u1 u2 where "attempt w1 = (r, u1)" "attempt w2 = (r, u2)" "view u1 = view u2"
    using depends [OF Suc.prems] by (cases "attempt w1"; cases "attempt w2") auto
  with Suc.IH [of u1 u2] show ?case by (auto split: sum.split option.split)
qed simp

lemma attempts_no_exit: "no_exit (view w) \<Longrightarrow> no_exit (view (snd (attempts attempt k w)))"
proof (induction k arbitrary: w)
  case (Suc k)
  obtain r w' where "attempt w = (r, w')" by fastforce
  with clean [OF Suc.prems this] Suc.IH [of w'] show ?case by (auto split: sum.split option.split)
qed simp

lemma frame_waiting:
  assumes "attempt w = (r, w')" and "waiting d f c w"
  shows "waiting d f c w'" and "sk w' = sk w"
  using assms(2) by (subst frame [OF assms(1)], simp)+

lemma turn_retries:
  assumes "waiting d f (cb f) w" and "attempt w = (r, w')" and "r = Inr None \<or> (\<exists>e. r = Inl e \<and> is_blocking e)"
  shows "turn d w = w' \<and> waiting d f (cb f) w' \<and> sk w' = sk w"
proof -
  from frame_waiting [OF assms(2,1)] have wait: "waiting d f (cb f) w'" and sk: "sk w' = sk w" .
  from assms(1) have "registered w d = Some (cb f, [])" "\<not> fut_done f w" by (simp_all add: waiting_def fut_done_def)
  with assms(2,3) have "socket_ready d w = w'"
    by (elim disjE exE conjE) (simp_all add: socket_ready_def run_cb py_if_def py_try_else_def py_ret_def)
  with wait sk waiting_pending [OF wait] show ?thesis by (simp add: turn_def run_ready_scbs_def)
qed

lemma turn_finishes:
  assumes "waiting d f (cb f) w" and "attempt w = (r, w')" and "no_exit (view w)"
    and "r = Inr (Some v) \<and> x = FValue v \<or> (\<exists>e. r = Inl e \<and> \<not> is_blocking e \<and> x = FExc e)"
  shows "futs (turn d w) f = x \<and> view (turn d w) = view w' \<and> settled d (turn d w) \<and> sk (turn d w) = sk w"
proof -
  from frame_waiting [OF assms(2,1)] have wait: "waiting d f (cb f) w'" and sk: "sk w' = sk w" .
  from assms(1) have "registered w d = Some (cb f, [])" "\<not> fut_done f w" by (simp_all add: waiting_def fut_done_def)
  with assms(2,4) clean [OF assms(3,2)] have "socket_ready d w = snd (fut_finish f x w')"
    by (elim disjE exE conjE)
      (simp_all add: socket_ready_def run_cb py_if_def py_try_else_def set_result_def set_exception_def on_error_def)
  moreover have "x \<noteq> FPending" using assms(4) by auto
  ultimately show ?thesis using fut_finish_waiting [OF wait] sk by (simp add: turn_def)
qed

lemma turns_follow_attempts:
  assumes "waiting d f (cb f) w" and "no_exit (view w)"
  shows "outcome f (turns d f k w) = fst (attempts attempt k w) \<and>
    view (turns d f k w) = view (snd (attempts attempt k w)) \<and> sk (turns d f k w) = sk w \<and>
    (if fst (attempts attempt k w) = None then waiting d f (cb f) (turns d f k w) else settled d (turns d f k w))"
  using assms
proof (induction k arbitrary: w)
  case (Suc k)
  obtain r w' where a: "attempt w = (r, w')" by fastforce
  note c = clean [OF Suc.prems(2) a]
  have np: "\<not> fut_done f w" using waiting_pending [OF Suc.prems(1)] by (simp add: fut_done_def)
  consider "r = Inr None \<or> (\<exists>e. r = Inl e \<and> is_blocking e)"
    | v where "r = Inr (Some v)" | e where "r = Inl e" "\<not> is_blocking e"
    by (metis old.sum.exhaust option.exhaust)
  then show ?case
  proof cases
    case 1
    with turn_retries [OF Suc.prems(1) a] Suc.IH [of w'] c a np show ?thesis by auto
  next
    case 2
    with turn_finishes [OF Suc.prems(1) a Suc.prems(2), of v "FValue v"] a np show ?thesis
      by (simp add: turns_done fut_done_def outcome_def)
  next
    case 3
    with turn_finishes [OF Suc.prems(1) a Suc.prems(2), of _ "FExc e"] a np show ?thesis
      by (simp add: turns_done fut_done_def outcome_def)
  qed
qed (simp add: outcome_def waiting_pending)

end

section \<open>Starting an operation\<close>

lemma install_watcher_frame [simp]:
  assumes "install_watcher fd d task mk w = (r, w')"
  shows "futs w' = futs w" "fut_callbacks w' = fut_callbacks w" "ready w' = ready w" "sk w' = sk w" "view w' = view w"
    "loop_closed w' = loop_closed w" "debug w' = debug w" "transports w' = transports w" "tr_closing w' = tr_closing w"
    "os_reg w' = os_reg w" "executor_shutdown_called w' = executor_shutdown_called w"
  using assms
  by (auto simp: install_watcher_def detach_slot_def Let_def view_def split: option.splits)

lemma usable_set_view: "usable w \<Longrightarrow> no_exit v \<Longrightarrow> usable (set_view v w)"
  by (simp add: usable_def)

lemma await_waiting:
  assumes "usable w"
  shows "\<exists>w'. py_bind create_future (\<lambda>f. py_seq (await_dir d f (c f)) (py_ret (Awaiting f))) w =
      (Inr (Awaiting (next_fut w)), w') \<and>
    waiting d (next_fut w) (c (next_fut w)) w' \<and> view w' = view w \<and> sk w' = sk w"
proof -
  let ?f = "next_fut w" and ?fd = "so_fd (sk w)"
  let ?w1 = "w\<lparr>futs := (futs w)(?f := FPending), fut_callbacks := (fut_callbacks w)(?f := []), next_fut := Suc ?f,
      reg_count := Suc (reg_count w)\<rparr>"
  let ?mk = "\<lambda>flag. \<lparr>sl_cb = Some (c ?f, []), sl_drain = None, sl_drain_err = None, sl_dead = False, sl_flag = Some flag\<rparr>"
  obtain h w2 where ins: "install_watcher ?fd d (FdTask d) ?mk ?w1 = (Inr h, w2)"
    by (metis install_watcher_not_Inl old.sum.exhaust surj_pair)
  let ?w3 = "w2\<lparr>fut_callbacks := (fut_callbacks w2)(?f := [done_cb d ?fd h])\<rparr>"
  from assms have w: "open_for w" "ready w = []" "registry_inv w" "os_reg w (reg_count w) ?fd = None"
    by (simp_all add: usable_def open_for_def)
  have inv: "registry_inv ?w1" using w(3) by (intro registry_inv_mono [of ?w1 w]) simp_all
  note fr = install_watcher_frame [OF ins]
  note E = install_watcher_effect [OF inv ins]
  have "py_bind create_future (\<lambda>f. py_seq (await_dir d f (c f)) (py_ret (Awaiting f))) w = (Inr (Awaiting ?f), ?w3)"
    using w ins fr
    by (auto simp: create_future_def await_dir_def await_readable_def await_writable_def ensure_no_transport_def
        ensure_fd_no_transport_def add_reader_def add_writer_def add_watcher_def os_register_def add_done_callback_def
        fut_done_def done_cb_def py_run_defs py_mod_def open_for_def check_defs split: option.splits)
  moreover have "waiting d ?f (c ?f) ?w3"
  proof -
    have "registered ?w3 d = Some (c ?f, [])"
      using E(2) [of ?fd d] E(3) fr(4) by (simp add: registered_def watcher_def)
    moreover have "\<not> flags ?w3 (fh_flag h)" using E(1,8) by simp
    moreover have "open_for ?w3"
    proof (rule open_for_mono [OF w(1)])
      have "registry_inv w2" using w(1)
        by (intro install_watcher_inv [OF inv ins]) (simp_all add: open_for_def i32_range_def fresh_slot_def)
      then show "registry_inv ?w3" by (intro registry_inv_mono [of ?w3 w2]) simp_all
    qed (use fr in simp_all)
    ultimately show ?thesis using w(2) fr by (auto simp: waiting_def)
  qed
  moreover have "view ?w3 = view w" using fr by (simp add: view_def)
  ultimately show ?thesis using fr by simp
qed

lemma check_sock_usable: "usable w \<Longrightarrow> check_sock w = (Inr (), w)"
  by (simp add: check_sock_def usable_def open_for_def py_run_defs)

text \<open>The call of the coroutine itself is the first attempt.\<close>

definition once :: "answer so_m \<Rightarrow> answer option so_m" where
  "once call = py_bind call (\<lambda>v. py_ret (Some v))"

definition start_call :: "bool \<Rightarrow> (nat \<Rightarrow> scb) \<Rightarrow> answer so_m \<Rightarrow> coro so_m" where
  "start_call d c call =
     py_seq check_sock
       (py_try_else call
         (\<lambda>e. if is_blocking e
              then py_bind create_future (\<lambda>f. py_seq (await_dir d f (c f)) (py_ret (Awaiting f)))
              else py_raise e)
         (\<lambda>v. py_ret (Returned v)))"

text \<open>The turns of the loop give the task what the reference gives, after the same system calls;
  when the operation is over its watcher is gone.\<close>

definition follows :: "bool \<Rightarrow> coro so_m \<Rightarrow> answer option so_m \<Rightarrow> nat \<Rightarrow> sock_world \<Rightarrow> bool" where
  "follows d start a k w \<longleftrightarrow>
     fst (drive d start k w) = fst (attempts a (Suc k) w) \<and>
     view (snd (drive d start k w)) = view (snd (attempts a (Suc k) w)) \<and>
     (watcher w (so_fd (sk w)) d = None \<longrightarrow> fst (drive d start k w) \<noteq> None \<longrightarrow>
       watcher (snd (drive d start k w)) (so_fd (sk w)) d = None)"

locale socket_call = pending_call "once call" cb for call :: "answer so_m" and cb :: "nat \<Rightarrow> scb" +
  fixes start :: "coro so_m" and d :: bool
  assumes start: "start = start_call d cb call"
begin

lemma start_follows:
  assumes "usable w"
  shows "follows d start (once call) k w"
proof -
  obtain r w1 where call: "call w = (r, w1)" by fastforce
  then have once: "once call w = (map_sum id Some r, w1)"
    by (simp add: once_def py_bind_def py_ret_def split: sum.split)
  have ne: "no_exit (view w)" using assms by (simp add: usable_def)
  note cl = clean [OF ne once]
  obtain v where v: "w1 = set_view v w" using frame [OF once] by blast
  show ?thesis
  proof (cases "\<exists>e. r = Inl e \<and> is_blocking e")
    case False
    then show ?thesis using call once check_sock_usable [OF assms] v
      by (auto simp: follows_def drive_def start start_call_def py_run_defs py_try_else_def split: sum.split)
  next
    case True
    then obtain e where e: "r = Inl e" "is_blocking e" by blast
    have "usable w1" using usable_set_view [OF assms] cl v by simp
    from await_waiting [OF this, of d cb] obtain w2 where w2:
      "py_bind create_future (\<lambda>f. py_seq (await_dir d f (cb f)) (py_ret (Awaiting f))) w1 = (Inr (Awaiting (next_fut w1)), w2)"
      "waiting d (next_fut w1) (cb (next_fut w1)) w2" "view w2 = view w1" "sk w2 = sk w1" by blast
    have "no_exit (view w2)" using w2(3) cl by simp
    note T = turns_follow_attempts [OF w2(2) this, of k] and A = attempts_view [OF w2(3), of k]
    have d: "drive d start k w = (outcome (next_fut w1) (turns d (next_fut w1) k w2), turns d (next_fut w1) k w2)"
      using call e w2(1) check_sock_usable [OF assms]
      by (simp add: drive_def start start_call_def py_seq_def py_bind_def [of check_sock] py_try_else_def)
    from d T A once e v w2(4) show ?thesis
      by (auto simp: follows_def settled_def split: if_splits)
  qed
qed

end

section \<open>The operations of the source\<close>

lemma kernel_call_once [kernel_call_rules]: "kernel_call call \<Longrightarrow> kernel_call (once call)"
  by (simp add: once_def kernel_call_rules)

lemma retry_once:
  "py_try_else call (\<lambda>e. if is_blocking e then py_ret () else on_error (set_exception f) e) (set_result f) =
   py_try_else (once call) (\<lambda>e. if is_blocking e then py_ret () else on_error (set_exception f) e)
     (\<lambda>r. case r of None \<Rightarrow> py_ret () | Some v \<Rightarrow> set_result f v)"
  by (auto simp: once_def py_try_else_def py_bind_def py_ret_def fun_eq_iff split: sum.split prod.split)

lemma await_dir_eqs: "await_dir True = await_readable" "await_dir False = await_writable"
  by (simp_all add: await_dir_def fun_eq_iff)

lemma py_with_const: "py_with (\<lambda>w. c) k = k c"
  by (simp add: py_with_def fun_eq_iff)

lemmas start_defs = start_call_def await_dir_eqs py_with_const sock_recv_def sock_recv_into_def sock_recvfrom_def sock_recvfrom_into_def
  sock_sendto_def

lemmas cb_defs = sock_recv_cb_def sock_recv_into_cb_def sock_recvfrom_cb_def sock_recvfrom_into_cb_def sock_sendto_cb_def

interpretation recv: socket_call "k_recv n" "\<lambda>f. ScRecv f n" "sock_recv n" True for n
  by unfold_locales (simp_all add: start_defs cb_defs retry_once kernel_call_rules cong: if_cong)

interpretation recv_into: socket_call k_recv_into ScRecvInto sock_recv_into True
  by unfold_locales (simp_all add: start_defs cb_defs retry_once kernel_call_rules cong: if_cong)

interpretation recvfrom: socket_call "k_recvfrom n" "\<lambda>f. ScRecvfrom f n" "sock_recvfrom n" True for n
  by unfold_locales (simp_all add: start_defs cb_defs retry_once kernel_call_rules cong: if_cong)

interpretation recvfrom_into:
  socket_call "k_recvfrom_into (Suc n)" "\<lambda>f. ScRecvfromInto f (Suc n)" "sock_recvfrom_into (Suc n)" True for n
  by unfold_locales (simp_all add: start_defs cb_defs retry_once kernel_call_rules cong: if_cong)

interpretation sendto: socket_call "k_sendto data addr" "\<lambda>f. ScSendto f data addr" "sock_sendto data addr" False for data addr
  by unfold_locales (simp_all add: start_defs cb_defs retry_once kernel_call_rules cong: if_cong)

section \<open>sock_sendall\<close>

definition sendall_attempt :: "bytes \<Rightarrow> nat \<Rightarrow> answer option so_m" where
  "sendall_attempt data c =
     py_with (\<lambda>w. cells w c) (\<lambda>start.
       py_bind (k_send (drop start data)) (\<lambda>n.
         if start + n = length data then py_ret (Some VNone)
         else py_seq (py_mod (\<lambda>w. w\<lparr>cells := (cells w)(c := start + n)\<rparr>)) (py_ret None)))"

interpretation sendall: pending_call "sendall_attempt data c" "\<lambda>f. ScSendall f data c" for data c
proof
  show "kernel_call (sendall_attempt data c)"
    unfolding sendall_attempt_def
    by (rule kernel_call_with) (auto intro!: kernel_call_rules simp: view_def)
  show "run_scb (ScSendall f data c) = py_if (fut_done f) (py_ret ())
      (py_try_else (sendall_attempt data c) (\<lambda>e. if is_blocking e then py_ret () else on_error (set_exception f) e)
        (\<lambda>r. case r of None \<Rightarrow> py_ret () | Some v \<Rightarrow> set_result f v))" for f
    by (auto simp: sock_sendall_cb_def sendall_attempt_def py_try_else_def py_run_defs py_mod_def fun_eq_iff
        split: sum.split prod.split)
qed

lemma k_send_cases:
  "k_send data w = (case send_answers w of
      [] \<Rightarrow> (Inl BlockingIOError, w)
    | Inl e # rest \<Rightarrow> (Inl e, w\<lparr>send_answers := rest\<rparr>)
    | Inr n # rest \<Rightarrow> (Inr (min n (length data)), w\<lparr>send_answers := rest, wire := wire w @ take n data\<rparr>))"
  by (auto simp: k_send_def next_send_def py_run_defs py_mod_def split: list.split sum.split)

lemma sendall_attempt_run:
  "sendall_attempt data c w = (case send_answers w of
      [] \<Rightarrow> (Inl BlockingIOError, w)
    | Inl e # rest \<Rightarrow> (Inl e, w\<lparr>send_answers := rest\<rparr>)
    | Inr n # rest \<Rightarrow>
        let q = cells w c + min n (length data - cells w c);
            w1 = w\<lparr>send_answers := rest, wire := wire w @ take n (drop (cells w c) data)\<rparr>
        in if q = length data then (Inr (Some VNone), w1)
           else (Inr None, w1\<lparr>cells := (cells w)(c := q)\<rparr>))"
  by (auto simp: sendall_attempt_def k_send_cases py_run_defs py_mod_def Let_def split: list.split sum.split)

lemma take_take_drop: "take p xs @ take n (drop p xs) = take (p + min n (length xs - p)) xs"
  by (metis append_take_drop_id length_drop min.commute take_add take_all_iff take_take linorder_linear)

text \<open>The cell counts the bytes the kernel took.\<close>

lemma sendall_attempts_prefix:
  assumes "wire w = b @ take (cells w c) data" and "cells w c < length data"
    and "attempts (sendall_attempt data c) k w = (r, w')"
  shows "\<exists>m\<le>length data. wire w' = b @ take m data \<and> (r = None \<longrightarrow> m < length data) \<and>
    (\<forall>v. r = Some (Inr v) \<longrightarrow> v = VNone \<and> m = length data)"
  using assms
proof (induction k arbitrary: w)
  case (Suc k)
  let ?p = "cells w c"
  consider "send_answers w = []" | e rest where "send_answers w = Inl e # rest"
    | n rest where "send_answers w = Inr n # rest"
    by (metis neq_Nil_conv old.sum.exhaust)
  then show ?case
  proof cases
    case 1
    with Suc.prems Suc.IH [of w] show ?thesis by (simp add: sendall_attempt_run)
  next
    case 2
    with Suc.prems Suc.IH [of "w\<lparr>send_answers := rest\<rparr>"] show ?thesis
      by (auto simp: sendall_attempt_run split: if_splits intro: less_imp_le)
  next
    case 3
    let ?q = "?p + min n (length data - ?p)"
    let ?w1 = "w\<lparr>send_answers := rest, wire := wire w @ take n (drop ?p data)\<rparr>"
    have wr: "wire ?w1 = b @ take ?q data" using Suc.prems(1) by (simp add: take_take_drop)
    show ?thesis
    proof (cases "?q = length data")
      case True
      then have "attempts (sendall_attempt data c) (Suc k) w = (Some (Inr VNone), ?w1)"
        using 3 by (simp add: sendall_attempt_run)
      with Suc.prems(3) wr True show ?thesis by auto
    next
      case False
      then have "attempts (sendall_attempt data c) (Suc k) w =
          attempts (sendall_attempt data c) k (?w1\<lparr>cells := (cells w)(c := ?q)\<rparr>)"
        using 3 by (simp add: sendall_attempt_run)
      moreover have "?q < length data" using False Suc.prems(2) by simp
      ultimately show ?thesis using Suc.IH [of "?w1\<lparr>cells := (cells w)(c := ?q)\<rparr>"] Suc.prems(3) wr by simp
    qed
  qed
qed (auto intro!: exI [of _ "cells _ c"])

text \<open>When every \<open>send\<close> takes a byte, every attempt makes progress, and no more answers are used than
  bytes are left.\<close>

lemma sendall_attempts_complete:
  assumes "cells w c < length data" and "length data - cells w c \<le> k"
    and "length data - cells w c \<le> length (send_answers w)" and "\<forall>a\<in>set (send_answers w). \<exists>n\<ge>1. a = Inr n"
  shows "fst (attempts (sendall_attempt data c) k w) = Some (Inr VNone) \<and>
    (\<exists>j\<le>length data - cells w c. send_answers (snd (attempts (sendall_attempt data c) k w)) = drop j (send_answers w))"
  using assms
proof (induction k arbitrary: w)
  case (Suc k)
  then obtain n rest where s: "send_answers w = Inr n # rest" "1 \<le> n" by (cases "send_answers w") auto
  let ?q = "cells w c + min n (length data - cells w c)"
  let ?w1 = "w\<lparr>send_answers := rest, wire := wire w @ take n (drop (cells w c) data), cells := (cells w)(c := ?q)\<rparr>"
  show ?case
  proof (cases "?q = length data")
    case True
    then show ?thesis using s Suc.prems(1) by (auto simp: sendall_attempt_run intro!: exI [of _ 1])
  next
    case False
    then have a: "attempts (sendall_attempt data c) (Suc k) w = attempts (sendall_attempt data c) k ?w1"
      using s by (simp add: sendall_attempt_run)
    have "fst (attempts (sendall_attempt data c) k ?w1) = Some (Inr VNone) \<and>
      (\<exists>j\<le>length data - cells ?w1 c. send_answers (snd (attempts (sendall_attempt data c) k ?w1)) = drop j (send_answers ?w1))"
      using Suc.prems s False by (intro Suc.IH) auto
    then obtain j where j: "fst (attempts (sendall_attempt data c) k ?w1) = Some (Inr VNone)"
      "j \<le> length data - ?q" "send_answers (snd (attempts (sendall_attempt data c) k ?w1)) = drop j rest" by auto
    moreover have "Suc j \<le> length data - cells w c" using j(2) s(2) False Suc.prems(1) by auto
    ultimately show ?thesis unfolding a using s(1) by (intro conjI exI [of _ "Suc j"]) simp_all
  qed
qed simp

section \<open>sock_connect\<close>

definition connect_attempt :: "answer option so_m" where
  "connect_attempt =
     py_bind k_so_error (\<lambda>err. if err \<noteq> 0 then py_raise (os_error err ''Connect call failed'') else py_ret (Some VNone))"

lemma os_error_not_exit [simp]: "\<not> is_exit (os_error err msg)"
  by (simp add: os_error_def)

interpretation connecting: pending_call connect_attempt "\<lambda>f. ScConnectCb f addr" for addr
proof
  show "kernel_call connect_attempt"
    unfolding connect_attempt_def by (intro kernel_call_rules) simp
  show "run_scb (ScConnectCb f addr) = py_if (fut_done f) (py_ret ())
      (py_try_else connect_attempt (\<lambda>e. if is_blocking e then py_ret () else on_error (set_exception f) e)
        (\<lambda>r. case r of None \<Rightarrow> py_ret () | Some v \<Rightarrow> set_result f v))" for f
    by (auto simp: sock_connect_cb_def connect_attempt_def py_try_else_def py_run_defs fun_eq_iff
        split: sum.split prod.split)
qed

end
