(* ===== verification/Sock_Frame.thy ===== *)
theory Sock_Frame
  imports Sock_Calls
begin

text \<open>
  What the socket coroutines and the turns of the loop leave alone: the loop's flags, its
  executor, its table of transports and the answers of the system to a registration. Callers that
  await several socket operations in a row carry these facts from one to the next.
\<close>

definition loop_env :: "sock_world \<Rightarrow>
  (bool \<times> bool \<times> executor option \<times> bool) \<times> (int \<times> nat) list \<times> (nat \<Rightarrow> bool) \<times> (nat \<Rightarrow> int \<Rightarrow> pyexc option)" where
  "loop_env w = ((debug w, loop_closed w, default_executor w, executor_shutdown_called w),
     transports w, tr_closing w, os_reg w)"

abbreviation same_env :: "_ \<Rightarrow> sock_world \<Rightarrow> bool" where
  "same_env b w \<equiv> loop_env w = b"

lemma loop_env_updates [simp]:
  "loop_env (w\<lparr>ready := x1\<rparr>) = loop_env w" "loop_env (w\<lparr>flags := x2\<rparr>) = loop_env w"
  "loop_env (w\<lparr>next_flag := x3\<rparr>) = loop_env w" "loop_env (w\<lparr>slots := x4\<rparr>) = loop_env w"
  "loop_env (w\<lparr>fds := x5\<rparr>) = loop_env w" "loop_env (w\<lparr>aborted := x6\<rparr>) = loop_env w"
  "loop_env (w\<lparr>n_watchers := x7\<rparr>) = loop_env w" "loop_env (w\<lparr>reg_count := x8\<rparr>) = loop_env w"
  "loop_env (w\<lparr>next_slot := x9\<rparr>) = loop_env w" "loop_env (w\<lparr>futs := y1\<rparr>) = loop_env w"
  "loop_env (w\<lparr>fut_callbacks := y2\<rparr>) = loop_env w" "loop_env (w\<lparr>next_fut := y3\<rparr>) = loop_env w"
  "loop_env (w\<lparr>cells := y4\<rparr>) = loop_env w" "loop_env (w\<lparr>next_cell := y5\<rparr>) = loop_env w"
  "loop_env (w\<lparr>recv_answers := y6\<rparr>) = loop_env w" "loop_env (w\<lparr>send_answers := y7\<rparr>) = loop_env w"
  "loop_env (w\<lparr>connect_answers := y8\<rparr>) = loop_env w" "loop_env (w\<lparr>so_errors := y9\<rparr>) = loop_env w"
  "loop_env (w\<lparr>accept_answers := z1\<rparr>) = loop_env w" "loop_env (w\<lparr>wire := z2\<rparr>) = loop_env w"
  "loop_env (w\<lparr>sent_datagrams := z3\<rparr>) = loop_env w" "loop_env (w\<lparr>user_buf := z4\<rparr>) = loop_env w"
  "loop_env (w\<lparr>sk := z5\<rparr>) = loop_env w" "loop_env (w\<lparr>hs_permit := z6\<rparr>) = loop_env w"
  "loop_env (w\<lparr>tasks := z7\<rparr>) = loop_env w"
  by (simp_all add: loop_env_def)

lemma env_call_soon [py_inv_rules]: "py_inv (same_env b) (call_soon c args ctx)"
  unfolding py_inv_def wp_state
  by (simp add: call_soon_def push_ready_def py_run_defs py_mod_def split: sum.split prod.split)

lemma env_detach [py_inv_rules]: "py_inv (same_env b) (detach_watcher fd d)"
  unfolding py_inv_def wp_state
  by (simp add: detach_watcher_def detach_slot_def Let_def split: option.split)

lemma env_register [py_inv_rules]: "py_inv (same_env b) (os_register fd)"
  unfolding py_inv_def wp_state by (simp add: os_register_def)

lemma env_install [py_inv_rules]: "py_inv (same_env b) (install_watcher fd d task mk)"
  unfolding py_inv_def wp_state
  by (auto simp: install_watcher_def py_run_defs py_mod_def detach_watcher_def detach_slot_def os_register_def Let_def
      split: option.splits sum.splits prod.splits)

lemma env_add_watcher [py_inv_rules]: "py_inv (same_env b) (add_watcher fd d c args)"
  unfolding add_watcher_def by (intro py_inv_rules)

lemma env_scripts [py_inv_rules]:
  "py_inv (same_env b) next_recv" "py_inv (same_env b) next_send" "py_inv (same_env b) k_so_error"
  "py_inv (same_env b) (k_connect addr)" "py_inv (same_env b) k_accept" "py_inv (same_env b) (store_buf x)"
  "py_inv (same_env b) create_future"
  unfolding py_inv_def wp_state
  by (auto simp: next_recv_def next_send_def k_so_error_def k_connect_def k_accept_def store_buf_def create_future_def
      py_run_defs py_mod_def split: list.split sum.split option.split)

lemma env_futures [py_inv_rules]:
  "py_inv (same_env b) (schedule_all cs)" "py_inv (same_env b) (add_done_callback f c)"
  by (induction cs) (auto simp: add_done_callback_def intro!: py_inv_rules py_inv_mod)

lemma env_finish [py_inv_rules]: "py_inv (same_env b) (set_result f v)" "py_inv (same_env b) (set_exception f e)"
  by (auto simp: set_result_def set_exception_def fut_finish_def intro!: py_inv_rules py_inv_mod)

lemma env_waits [py_inv_rules]:
  "py_inv (same_env b) (await_readable f c)" "py_inv (same_env b) (await_writable f c)"
  "py_inv (same_env b) (sock_read_done fd h)" "py_inv (same_env b) (sock_write_done fd h)"
  unfolding await_readable_def await_writable_def ensure_no_transport_def ensure_fd_no_transport_def add_reader_def
    add_writer_def sock_read_done_def sock_write_done_def py_remove_reader_def py_remove_writer_def remove_reader_def
    remove_writer_def
  by (intro py_inv_rules)+

lemma env_calls [py_inv_rules]:
  "py_inv (same_env b) (k_recv n)" "py_inv (same_env b) (k_recvfrom n)" "py_inv (same_env b) k_recv_into"
  "py_inv (same_env b) (k_recvfrom_into n)" "py_inv (same_env b) (k_send data)"
  "py_inv (same_env b) (k_sendto data addr)"
  unfolding k_recv_def k_recvfrom_def k_recv_into_def k_recvfrom_into_def k_send_def k_sendto_def
  by (intro py_inv_rules py_inv_mod; simp)+

lemma env_scb: "py_inv (same_env b) (run_scb c)"
  by (cases c)
    (simp_all add: cb_defs sock_sendall_cb_def sock_connect_cb_def sock_accept_cb_def on_error_def py_inv_rules py_inv_mod)

lemma run_scb_env [simp]: "loop_env (snd (run_scb c w)) = loop_env w"
  using env_scb by (rule py_invD) simp

lemma run_ready_scbs_env [simp]: "loop_env (run_ready_scbs w) = loop_env w"
proof -
  have "loop_env (fold (\<lambda>e v. snd (run_scb (re_callback e) v)) es v) = loop_env v"
    for es :: "scb ready_entry list" and v
    by (induction es arbitrary: v) simp_all
  then show ?thesis by (simp add: run_ready_scbs_def)
qed

lemma turns_env [simp]: "loop_env (turns d f k w) = loop_env w"
  by (induction k arbitrary: w) (simp_all add: turn_def socket_ready_def split: option.split prod.split)

lemma drive_env:
  assumes "\<And>b. py_inv (same_env b) start"
  shows "loop_env (snd (drive d start k w)) = loop_env w"
proof -
  have "loop_env (snd (start w)) = loop_env w" using assms by (rule py_invD) simp
  then show ?thesis by (auto simp: drive_def split: prod.splits sum.splits coro.splits)
qed

lemma env_sendall: "py_inv (same_env b) (sock_sendall d)"
  unfolding sock_sendall_def check_sock_def by (intro py_inv_rules py_inv_mod; simp add: loop_env_def)

lemma env_connect: "py_inv (same_env b) (sock_connect resolve a)"
  unfolding sock_connect_def check_sock_def sock_connect_start_def on_error_def by (intro py_inv_rules)

end
