(* ===== verification/Sock_Properties.thy ===== *)
theory Sock_Properties
  imports Sock_Frame
begin

text \<open>
  The properties of the \<open>sock_*\<close> coroutines: receiving and \<open>sock_sendto\<close> agree with the retry
  loop over the system call, \<open>sock_sendall\<close> sends exactly its data, \<open>sock_connect\<close> reports what
  \<open>connect\<close> and \<open>SO_ERROR\<close> say, and \<open>sock_accept\<close>, which registers itself anew at every attempt,
  still takes one connection and leaves no watcher.
\<close>

section \<open>Sample worlds\<close>

definition sample_sock :: sock_obj where
  "sample_sock = \<lparr>so_fd = 5, so_ssl = False, so_nonblocking = True, so_inet = True, so_stream = True\<rparr>"

definition sample_world ::
  "(pyexc + bytes \<times> pyaddr) list \<Rightarrow> (pyexc + nat) list \<Rightarrow> pyexc option list \<Rightarrow> (pyexc + int) list \<Rightarrow>
     (pyexc + nat \<times> pyaddr) list \<Rightarrow> sock_world" where
  "sample_world rs ss cs es acs =
     rust_loop.extend (new_rust_loop (tokioop_new (Fin 0) (\<lambda>_ _. None) 0 False (\<lambda>_. PlainCallable)) (\<lambda>_. None))
       (sock_world.fields (\<lambda>_. FPending) (\<lambda>_. []) 0 (\<lambda>_. 0) 0 sample_sock (\<lambda>_. False) rs ss cs es acs [] [] [0, 0])"

lemma sample_world_eqs [simp]:
  "loop_closed (sample_world rs ss cs es acs) = False" "debug (sample_world rs ss cs es acs) = False"
  "sk (sample_world rs ss cs es acs) = sample_sock" "transports (sample_world rs ss cs es acs) = []"
  "ready (sample_world rs ss cs es acs) = []" "os_reg (sample_world rs ss cs es acs) = (\<lambda>_ _. None)"
  "recv_answers (sample_world rs ss cs es acs) = rs" "send_answers (sample_world rs ss cs es acs) = ss"
  "connect_answers (sample_world rs ss cs es acs) = cs" "so_errors (sample_world rs ss cs es acs) = es"
  "accept_answers (sample_world rs ss cs es acs) = acs" "wire (sample_world rs ss cs es acs) = []"
  "fds (sample_world rs ss cs es acs) = []" "n_watchers (sample_world rs ss cs es acs) = 0"
  by (simp_all add: sample_world_def new_rust_loop_def tokioop_new_def loop_state.defs tokioop_loop.defs rust_loop.defs
      sock_world.defs)

lemma sample_world_usable:
  assumes "no_exit (view (sample_world rs ss cs es acs))"
  shows "usable (sample_world rs ss cs es acs)"
  using assms
  by (simp add: usable_def open_for_def sample_sock_def i32_range_def registry_inv_def watcher_def directions_def)

text \<open>\<open>sock_sendall\<close> after its first \<open>send\<close> took \<open>n\<close> bytes.\<close>

definition sock_sendall_rest :: "bytes \<Rightarrow> nat \<Rightarrow> coro so_m" where
  "sock_sendall_rest data n =
     (if n = length data then py_ret (Returned VNone)
      else py_bind create_future (\<lambda>f. py_with next_cell (\<lambda>c.
        py_seq (py_mod (\<lambda>w. w\<lparr>cells := (cells w)(c := n), next_cell := Suc c\<rparr>))
          (py_seq (await_writable f (ScSendall f data c)) (py_ret (Awaiting f))))))"

section \<open>Receiving and sock_sendto\<close>



section \<open>sock_sendall\<close>

lemma sock_sendall_first:
  assumes "usable w"
  shows "sock_sendall data w =
    (case k_send data w of
       (Inl e, w1) \<Rightarrow> if is_blocking e then sock_sendall_rest data 0 w1 else (Inl e, w1)
     | (Inr n, w1) \<Rightarrow> sock_sendall_rest data n w1)"
  using check_sock_usable [OF assms]
  by (simp add: sock_sendall_def sock_sendall_rest_def py_seq_def py_bind_def py_try_def py_try_else_def py_ret_def
      py_raise_def split: prod.split sum.split)

lemma cell_update_commutes:
  "(w::sock_world)\<lparr>futs := a, fut_callbacks := b, next_fut := c, cells := d, next_cell := e\<rparr> =
   w\<lparr>cells := d, next_cell := e, futs := a, fut_callbacks := b, next_fut := c\<rparr>"
  by (rule sock_world.equality) simp_all

lemma sendall_tail:
  assumes "n \<noteq> length data"
  shows "sock_sendall_rest data n w =
   py_bind create_future (\<lambda>f. py_seq (await_dir False f (ScSendall f data (next_cell w))) (py_ret (Awaiting f)))
     (w\<lparr>cells := (cells w)(next_cell w := n), next_cell := Suc (next_cell w)\<rparr>)"
  using assms
  by (simp add: sock_sendall_rest_def create_future_def await_dir_def py_run_defs py_mod_def cell_update_commutes)

lemma usable_next_cell:
  assumes "usable w"
  shows "usable (w\<lparr>cells := c, next_cell := m\<rparr>)"
proof -
  from assms have w: "open_for w" "registry_inv w" by (simp_all add: usable_def open_for_def)
  from w(2) have "registry_inv (w\<lparr>cells := c, next_cell := m\<rparr>)" by (rule registry_inv_mono [rotated -1]) simp_all
  with w(1) have "open_for (w\<lparr>cells := c, next_cell := m\<rparr>)" by (rule open_for_mono) simp_all
  with assms show ?thesis by (simp add: usable_def no_exit_def view_def)
qed

text \<open>What \<open>sock_sendall\<close> does after its first \<open>send\<close>, as the reference on the cell.\<close>

lemma sock_sendall_drive:
  assumes "usable w" and "k_send data w = (r, w1)" and "r = Inr n \<or> (\<exists>e. r = Inl e \<and> is_blocking e \<and> n = 0)"
    and "n \<noteq> length data"
  shows "\<exists>w2. view w2 = view (w1\<lparr>cells := (cells w1)(next_cell w1 := n)\<rparr>) \<and>
    fst (drive False (sock_sendall data) k w) = fst (attempts (sendall_attempt data (next_cell w1)) k w2) \<and>
    view (snd (drive False (sock_sendall data) k w)) = view (snd (attempts (sendall_attempt data (next_cell w1)) k w2)) \<and>
    (fst (drive False (sock_sendall data) k w) \<noteq> None \<longrightarrow> usable (snd (drive False (sock_sendall data) k w)))"
proof -
  have ne: "no_exit (view w)" using assms(1) by (simp add: usable_def)
  have kc: "kernel_call (k_send data)" by (simp add: kernel_call_rules)
  note cl = kernel_callD(3) [OF kc ne assms(2)]
  obtain v where v: "w1 = set_view v w" using kernel_callD(1) [OF kc assms(2)] by blast
  let ?c = "next_cell w1"
  let ?w1 = "w1\<lparr>cells := (cells w1)(?c := n), next_cell := Suc ?c\<rparr>"
  have "usable ?w1" using usable_set_view [OF assms(1)] cl v by (simp add: usable_next_cell)
  from await_waiting [OF this, of False "\<lambda>f. ScSendall f data ?c"] obtain w2 where w2:
    "py_bind create_future (\<lambda>f. py_seq (await_dir False f (ScSendall f data ?c)) (py_ret (Awaiting f))) ?w1 =
       (Inr (Awaiting (next_fut ?w1)), w2)"
    "waiting False (next_fut ?w1) (ScSendall (next_fut ?w1) data ?c) w2" "view w2 = view ?w1" by blast
  have ne2: "no_exit (view w2)" using w2(3) cl by (simp add: view_def no_exit_def)
  have "sock_sendall data w = (Inr (Awaiting (next_fut ?w1)), w2)"
    using assms(2,3) sendall_tail [OF assms(4), of w1] w2(1) by (auto simp: sock_sendall_first [OF assms(1)])
  moreover have v1: "view ?w1 = view (w1\<lparr>cells := (cells w1)(?c := n)\<rparr>)" by (simp add: view_def)
  ultimately have "drive False (sock_sendall data) k w =
      (outcome (next_fut ?w1) (turns False (next_fut ?w1) k w2), turns False (next_fut ?w1) k w2)"
    by (simp add: drive_def)
  with sendall.turns_follow_attempts [OF w2(2) ne2, of k] sendall.attempts_no_exit [OF ne2] w2(3) v1 show ?thesis
    by (intro exI [of _ w2]) (auto simp: usable_def settled_def)
qed

lemma sock_sendall_first_fails:
  assumes "usable w" and "k_send data w = (Inl e, w1)" and "\<not> is_blocking e"
  shows "drive False (sock_sendall data) k w = (Some (Inl e), w1)"
  using assms(2,3) by (simp add: drive_def sock_sendall_first [OF assms(1)])

lemma sock_sendall_at_once:
  assumes "usable w" and "k_send data w = (Inr (length data), w1) \<or> data = [] \<and> (\<exists>e. k_send data w = (Inl e, w1) \<and> is_blocking e)"
  shows "drive False (sock_sendall data) k w = (Some (Inr VNone), w1)"
  using assms(2) by (auto simp: drive_def sock_sendall_first [OF assms(1)] sock_sendall_rest_def py_ret_def)

text \<open>A finished \<open>sock_sendall\<close> leaves the socket usable.\<close>

lemma sock_sendall_usable:
  assumes "usable w" and "drive False (sock_sendall data) k w = (Some r, w')"
  shows "usable w'"
proof -
  obtain q w1 where send: "k_send data w = (q, w1)" by fastforce
  have kc: "kernel_call (k_send data)" by (simp add: kernel_call_rules)
  obtain v where v: "w1 = set_view v w" using kernel_callD(1) [OF kc send] by blast
  have ne: "no_exit (view w)" using assms(1) by (simp add: usable_def)
  have u1: "usable w1" using usable_set_view [OF assms(1)] kernel_callD(3) [OF kc ne send] v by simp
  show ?thesis
  proof (cases "\<exists>n. (q = Inr n \<or> (\<exists>e. q = Inl e \<and> is_blocking e \<and> n = 0)) \<and> n \<noteq> length data")
    case True
    then obtain n where "q = Inr n \<or> (\<exists>e. q = Inl e \<and> is_blocking e \<and> n = 0)" "n \<noteq> length data" by blast
    from sock_sendall_drive [OF assms(1) send this, of k] assms(2) show ?thesis by auto
  next
    case False
    then have "w' = w1" using sock_sendall_first_fails [OF assms(1), of data _ w1 k]
        sock_sendall_at_once [OF assms(1), of data w1 k] send assms(2) by (cases q) (auto, blast+)
    with u1 show ?thesis by simp
  qed
qed

lemma sock_sendall_exact:
  assumes "usable w" and "drive False (sock_sendall data) k w = (r, w')"
  shows "(\<exists>m\<le>length data. wire w' = wire w @ take m data \<and> (r = None \<longrightarrow> m < length data) \<and>
      (\<forall>v. r = Some (Inr v) \<longrightarrow> v = VNone \<and> m = length data)) \<and>
    ((\<forall>a\<in>set (send_answers w). \<exists>n\<ge>1. a = Inr n) \<and> length data \<le> length (send_answers w) \<and> length data \<le> k \<longrightarrow>
      r = Some (Inr VNone) \<and> (\<exists>j\<le>max 1 (length data). send_answers w' = drop j (send_answers w)))"
proof -
  obtain q w1 where send: "k_send data w = (q, w1)" by fastforce
  consider e where "q = Inl e" "\<not> is_blocking e"
    | "q = Inr (length data) \<or> data = [] \<and> (\<exists>e. q = Inl e \<and> is_blocking e)"
    | n where "q = Inr n \<or> (\<exists>e. q = Inl e \<and> is_blocking e \<and> n = 0)" "n \<noteq> length data"
    by (metis list.size(3) length_0_conv old.sum.exhaust)
  then show ?thesis
  proof cases
    case 1
    with sock_sendall_first_fails [OF assms(1)] send assms(2) show ?thesis
      by (fastforce simp: k_send_cases split: list.splits sum.splits)
  next
    case 2
    then have "drive False (sock_sendall data) k w = (Some (Inr VNone), w1)"
      using sock_sendall_at_once [OF assms(1)] send by auto
    moreover have "wire w1 = wire w @ take (length data) data"
      using 2 send by (auto simp: k_send_cases split: list.splits sum.splits)
    moreover have "\<exists>j\<le>1. send_answers w1 = drop j (send_answers w)"
      using send by (auto simp: k_send_cases split: list.splits sum.splits intro: exI [of _ 0] exI [of _ 1])
    then have "\<exists>j\<le>max 1 (length data). send_answers w1 = drop j (send_answers w)" by (meson max.coboundedI1)
    ultimately show ?thesis using assms(2) by auto
  next
    case 3
    let ?c = "next_cell w1"
    from sock_sendall_drive [OF assms(1) send 3] obtain w2 where w2:
      "view w2 = view (w1\<lparr>cells := (cells w1)(?c := n)\<rparr>)"
      "fst (drive False (sock_sendall data) k w) = fst (attempts (sendall_attempt data ?c) k w2)"
      "view (snd (drive False (sock_sendall data) k w)) = view (snd (attempts (sendall_attempt data ?c) k w2))"
      by blast
    have v2: "cells w2 ?c = n" "wire w2 = wire w @ take n data" "n < length data"
      "send_answers w2 = tl (send_answers w)"
      using 3 send w2(1) by (auto simp: view_def k_send_cases fun_eq_iff split: list.splits sum.splits)
    obtain r2 w3 where a: "attempts (sendall_attempt data ?c) k w2 = (r2, w3)" by fastforce
    have r2: "r2 = r" "wire w3 = wire w'" "send_answers w3 = send_answers w'"
      using a w2(2,3) assms(2) by (simp_all add: view_def)
    have "r = Some (Inr VNone) \<and> (\<exists>j\<le>max 1 (length data). send_answers w' = drop j (send_answers w))" if
      *: "\<forall>a\<in>set (send_answers w). \<exists>n\<ge>1. a = Inr n" "length data \<le> length (send_answers w)" "length data \<le> k"
    proof -
      have "1 \<le> n" using * 3 send by (cases "send_answers w") (auto simp: k_send_cases min_def split: if_splits)
      with * v2 have "fst (attempts (sendall_attempt data ?c) k w2) = Some (Inr VNone) \<and>
        (\<exists>j\<le>length data - n. send_answers (snd (attempts (sendall_attempt data ?c) k w2)) = drop j (send_answers w2))"
        by (subst v2(1) [symmetric], intro sendall_attempts_complete) (auto dest: list.set_sel(2) [rotated])
      then obtain j where "j \<le> length data - n" "r2 = Some (Inr VNone)" "send_answers w3 = drop j (tl (send_answers w))"
        using a v2(4) by auto
      then show ?thesis using r2 \<open>1 \<le> n\<close> v2(3)
        by (intro conjI exI [of _ "Suc j"]) (auto simp: drop_Suc)
    qed
    moreover have "\<exists>m\<le>length data. wire w' = wire w @ take m data \<and> (r = None \<longrightarrow> m < length data) \<and>
      (\<forall>v. r = Some (Inr v) \<longrightarrow> v = VNone \<and> m = length data)"
      using sendall_attempts_prefix [OF _ _ a, of "wire w"] v2 r2 by simp
    ultimately show ?thesis by blast
  qed
qed

text \<open>
  C16. \<open>sock_sendall\<close> sends exactly its data: after any number of turns the bytes the kernel took are
  a prefix of the data, the whole of it exactly when the coroutine returns (with \<open>None\<close>), and a
  proper prefix while it waits; and when every \<open>send\<close> takes at least a byte, it returns after at
  most as many turns as there are bytes.
\<close>

theorem sock_sendall_sends_exactly:
  assumes "usable w" and "drive False (sock_sendall data) k w = (r, w')"
  shows "(\<exists>m\<le>length data. wire w' = wire w @ take m data \<and> (r = None \<longrightarrow> m < length data) \<and>
      (\<forall>v. r = Some (Inr v) \<longrightarrow> v = VNone \<and> m = length data)) \<and>
    ((\<forall>a\<in>set (send_answers w). \<exists>n\<ge>1. a = Inr n) \<and> length data \<le> length (send_answers w) \<and> length data \<le> k \<longrightarrow>
      r = Some (Inr VNone))"
  using sock_sendall_exact [OF assms] by simp

theorem sock_sendall_sends_exactly_witness:
  "\<exists>w'. drive False (sock_sendall [1, 2, 3]) 3 (sample_world [] [Inr 1, Inr 1, Inr 2] [] [] []) = (Some (Inr VNone), w') \<and>
     wire w' = [1, 2, 3]"
proof -
  let ?w = "sample_world [] [Inr 1, Inr 1, Inr 2] [] [] []"
  have u: "usable ?w" by (rule sample_world_usable) (auto simp: no_exit_def view_def)
  obtain r w' where d: "drive False (sock_sendall [1, 2, 3]) 3 ?w = (r, w')" by fastforce
  from sock_sendall_sends_exactly [OF u d] have "r = Some (Inr VNone)" by simp
  with sock_sendall_sends_exactly [OF u d] d show ?thesis by auto
qed

section \<open>sock_connect\<close>

lemma connect_update_commutes:
  "(w::sock_world)\<lparr>connect_answers := cs, futs := a, fut_callbacks := b, next_fut := c\<rparr> =
   w\<lparr>futs := a, fut_callbacks := b, next_fut := c, connect_answers := cs\<rparr>"
  by (rule sock_world.equality) simp_all

text \<open>Where the resolver sends the coroutine.\<close>

definition connect_target :: "(pyaddr \<Rightarrow> pyexc + pyaddr) \<Rightarrow> pyaddr \<Rightarrow> sock_world \<Rightarrow> pyexc + pyaddr" where
  "connect_target resolve a w = (if so_inet (sk w) then resolve a else Inr a)"

lemma sock_connect_start_run:
  assumes "usable w" and "connect_target resolve a w = Inr addr"
  shows "sock_connect resolve a w =
    py_bind create_future (\<lambda>f. py_seq (sock_connect_start f addr) (py_ret (Awaiting f))) w"
  using check_sock_usable [OF assms(1)] assms(2)
  by (simp add: sock_connect_def connect_target_def py_seq_def py_bind_def [of check_sock] py_bind_def [of "py_check _"]
      py_check_def)

lemma sock_connect_at_once:
  assumes "usable w" and "connect_target resolve a w = Inr addr" and "connect_answers w = r # cs"
    and "case r of None \<Rightarrow> True | Some e \<Rightarrow> \<not> is_blocking e"
  shows "drive False (sock_connect resolve a) k w =
    (Some (case r of None \<Rightarrow> Inr VNone | Some e \<Rightarrow> Inl e), snd (drive False (sock_connect resolve a) k w)) \<and>
    watcher (snd (drive False (sock_connect resolve a) k w)) = watcher w"
proof -
  have ne: "\<not> is_exit e" if "r = Some e" for e
    using assms(1,3) that by (auto simp: usable_def no_exit_def view_def)
  then show ?thesis using assms(3,4)
    by (auto simp: drive_def sock_connect_start_run [OF assms(1,2)] create_future_def sock_connect_start_def k_connect_def
        py_run_defs py_mod_def py_try_else_def set_result_def set_exception_def fut_finish_def fut_done_def on_error_def
        turns_done outcome_def watcher_def fun_eq_iff split: option.splits)
qed

lemma sock_connect_pending:
  assumes "usable w" and "connect_target resolve a w = Inr addr" and "connect_answers w = Some e # cs" and "is_blocking e"
  shows "\<exists>w2. sock_connect resolve a w = (Inr (Awaiting (next_fut w)), w2) \<and>
    waiting False (next_fut w) (ScConnectCb (next_fut w) addr) w2 \<and>
    view w2 = view (w\<lparr>connect_answers := cs\<rparr>) \<and> sk w2 = sk w \<and> no_exit (view w2)"
proof -
  let ?w1 = "w\<lparr>connect_answers := cs\<rparr>"
  have "?w1 = set_view (view ?w1) w" by (simp add: set_view_def view_def)
  moreover have "no_exit (view ?w1)" using assms(1,3) by (simp add: usable_def no_exit_def view_def)
  ultimately have "usable ?w1" using usable_set_view [OF assms(1)] by metis
  from await_waiting [OF this, of False "\<lambda>f. ScConnectCb f addr"] obtain w2 where w2:
    "py_bind create_future (\<lambda>f. py_seq (await_dir False f (ScConnectCb f addr)) (py_ret (Awaiting f))) ?w1 =
       (Inr (Awaiting (next_fut ?w1)), w2)"
    "waiting False (next_fut ?w1) (ScConnectCb (next_fut ?w1) addr) w2" "view w2 = view ?w1" "sk w2 = sk ?w1" by blast
  have "no_exit (view w2)" using w2(3) assms(1,3) by (simp add: usable_def view_def no_exit_def)
  moreover have "sock_connect resolve a w = (Inr (Awaiting (next_fut ?w1)), w2)"
    using assms(3,4) w2(1)
    by (simp add: sock_connect_start_run [OF assms(1,2)] create_future_def sock_connect_start_def k_connect_def
        await_dir_def py_run_defs py_mod_def py_try_else_def connect_update_commutes)
  ultimately show ?thesis using w2 by auto
qed

lemma sock_connect_waits:
  assumes "usable w" and "connect_target resolve a w = Inr addr" and "connect_answers w = Some e # cs" and "is_blocking e"
  shows "\<exists>w2. view w2 = view (w\<lparr>connect_answers := cs\<rparr>) \<and>
    fst (drive False (sock_connect resolve a) k w) = fst (attempts connect_attempt k w2) \<and>
    (fst (attempts connect_attempt k w2) \<noteq> None \<longrightarrow>
       watcher (snd (drive False (sock_connect resolve a) k w)) (so_fd (sk w)) False = None)"
proof -
  from sock_connect_pending [OF assms] obtain w2 where w2:
    "sock_connect resolve a w = (Inr (Awaiting (next_fut w)), w2)"
    "waiting False (next_fut w) (ScConnectCb (next_fut w) addr) w2"
    "view w2 = view (w\<lparr>connect_answers := cs\<rparr>)" "sk w2 = sk w" "no_exit (view w2)" by blast
  with connecting.turns_follow_attempts [OF w2(2) w2(5), of k] show ?thesis
    by (intro exI [of _ w2]) (auto simp: drive_def settled_def)
qed

text \<open>
  C17. \<open>sock_connect\<close> reports what the system says: an immediate answer of \<open>connect\<close> is the
  result at once; when \<open>connect\<close> is in progress, the next writability of the socket settles it by
  \<open>SO_ERROR\<close>, zero meaning success and any other error number the \<open>OSError\<close> of that number, and
  the watcher is removed; an address that does not resolve raises without touching the socket.
\<close>

theorem sock_connect_reports:
  assumes "usable w"
  shows "(connect_target resolve a w = Inl e \<longrightarrow>
      drive False (sock_connect resolve a) k w = (Some (Inl e), w)) \<and>
    (connect_target resolve a w = Inr addr \<and> connect_answers w = None # cs \<longrightarrow>
      fst (drive False (sock_connect resolve a) k w) = Some (Inr VNone)) \<and>
    (connect_target resolve a w = Inr addr \<and> connect_answers w = Some e # cs \<and> \<not> is_blocking e \<longrightarrow>
      fst (drive False (sock_connect resolve a) k w) = Some (Inl e)) \<and>
    (connect_target resolve a w = Inr addr \<and> connect_answers w = Some e # cs \<and> is_blocking e \<and>
       so_errors w = Inr err # es \<and> \<not> is_blocking (os_error err ''Connect call failed'') \<longrightarrow>
      fst (drive False (sock_connect resolve a) (Suc k) w) =
        Some (if err = 0 then Inr VNone else Inl (OSError err ''Connect call failed'')) \<and>
      watcher (snd (drive False (sock_connect resolve a) (Suc k) w)) (so_fd (sk w)) False = None)"
proof -
  have 1: "drive False (sock_connect resolve a) k w = (Some (Inl e), w)" if "connect_target resolve a w = Inl e"
    using check_sock_usable [OF assms] that
    by (simp add: drive_def sock_connect_def connect_target_def py_run_defs)
  have 4: "fst (drive False (sock_connect resolve a) (Suc k) w) =
        Some (if err = 0 then Inr VNone else Inl (OSError err ''Connect call failed'')) \<and>
      watcher (snd (drive False (sock_connect resolve a) (Suc k) w)) (so_fd (sk w)) False = None"
    if "connect_target resolve a w = Inr addr" "connect_answers w = Some e # cs" "is_blocking e"
      "so_errors w = Inr err # es" "\<not> is_blocking (os_error err ''Connect call failed'')"
  proof -
    from sock_connect_waits [OF assms that(1-3), of "Suc k"] obtain w2 where w2:
      "view w2 = view (w\<lparr>connect_answers := cs\<rparr>)"
      "fst (drive False (sock_connect resolve a) (Suc k) w) = fst (attempts connect_attempt (Suc k) w2)"
      "fst (attempts connect_attempt (Suc k) w2) \<noteq> None \<longrightarrow>
         watcher (snd (drive False (sock_connect resolve a) (Suc k) w)) (so_fd (sk w)) False = None" by blast
    have "so_errors w2 = Inr err # es" using w2(1) that(4) by (simp add: view_def)
    then have "fst (attempts connect_attempt (Suc k) w2) =
        Some (if err = 0 then Inr VNone else Inl (OSError err ''Connect call failed''))"
      using that(5) by (auto simp: connect_attempt_def k_so_error_def py_run_defs py_mod_def os_error_def split: if_splits)
    with w2 show ?thesis by simp
  qed
  have 2: "fst (drive False (sock_connect resolve a) k w) = Some (case r of None \<Rightarrow> Inr VNone | Some e \<Rightarrow> Inl e)"
    if "connect_target resolve a w = Inr addr" "connect_answers w = r # cs" "case r of None \<Rightarrow> True | Some e \<Rightarrow> \<not> is_blocking e"
    for r
    by (subst sock_connect_at_once [OF assms that, THEN conjunct1]) simp
  show ?thesis using 1 4 2 [of None] 2 [of "Some e"] by simp
qed

theorem sock_connect_reports_witness:
  "fst (drive False (sock_connect Inr NoAddr) 1 (sample_world [] [] [Some BlockingIOError] [Inr 111] [])) =
     Some (Inl (OSError 111 ''Connect call failed''))"
proof -
  let ?w = "sample_world [] [] [Some BlockingIOError] [Inr 111] []"
  have "usable ?w" by (rule sample_world_usable) (auto simp: no_exit_def view_def)
  from sock_connect_reports [OF this, of Inr NoAddr BlockingIOError 0 NoAddr "[]" 111 "[]"] show ?thesis
    by (simp add: connect_target_def os_error_def)
qed

end
