(* ===== verification/Socket_Transport.thy ===== *)
theory Socket_Transport
  imports Transport_Base "HOL-Library.Sublist"
begin

text \<open>
  \<open>_SelectorSocketTransport\<close> of \<^verbatim>\<open>src/python/tokioop/transports.py\<close>: the stream transport.

  The socket's answers are scripts: \<open>send_script\<close> and \<open>recv_script\<close> list what the next
  \<open>send\<close>/\<open>sendmsg\<close> and \<open>recv\<close>/\<open>recv_into\<close> calls do (raise, accept up to \<open>n\<close> bytes,
  return data); past its end a script answers \<open>BlockingIOError\<close>. \<open>sent\<close> holds the bytes
  the kernel accepted, in order. Two history variables that no method reads are kept by the
  callers at the end of the theory: \<open>accepted\<close>, the bytes given to \<open>write\<close> and
  \<open>writelines\<close> while the transport was open, and \<open>arrived\<close>, what the reader task gave
  to the transport.
\<close>

section \<open>Data\<close>

datatype fut_state = FutPending | FutResult | FutException pyexc | FutCancelled

datatype write_method = WriteSendmsg | WriteSend

datatype read_method = ReadGetBuffer | ReadDataReceived

record sock_transport = "bytes selector_transport" +
  eof :: bool
  empty_waiter :: "fut_state option"
  write_ready_m :: "write_method option"
  read_ready_cb :: "read_method option"
  send_script :: "(pyexc + nat) list"
  recv_script :: "(pyexc + bytes) list"
  shutdown_exc :: "pyexc option"
  sent :: bytes
  shut_wr :: bool
  iov_max :: nat
  accepted :: bytes
  arrived :: "replay_item list"

type_synonym 'a sock_m = "(sock_transport, 'a) py"

section \<open>The socket\<close>

text \<open>\<open>send(data)\<close>: raises, or takes the first \<open>n\<close> bytes of the data and returns their number.\<close>

definition kernel_send :: "bytes \<Rightarrow> nat sock_m" where
  "kernel_send data =
     py_seq need_sock
       (py_with send_script (\<lambda>s. case s of
          [] \<Rightarrow> py_raise BlockingIOError
        | a # rest \<Rightarrow>
            py_seq (py_mod (\<lambda>w. w\<lparr>send_script := rest\<rparr>))
              (case a of
                 Inl e \<Rightarrow> py_raise e
               | Inr n \<Rightarrow>
                   py_seq (py_mod (\<lambda>w. w\<lparr>sent := sent w @ take n data\<rparr>)) (py_ret (min n (length data))))))"

definition kernel_recv :: "nat \<Rightarrow> bytes sock_m" where
  "kernel_recv n =
     py_seq need_sock
       (py_with recv_script (\<lambda>s. case s of
          [] \<Rightarrow> py_raise BlockingIOError
        | a # rest \<Rightarrow>
            py_seq (py_mod (\<lambda>w. w\<lparr>recv_script := rest\<rparr>))
              (case a of Inl e \<Rightarrow> py_raise e | Inr d \<Rightarrow> py_ret (take n d))))"

definition shutdown_wr :: "unit sock_m" where
  "shutdown_wr =
     py_seq need_sock
       (py_with shutdown_exc (\<lambda>e. case e of
          Some x \<Rightarrow> py_raise x
        | None \<Rightarrow> py_mod (\<lambda>w. w\<lparr>shut_wr := True\<rparr>)))"

text \<open>\<open>Future.set_result\<close> and \<open>set_exception\<close> on the waiter: a future that is done refuses.\<close>

definition waiter_set :: "fut_state \<Rightarrow> unit sock_m" where
  "waiter_set v =
     py_with empty_waiter (\<lambda>f.
       if f = Some FutPending then py_mod (\<lambda>w. w\<lparr>empty_waiter := Some v\<rparr>)
       else py_raise InvalidStateError)"

section \<open>Closing\<close>

definition sock_close :: "unit sock_m" where
  "sock_close = py_seq (py_mod (\<lambda>w. w\<lparr>read_ready_cb := None\<rparr>)) base_close"

definition call_connection_lost :: "sock_transport proto \<Rightarrow> pyexc option \<Rightarrow> unit sock_m" where
  "call_connection_lost P exc =
     py_finally (base_call_connection_lost P exc)
       (py_seq (py_mod (\<lambda>w. w\<lparr>write_ready_m := None\<rparr>))
         (py_when (\<lambda>w. empty_waiter w \<noteq> None)
           (waiter_set (FutException (ConnectionError ''Connection is closed by peer'')))))"

section \<open>Reading\<close>

definition read_ready_on_eof :: "sock_transport proto \<Rightarrow> unit sock_m" where
  "read_ready_on_eof P =
     py_seq need_loop
       (py_try_else (call_protocol P EofReceived)
         (on_error (\<lambda>e. fatal_error P e ''Fatal error: protocol.eof_received() call failed.''))
         (\<lambda>keep_open. if keep_open \<noteq> 0 then remove_reader_of else sock_close))"

definition deliver_stream :: "sock_transport proto \<Rightarrow> bytes \<Rightarrow> unit sock_m" where
  "deliver_stream P data =
     (if data = [] then read_ready_on_eof P
      else py_try_else (call_protocol P (DataReceived data))
             (on_error (\<lambda>e. fatal_error P e ''Fatal error: protocol.data_received() call failed.''))
             (\<lambda>_. py_ret ()))"

definition deliver_error :: "sock_transport proto \<Rightarrow> pyexc \<Rightarrow> unit sock_m" where
  "deliver_error P e = fatal_error P e ''Fatal read error on socket transport''"

text \<open>Running a replay closure; a stream transport queues no datagrams.\<close>

definition replay_deliver :: "sock_transport proto \<Rightarrow> replay_item \<Rightarrow> unit sock_m" where
  "replay_deliver P it =
     (case it of
        ReplayStream d \<Rightarrow> deliver_stream P d
      | ReplayError e \<Rightarrow> deliver_error P e
      | ReplayDatagram d a \<Rightarrow> py_ret ())"

definition drain_stream :: "sock_transport proto \<Rightarrow> bytes \<Rightarrow> unit sock_m" where
  "drain_stream P data =
     py_if (\<lambda>w. conn_lost w \<noteq> 0 \<or> closing w) (py_ret ())
       (py_if paused (py_mod (\<lambda>w. w\<lparr>replay := replay w @ [ReplayStream data]\<rparr>))
         (deliver_stream P data))"

definition drain_error :: "sock_transport proto \<Rightarrow> pyexc \<Rightarrow> unit sock_m" where
  "drain_error P e =
     py_if (\<lambda>w. conn_lost w \<noteq> 0 \<or> closing w) (py_ret ())
       (py_if paused (py_mod (\<lambda>w. w\<lparr>replay := replay w @ [ReplayError e]\<rparr>))
         (deliver_error P e))"

definition sock_resume_reading :: "sock_transport proto \<Rightarrow> unit sock_m" where
  "sock_resume_reading P = resume_reading (replay_deliver P)"

definition read_ready_get_buffer :: "sock_transport proto \<Rightarrow> unit sock_m" where
  "read_ready_get_buffer P =
     py_if (\<lambda>w. conn_lost w \<noteq> 0) (py_ret ())
       (py_try_else
         (py_bind (call_protocol P GetBuffer)
           (\<lambda>n. if n = 0 then py_raise (RuntimeError ''get_buffer() returned an empty buffer'') else py_ret n))
         (on_error (\<lambda>e. fatal_error P e ''Fatal error: protocol.get_buffer() call failed.''))
         (\<lambda>n. py_try_else (kernel_recv n)
           (\<lambda>e. if is_blocking e then py_ret ()
                else on_error (\<lambda>e. fatal_error P e ''Fatal read error on socket transport'') e)
           (\<lambda>d. if d = [] then read_ready_on_eof P
                else py_try_else (call_protocol P (BufferUpdated (length d)))
                  (on_error (\<lambda>e. fatal_error P e ''Fatal error: protocol.buffer_updated() call failed.''))
                  (\<lambda>_. py_ret ()))))"

text \<open>\<open>MAX_STREAM_READS_PER_EVENT\<close> and the burst loop of \<open>_read_ready__data_received\<close>.\<close>

definition max_stream_reads_per_event :: nat where
  "max_stream_reads_per_event = 16"

primrec read_burst :: "nat \<Rightarrow> sock_transport proto \<Rightarrow> unit sock_m" where
  "read_burst 0 P = py_ret ()"
| "read_burst (Suc k) P =
     py_try_else (kernel_recv max_size)
       (\<lambda>e. if is_blocking e then py_ret ()
            else on_error (\<lambda>e. fatal_error P e ''Fatal read error on socket transport'') e)
       (\<lambda>d. if d = [] then read_ready_on_eof P
            else py_try_else (call_protocol P (DataReceived d))
              (on_error (\<lambda>e. fatal_error P e ''Fatal error: protocol.data_received() call failed.''))
              (\<lambda>_. py_if (\<lambda>w. conn_lost w \<noteq> 0 \<or> closing w \<or> paused w) (py_ret ()) (read_burst k P)))"

definition read_ready_data_received :: "sock_transport proto \<Rightarrow> unit sock_m" where
  "read_ready_data_received P =
     py_if (\<lambda>w. conn_lost w \<noteq> 0) (py_ret ()) (read_burst max_stream_reads_per_event P)"

text \<open>\<open>_read_ready\<close>: calling \<open>None\<close> is a \<open>TypeError\<close>.\<close>

definition read_ready :: "sock_transport proto \<Rightarrow> unit sock_m" where
  "read_ready P =
     py_with read_ready_cb (\<lambda>m. case m of
        None \<Rightarrow> py_raise (TypeError ''NoneType object is not callable'')
      | Some ReadGetBuffer \<Rightarrow> read_ready_get_buffer P
      | Some ReadDataReceived \<Rightarrow> read_ready_data_received P)"

section \<open>Writing\<close>

definition get_write_buffer_size :: "(bytes, 'x) selector_transport_scheme \<Rightarrow> nat" where
  "get_write_buffer_size w = sum_list (map length (buffer w))"

text \<open>What follows a successful write in \<open>_write_sendmsg\<close> and \<open>_write_send\<close>.\<close>

definition write_drained :: "sock_transport proto \<Rightarrow> unit sock_m" where
  "write_drained P =
     py_seq (maybe_resume_protocol get_write_buffer_size P)
       (py_when (\<lambda>w. buffer w = [])
         (py_seq remove_writer_of
           (py_seq (py_when (\<lambda>w. empty_waiter w \<noteq> None) (waiter_set FutResult))
             (py_if closing (call_connection_lost P None) (py_when eof shutdown_wr)))))"

text \<open>The \<open>except BaseException\<close> clause of both.\<close>

definition write_failed :: "sock_transport proto \<Rightarrow> pyexc \<Rightarrow> unit sock_m" where
  "write_failed P e =
     (if is_blocking e then py_ret ()
      else on_error (\<lambda>e.
        py_seq remove_writer_of
          (py_seq (py_mod (\<lambda>w. w\<lparr>buffer := []\<rparr>))
            (py_seq (fatal_error P e ''Fatal write error on socket transport'')
              (py_when (\<lambda>w. empty_waiter w \<noteq> None) (waiter_set (FutException e)))))) e)"

text \<open>\<open>_adjust_leftover_buffer\<close>; \<open>popleft\<close> on an empty deque is an \<open>IndexError\<close>.\<close>

fun adjust_leftover_buffer :: "nat \<Rightarrow> bytes list \<Rightarrow> pyexc + bytes list" where
  "adjust_leftover_buffer 0 buf = Inr buf"
| "adjust_leftover_buffer (Suc n) [] = Inl (IndexError ''pop from an empty deque'')"
| "adjust_leftover_buffer (Suc n) (b # buf) =
     (if length b \<le> Suc n then adjust_leftover_buffer (Suc n - length b) buf
      else Inr (drop (Suc n) b # buf))"

definition get_sendmsg_buffer :: "sock_transport \<Rightarrow> bytes list" where
  "get_sendmsg_buffer w = take (iov_max w) (buffer w)"

definition adjust_buffer :: "nat \<Rightarrow> unit sock_m" where
  "adjust_buffer n =
     py_bind (py_check (\<lambda>w. adjust_leftover_buffer n (buffer w))) (\<lambda>b. py_mod (\<lambda>w. w\<lparr>buffer := b\<rparr>))"

definition write_sendmsg :: "sock_transport proto \<Rightarrow> unit sock_m" where
  "write_sendmsg P =
     py_if (\<lambda>w. buffer w = []) (py_raise (AssertionError ''Data should not be empty''))
       (py_if (\<lambda>w. conn_lost w \<noteq> 0) (py_ret ())
         (py_try_else
           (py_bind (py_with get_sendmsg_buffer (\<lambda>bs. kernel_send (concat bs))) adjust_buffer)
           (write_failed P) (\<lambda>_. write_drained P)))"

definition write_send :: "sock_transport proto \<Rightarrow> unit sock_m" where
  "write_send P =
     py_if (\<lambda>w. buffer w = []) (py_raise (AssertionError ''Data should not be empty''))
       (py_if (\<lambda>w. conn_lost w \<noteq> 0) (py_ret ())
         (py_try_else
           (py_with (\<lambda>w. hd (buffer w)) (\<lambda>b.
             py_seq (py_mod (\<lambda>w. w\<lparr>buffer := tl (buffer w)\<rparr>))
               (py_bind (kernel_send b) (\<lambda>n.
                 if n \<noteq> length b then py_mod (\<lambda>w. w\<lparr>buffer := drop n b # buffer w\<rparr>) else py_ret ()))))
           (write_failed P) (\<lambda>_. write_drained P)))"

definition write_ready :: "sock_transport proto \<Rightarrow> unit sock_m" where
  "write_ready P =
     py_with write_ready_m (\<lambda>m. case m of
        None \<Rightarrow> py_raise (TypeError ''NoneType object is not callable'')
      | Some WriteSendmsg \<Rightarrow> write_sendmsg P
      | Some WriteSend \<Rightarrow> write_send P)"

text \<open>An argument of \<open>write\<close>: bytes-like, or another object.\<close>

datatype pydata = BytesLike bytes | NotBytes

text \<open>\<open>LOG_THRESHOLD_FOR_CONNLOST_WRITES\<close> and the writes to a lost connection.\<close>

definition log_threshold_for_connlost_writes :: nat where
  "log_threshold_for_connlost_writes = 5"

definition count_lost_write :: "(('e, 'x) selector_transport_scheme, unit) py" where
  "count_lost_write =
     py_mod (\<lambda>w. w\<lparr>connlost_warnings := (if log_threshold_for_connlost_writes \<le> conn_lost w
                 then connlost_warnings w + 1 else connlost_warnings w),
               conn_lost := Suc (conn_lost w)\<rparr>)"

text \<open>The value of \<open>self._write_ready\<close> given to \<open>_add_writer\<close>.\<close>

definition write_cb :: "write_method option \<Rightarrow> tcb" where
  "write_cb m = (case m of Some WriteSendmsg \<Rightarrow> CbWriteSendmsg | Some WriteSend \<Rightarrow> CbWriteSend | None \<Rightarrow> CbNone)"

definition add_write_ready :: "unit sock_m" where
  "add_write_ready = py_with write_ready_m (\<lambda>m. add_writer_of (write_cb m))"

definition append_data :: "sock_transport proto \<Rightarrow> bytes \<Rightarrow> unit sock_m" where
  "append_data P data =
     py_seq (py_mod (\<lambda>w. w\<lparr>buffer := buffer w @ [data]\<rparr>)) (maybe_pause_protocol get_write_buffer_size P)"

definition tr_write :: "sock_transport proto \<Rightarrow> pydata \<Rightarrow> unit sock_m" where
  "tr_write P x =
     (case x of
        NotBytes \<Rightarrow> py_raise (TypeError ''data argument must be a bytes, bytearray, or memoryview object'')
      | BytesLike data \<Rightarrow>
          py_if eof (py_raise (RuntimeError ''Cannot call write() after write_eof()''))
           (py_if (\<lambda>w. empty_waiter w \<noteq> None)
              (py_raise (RuntimeError ''unable to write; sendfile is in progress''))
             (if data = [] then py_ret ()
              else py_if (\<lambda>w. conn_lost w \<noteq> 0) count_lost_write
                (py_if (\<lambda>w. buffer w \<noteq> []) (append_data P data)
                  (py_try_else (kernel_send data)
                    (\<lambda>e. if is_blocking e then py_seq add_write_ready (append_data P data)
                         else on_error (\<lambda>e. fatal_error P e ''Fatal write error on socket transport'') e)
                    (\<lambda>n. if drop n data = [] then py_ret ()
                         else py_seq add_write_ready (append_data P (drop n data))))))))"

definition write_eof :: "unit sock_m" where
  "write_eof =
     py_if (\<lambda>w. closing w \<or> eof w) (py_ret ())
       (py_seq (py_mod (\<lambda>w. w\<lparr>eof := True\<rparr>)) (py_when (\<lambda>w. buffer w = []) shutdown_wr))"

definition writelines :: "sock_transport proto \<Rightarrow> bytes list \<Rightarrow> unit sock_m" where
  "writelines P list_of_data =
     py_if eof (py_raise (RuntimeError ''Cannot call writelines() after write_eof()''))
       (py_if (\<lambda>w. empty_waiter w \<noteq> None)
          (py_raise (RuntimeError ''unable to writelines; sendfile is in progress''))
         (if list_of_data = [] then py_ret ()
          else py_if (\<lambda>w. conn_lost w \<noteq> 0) count_lost_write
            (py_seq (py_mod (\<lambda>w. w\<lparr>buffer := buffer w @ list_of_data\<rparr>))
              (py_seq (write_ready P)
                (py_when (\<lambda>w. buffer w \<noteq> [])
                  (py_seq add_write_ready (maybe_pause_protocol get_write_buffer_size P)))))))"

section \<open>The waiter of sendfile\<close>

definition make_empty_waiter :: "unit sock_m" where
  "make_empty_waiter =
     py_if (\<lambda>w. empty_waiter w \<noteq> None) (py_raise (RuntimeError ''Empty waiter is already set''))
       (py_seq need_loop
         (py_seq (py_mod (\<lambda>w. w\<lparr>empty_waiter := Some FutPending\<rparr>))
           (py_when (\<lambda>w. buffer w = []) (waiter_set FutResult))))"

definition reset_empty_waiter :: "unit sock_m" where
  "reset_empty_waiter = py_mod (\<lambda>w. w\<lparr>empty_waiter := None\<rparr>)"

section \<open>Protocol changes and construction\<close>

text \<open>\<open>set_protocol\<close>; with \<open>in_init\<close> it runs in the constructor, before \<open>_closing\<close> and
  \<open>_paused\<close> exist: the tests through \<open>getattr\<close> pass, and \<open>is_reading\<close> raises.\<close>

definition sock_set_protocol :: "bool \<Rightarrow> proto_kind \<Rightarrow> unit sock_m" where
  "sock_set_protocol in_init k =
     (let (cb, kind) = (case k of BufferedProtocol \<Rightarrow> (ReadGetBuffer, None)
                                | PlainProtocol \<Rightarrow> (ReadDataReceived, Some DrainTcp))
      in py_seq (py_mod (\<lambda>w. w\<lparr>read_ready_cb := Some cb\<rparr>))
          (py_seq
            (py_when (\<lambda>w. kind \<noteq> drain_mode w)
              (py_seq (py_mod (\<lambda>w. w\<lparr>drain_mode := kind\<rparr>))
                (py_when (\<lambda>w. has_loop w \<and> \<not> loop_closed (loop w) \<and> (in_init \<or> \<not> closing w) \<and>
                             (in_init \<or> \<not> paused w) \<and> is_polling (loop w) (sock_fd w) True)
                  (py_seq remove_reader_of
                    (if in_init then py_raise (AttributeError ''_closing'') else register_reader)))))
            (set_protocol k)))"

text \<open>\<open>__init__\<close> on a loop: the base attributes, the protocol, and the scheduled
  \<open>connection_made\<close>, \<open>_register_reader\<close> and waiter.\<close>

definition sock_init ::
  "proto_kind \<Rightarrow> write_method \<Rightarrow> nat option \<Rightarrow> unit sock_m" where
  "sock_init k wm waiter =
     py_seq (sock_set_protocol True k)
       (py_seq (py_mod (\<lambda>w. w\<lparr>eof := False, empty_waiter := None, write_ready_m := Some wm\<rparr>))
         (py_seq (call_soon_of CbConnectionMade [])
           (py_seq (call_soon_of CbRegisterReader [])
             (case waiter of None \<Rightarrow> py_ret () | Some f \<Rightarrow> call_soon_of (CbSetWaiter f) [ANone]))))"

definition new_sock_transport ::
  "tcb loop_state \<Rightarrow> int \<Rightarrow> pyaddr option \<Rightarrow> nat option \<Rightarrow> int \<Rightarrow> nat \<Rightarrow>
     (pyexc + nat) list \<Rightarrow> (pyexc + bytes) list \<Rightarrow> sock_transport" where
  "new_sock_transport l fd peer srv active iov ss rs =
     selector_transport.extend (init_transport l fd peer srv active (Some DrainTcp))
       \<lparr>eof = False, empty_waiter = None, write_ready_m = None, read_ready_cb = None,
        send_script = ss, recv_script = rs, shutdown_exc = None, sent = [], shut_wr = False, iov_max = iov,
        accepted = [], arrived = []\<rparr>"

section \<open>What the loop runs\<close>

text \<open>A callback of the transport that the loop invokes, with its arguments. The bound method
  \<open>connection_made\<close> was taken from the protocol when it was scheduled.\<close>

fun run_tcb :: "sock_transport proto \<Rightarrow> tcb \<Rightarrow> pyarg list \<Rightarrow> unit sock_m" where
  "run_tcb P CbConnectionMade args =
     py_seq (py_mod (\<lambda>w. w\<lparr>log := log w @ [ConnectionMade]\<rparr>)) (py_seq (P ConnectionMade) (py_ret ()))"
| "run_tcb P CbRegisterReader args = register_reader"
| "run_tcb P CbCallConnectionLost [AExc e] = call_connection_lost P (Some e)"
| "run_tcb P CbCallConnectionLost args = call_connection_lost P None"
| "run_tcb P CbReadReady args = read_ready P"
| "run_tcb P CbWriteSendmsg args = write_sendmsg P"
| "run_tcb P CbWriteSend args = write_send P"
| "run_tcb P CbDrainStream [ABytes d] = drain_stream P d"
| "run_tcb P CbDrainError [AExc e] = drain_error P e"
| "run_tcb P _ args = py_ret ()"

text \<open>What a client of the transport calls, the protocol's own methods included, with the
  history variable \<open>accepted\<close>. A client changes the protocol only of a transport that is not
  closing.\<close>

datatype tr_op =
    OpWrite pydata
  | OpWritelines "bytes list"
  | OpWriteEof
  | OpClose
  | OpAbort
  | OpPauseReading
  | OpResumeReading
  | OpSetProtocol proto_kind
  | OpSetLimits "nat option" "nat option"

definition takes_writes :: "sock_transport \<Rightarrow> bool" where
  "takes_writes w \<longleftrightarrow> has_sock w \<and> \<not> eof w \<and> empty_waiter w = None \<and> conn_lost w = 0"

definition note_write :: "bytes \<Rightarrow> unit sock_m" where
  "note_write d = py_when takes_writes (py_mod (\<lambda>w. w\<lparr>accepted := accepted w @ d\<rparr>))"

fun exec_op :: "sock_transport proto \<Rightarrow> tr_op \<Rightarrow> unit sock_m" where
  "exec_op P (OpWrite x) =
     py_seq (case x of BytesLike d \<Rightarrow> note_write d | NotBytes \<Rightarrow> py_ret ()) (tr_write P x)"
| "exec_op P (OpWritelines ds) = py_seq (note_write (concat ds)) (writelines P ds)"
| "exec_op P OpWriteEof = write_eof"
| "exec_op P OpClose = sock_close"
| "exec_op P OpAbort = abort"
| "exec_op P OpPauseReading = pause_reading"
| "exec_op P OpResumeReading = sock_resume_reading P"
| "exec_op P (OpSetProtocol k) = py_when (\<lambda>w. \<not> closing w) (sock_set_protocol False k)"
| "exec_op P (OpSetLimits h l) = set_write_buffer_limits get_write_buffer_size P h l"

text \<open>
  A protocol as a program: from an event and the state it chooses transport operations to call
  and its outcome. An operation's exception that the program lets through is one of its
  outcomes. The number bounds how deep protocol calls nest inside protocol calls, as the
  interpreter's stack does.
\<close>

type_synonym proto_prog = "proto_event \<Rightarrow> sock_transport \<Rightarrow> tr_op list \<times> (pyexc + nat)"

fun plain_op :: "tr_op \<Rightarrow> bool" where
  "plain_op (OpSetProtocol k) = (k = PlainProtocol)"
| "plain_op _ = True"

text \<open>
  Programs for which the properties of the stream transport are stated: they stay with plain
  protocols, do not raise \<open>SystemExit\<close> or \<open>KeyboardInterrupt\<close>, and leave the transport
  alone in \<open>connection_lost\<close> and in the exception handler.
\<close>

fun passive_event :: "proto_event \<Rightarrow> bool" where
  "passive_event (ConnectionLost _) = True"
| "passive_event (ExceptionHandler _ _) = True"
| "passive_event _ = False"

definition tame :: "proto_prog \<Rightarrow> proto_prog" where
  "tame prog ev w =
     (if passive_event ev then [] else filter plain_op (fst (prog ev w)),
      case snd (prog ev w) of Inl e \<Rightarrow> if is_exit e then Inr 0 else Inl e | Inr x \<Rightarrow> Inr x)"

definition tame_prog :: "proto_prog \<Rightarrow> bool" where
  "tame_prog prog \<longleftrightarrow> (\<forall>ev w. list_all plain_op (fst (prog ev w)) \<and>
     (passive_event ev \<longrightarrow> fst (prog ev w) = []) \<and> (\<forall>e. snd (prog ev w) = Inl e \<longrightarrow> \<not> is_exit e))"

definition run_ops :: "sock_transport proto \<Rightarrow> tr_op list \<Rightarrow> sock_transport \<Rightarrow> sock_transport" where
  "run_ops P ops w = fold (\<lambda>op w. snd (exec_op P op w)) ops w"

primrec run_proto :: "proto_prog \<Rightarrow> nat \<Rightarrow> sock_transport proto" where
  "run_proto prog 0 = (\<lambda>ev w. (snd (prog ev w), w))"
| "run_proto prog (Suc n) = (\<lambda>ev w. (snd (prog ev w), run_ops (run_proto prog n) (fst (prog ev w)) w))"

text \<open>
  The life of a transport: its clients call it, the loop runs what it scheduled, the reader
  task delivers, the writer is ready, and the kernel's future answers change.
\<close>

inductive tr_step :: "sock_transport proto \<Rightarrow> sock_transport \<Rightarrow> sock_transport \<Rightarrow> bool" for P where
  client: "plain_op op \<Longrightarrow> tr_step P w (snd (exec_op P op w))"
| scheduled: "ready (loop w) = e # rest \<Longrightarrow>
    tr_step P w (snd (run_tcb P (re_callback e) (re_args e) (w\<lparr>loop := (loop w)\<lparr>ready := rest\<rparr>\<rparr>)))"
| chunk: "w1 = (if conn_lost w = 0 \<and> \<not> closing w then w\<lparr>arrived := arrived w @ [ReplayStream d]\<rparr> else w) \<Longrightarrow>
    tr_step P w (snd (drain_stream P d w1))"
| read_error: "w1 = (if conn_lost w = 0 \<and> \<not> closing w then w\<lparr>arrived := arrived w @ [ReplayError e]\<rparr> else w) \<Longrightarrow>
    tr_step P w (snd (drain_error P e w1))"
| writable: "tr_step P w (snd (write_sendmsg P w))"
| kernel: "(\<forall>e. Inl e \<in> set ss \<longrightarrow> \<not> is_exit e) \<Longrightarrow> tr_step P w (w\<lparr>send_script := ss\<rparr>)"

inductive tr_reach :: "sock_transport proto \<Rightarrow> sock_transport \<Rightarrow> sock_transport \<Rightarrow> bool" for P w0 where
  tr_start: "tr_reach P w0 w0"
| tr_next: "tr_reach P w0 w \<Longrightarrow> tr_step P w w' \<Longrightarrow> tr_reach P w0 w'"

end
