(* ===== verification/Sendfile.thy ===== *)
theory Sendfile
  imports Sock_Properties Socket_Transport
begin

text \<open>
  Sending files: \<open>sock_sendfile\<close> and \<open>sendfile\<close> of \<^verbatim>\<open>src/python/tokioop/loop.py\<close>. Both fall back
  on the same loop, which reads blocks of the file into one buffer and sends them; \<open>copy_loop\<close> is
  that loop over what reading and sending do. The socket version sends with \<open>sock_sendall\<close>; the
  transport version writes views of the buffer to the transport, whose write buffer keeps them:
  there the buffer is an explicit store that the queued chunks alias.

  A file is its contents and position, with a script of what the next reads answer: an exception, or
  the most bytes the read returns (past its end a read returns what it is asked for).
\<close>

section \<open>Files\<close>

record file_obj =
  f_binary :: bool
  f_seekable :: bool
  f_content :: bytes
  f_pos :: nat
  f_reads :: "(pyexc + nat) list"

definition f_rest :: "file_obj \<Rightarrow> bytes" where
  "f_rest f = drop (f_pos f) (f_content f)"

definition readinto :: "nat \<Rightarrow> file_obj \<Rightarrow> (pyexc + bytes) \<times> file_obj" where
  "readinto n f =
     (case f_reads f of
        Inl e # rs \<Rightarrow> (Inl e, f\<lparr>f_reads := rs\<rparr>)
      | Inr m # rs \<Rightarrow> (let d = take (min m n) (f_rest f) in (Inr d, f\<lparr>f_reads := rs, f_pos := f_pos f + length d\<rparr>))
      | [] \<Rightarrow> (let d = take n (f_rest f) in (Inr d, f\<lparr>f_pos := f_pos f + length d\<rparr>)))"

text \<open>\<open>if hasattr(file, "seek"): file.seek(p)\<close>.\<close>

definition f_seek :: "nat \<Rightarrow> file_obj \<Rightarrow> file_obj" where
  "f_seek p f = (if f_seekable f then f\<lparr>f_pos := p\<rparr> else f)"

section \<open>Parameters\<close>

datatype numarg = NumInt int | NumOther

definition check_sendfile_params :: "sock_obj \<Rightarrow> file_obj \<Rightarrow> numarg \<Rightarrow> numarg option \<Rightarrow> pyexc + unit" where
  "check_sendfile_params s f offset cnt =
     (if \<not> f_binary f then Inl (ValueError ''file should be opened in binary mode'')
      else if \<not> so_stream s then Inl (ValueError ''only SOCK_STREAM type sockets are supported'')
      else
        (case (case cnt of
                 None \<Rightarrow> Inr ()
               | Some NumOther \<Rightarrow> Inl (TypeError ''count must be a positive integer'')
               | Some (NumInt c) \<Rightarrow> if c \<le> 0 then Inl (ValueError ''count must be a positive integer'') else Inr ()) of
           Inl e \<Rightarrow> Inl e
         | Inr _ \<Rightarrow>
             (case offset of
                NumOther \<Rightarrow> Inl (TypeError ''offset must be a non-negative integer'')
              | NumInt n \<Rightarrow> if n < 0 then Inl (ValueError ''offset must be a non-negative integer'') else Inr ())))"

text \<open>The numbers, once they have passed the checks.\<close>

fun num_nat :: "numarg \<Rightarrow> nat" where
  "num_nat (NumInt n) = nat n"
| "num_nat NumOther = 0"

section \<open>The fallback loop\<close>

text \<open>An await ends with a result or an exception, or is still waiting; \<open>NoFuel\<close> marks a loop that
  was cut off.\<close>

datatype 'a await = Done "pyexc + 'a" | Waiting | NoFuel

text \<open>\<open>min(count - total_sent, blocksize)\<close>, when a count is given.\<close>

definition next_block :: "nat option \<Rightarrow> nat \<Rightarrow> nat \<Rightarrow> nat" where
  "next_block cnt tot bs = (case cnt of None \<Rightarrow> bs | Some c \<Rightarrow> min (c - tot) bs)"

primrec copy_loop ::
  "(nat \<Rightarrow> 's \<Rightarrow> (pyexc + bytes) \<times> 's) \<Rightarrow> (bytes \<Rightarrow> 's \<Rightarrow> unit await \<times> 's) \<Rightarrow> nat option \<Rightarrow>
     nat \<Rightarrow> nat \<Rightarrow> nat \<Rightarrow> 's \<Rightarrow> nat await \<times> nat \<times> 's" where
  "copy_loop rd sd cnt 0 bs tot s = (NoFuel, tot, s)"
| "copy_loop rd sd cnt (Suc fuel) bs tot s =
     (let bs1 = next_block cnt tot bs
      in if cnt \<noteq> None \<and> bs1 = 0 then (Done (Inr tot), tot, s)
         else
           (case rd bs1 s of
              (Inl e, s1) \<Rightarrow> (Done (Inl e), tot, s1)
            | (Inr d, s1) \<Rightarrow>
                if d = [] then (Done (Inr tot), tot, s1)
                else
                  (case sd d s1 of
                     (Done (Inl e), s2) \<Rightarrow> (Done (Inl e), tot, s2)
                   | (Done (Inr _), s2) \<Rightarrow> copy_loop rd sd cnt fuel bs1 (tot + length d) s2
                   | (Waiting, s2) \<Rightarrow> (Waiting, tot, s2)
                   | (NoFuel, s2) \<Rightarrow> (NoFuel, tot, s2))))"

text \<open>\<open>count\<close> tested for truth, and the size of the buffer.\<close>

definition truthy :: "nat option \<Rightarrow> nat option" where
  "truthy cnt = (if cnt = Some 0 then None else cnt)"

definition first_block :: "nat \<Rightarrow> nat option \<Rightarrow> nat" where
  "first_block sz cnt = (case truthy cnt of None \<Rightarrow> sz | Some c \<Rightarrow> min c sz)"

section \<open>sock_sendfile\<close>

text \<open>State of the socket version: the file and the world of the socket. \<open>k\<close> turns of the loop are
  given to every await, and \<open>fresh\<close> is the identity of a thread pool the interpreter creates.\<close>

type_synonym file_sock = "file_obj \<times> sock_world"

definition read_block :: "nat \<Rightarrow> nat \<Rightarrow> file_sock \<Rightarrow> (pyexc + bytes) \<times> file_sock" where
  "read_block fresh n s =
     (case s of (f, w) \<Rightarrow>
        (case run_in_executor fresh None (ScUser 0) w of
           (Inl e, w1) \<Rightarrow> (Inl e, (f, w1))
         | (Inr ex, w1) \<Rightarrow> (case readinto n f of (r, f1) \<Rightarrow> (r, (f1, w1)))))"

definition send_block :: "nat \<Rightarrow> bytes \<Rightarrow> file_sock \<Rightarrow> unit await \<times> file_sock" where
  "send_block k d s =
     (case s of (f, w) \<Rightarrow>
        (case drive False (sock_sendall d) k w of
           (None, w1) \<Rightarrow> (Waiting, (f, w1))
         | (Some (Inl e), w1) \<Rightarrow> (Done (Inl e), (f, w1))
         | (Some (Inr v), w1) \<Rightarrow> (Done (Inr ()), (f, w1))))"

definition sendfile_fallback_readbuffer_size :: nat where
  "sendfile_fallback_readbuffer_size = 1024 * 256"

text \<open>The \<open>finally\<close> clause runs when the loop has ended.\<close>

definition seek_after :: "nat \<Rightarrow> 'a await \<Rightarrow> nat \<Rightarrow> file_obj \<Rightarrow> file_obj" where
  "seek_after offset r tot f =
     (case r of Done x \<Rightarrow> if tot > 0 then f_seek (offset + tot) f else f | _ \<Rightarrow> f)"

definition sock_sendfile_fallback :: "nat \<Rightarrow> nat \<Rightarrow> nat \<Rightarrow> nat option \<Rightarrow> file_sock \<Rightarrow> nat await \<times> file_sock" where
  "sock_sendfile_fallback fresh k offset cnt s =
     (case s of (f, w) \<Rightarrow>
       let f1 = f_seek offset f
       in (case copy_loop (read_block fresh) (send_block k) (truthy cnt) (Suc (length (f_rest f1)))
                 (first_block sendfile_fallback_readbuffer_size cnt) 0 (f1, w) of
             (r, tot, (f2, w2)) \<Rightarrow> (r, (seek_after offset r tot f2, w2))))"

definition sock_sendfile_native :: "('w, nat) py" where
  "sock_sendfile_native = py_raise SendfileNotAvailableError"

definition sock_sendfile_checks :: "file_obj \<Rightarrow> numarg \<Rightarrow> numarg option \<Rightarrow> unit so_m" where
  "sock_sendfile_checks f offset cnt =
     py_seq (py_when (\<lambda>w. debug w \<and> \<not> so_nonblocking (sk w)) (py_raise (ValueError ''the socket must be non-blocking'')))
       (py_seq (py_when (\<lambda>w. so_ssl (sk w)) (py_raise (TypeError ''Socket cannot be of type SSLSocket'')))
         (py_check (\<lambda>w. check_sendfile_params (sk w) f offset cnt)))"

definition sock_sendfile ::
  "nat \<Rightarrow> nat \<Rightarrow> numarg \<Rightarrow> numarg option \<Rightarrow> bool \<Rightarrow> file_sock \<Rightarrow> nat await \<times> file_sock" where
  "sock_sendfile fresh k offset cnt fallback s =
     (case s of (f, w) \<Rightarrow>
       (case py_seq (sock_sendfile_checks f offset cnt) sock_sendfile_native w of
          (Inr n, w1) \<Rightarrow> (Done (Inr n), (f, w1))
        | (Inl SendfileNotAvailableError, w1) \<Rightarrow>
            if fallback
            then sock_sendfile_fallback fresh k (num_nat offset) (map_option num_nat cnt) (f, w1)
            else (Done (Inl SendfileNotAvailableError), (f, w1))
        | (Inl e, w1) \<Rightarrow> (Done (Inl e), (f, w1))))"

section \<open>What the loop copies\<close>

text \<open>What the loop relies on: reading gives the next bytes of the source, sending appends to the
  sink all of the block, or a part of it when it fails or is still waiting.\<close>

locale block_copy =
  fixes rd :: "nat \<Rightarrow> 's \<Rightarrow> (pyexc + bytes) \<times> 's" and sd :: "bytes \<Rightarrow> 's \<Rightarrow> unit await \<times> 's"
    and ok :: "'s \<Rightarrow> bool" and src :: "'s \<Rightarrow> bytes" and sink :: "'s \<Rightarrow> bytes"
  assumes read_some: "ok s \<Longrightarrow> rd n s = (Inr d, s1) \<Longrightarrow> ok s1 \<and> length d \<le> n \<and> src s = d @ src s1 \<and> sink s1 = sink s"
    and read_raises: "ok s \<Longrightarrow> rd n s = (Inl e, s1) \<Longrightarrow> sink s1 = sink s"
    and send_done: "ok s \<Longrightarrow> sd d s = (Done (Inr ()), s1) \<Longrightarrow> ok s1 \<and> src s1 = src s \<and> sink s1 = sink s @ d"
    and read_eof: "ok s \<Longrightarrow> rd n s = (Inr [], s1) \<Longrightarrow> n = 0 \<or> src s = []"
    and send_part: "ok s \<Longrightarrow> sd d s = (r, s1) \<Longrightarrow> r \<noteq> NoFuel \<and> (\<exists>m\<le>length d. sink s1 = sink s @ take m d)"
begin

lemma copies_prefix:
  assumes "ok s" and "length (src s) < fuel" and "copy_loop rd sd cnt fuel bs tot s = (r, tot', s')"
  shows "r \<noteq> NoFuel \<and> tot \<le> tot' \<and>
    (\<exists>m\<ge>tot' - tot. sink s' = sink s @ take m (src s) \<and> m \<le> length (src s) \<and>
      (\<forall>n. r = Done (Inr n) \<longrightarrow> n = tot' \<and> m = tot' - tot \<and> src s' = drop m (src s) \<and>
        (0 < bs \<longrightarrow> src s' = [] \<or> (case cnt of None \<Rightarrow> False | Some c \<Rightarrow> c \<le> tot')))) \<and>
    (\<forall>c. cnt = Some c \<longrightarrow> tot \<le> c \<longrightarrow> tot' \<le> c)"
  using assms
proof (induction fuel arbitrary: bs tot s)
  case (Suc fuel)
  let ?bs = "next_block cnt tot bs"
  show ?case
  proof (cases "cnt \<noteq> None \<and> ?bs = 0")
    case True
    with Suc.prems(3) show ?thesis by (auto simp: Let_def next_block_def min_def split: if_splits intro!: exI [of _ 0])
  next
    case bs: False
    obtain q s1 where rd: "rd ?bs s = (q, s1)" by fastforce
    show ?thesis
    proof (cases q)
      case (Inl e)
      with bs Suc.prems(3) rd read_raises [OF Suc.prems(1), of ?bs e s1] show ?thesis
        by (auto simp: Let_def intro!: exI [of _ 0])
    next
      case (Inr d)
      note R = read_some [OF Suc.prems(1) rd [unfolded Inr]]
      show ?thesis
      proof (cases "d = []")
        case True
        with read_eof [OF Suc.prems(1), of ?bs s1] Inr rd bs have "0 < bs \<longrightarrow> src s = []"
          by (auto simp: next_block_def)
        with True Inr bs Suc.prems(3) rd R show ?thesis by (auto simp: Let_def intro!: exI [of _ 0])
      next
        case d: False
        obtain x s2 where sd: "sd d s1 = (x, s2)" by fastforce
        note P = send_part [OF R [THEN conjunct1] sd]
        show ?thesis
        proof (cases "x = Done (Inr ())")
          case True
          note S = send_done [OF R [THEN conjunct1] sd [unfolded True]]
          from bs Inr d True rd sd Suc.prems(3)
          have "copy_loop rd sd cnt fuel ?bs (tot + length d) s2 = (r, tot', s')"
            by (auto simp: Let_def split: if_splits)
          moreover have "length (src s2) < fuel" using R S d Suc.prems(2) by (cases d) simp_all
          ultimately have IH: "r \<noteq> NoFuel \<and> tot + length d \<le> tot' \<and>
            (\<exists>m\<ge>tot' - (tot + length d). sink s' = sink s2 @ take m (src s2) \<and> m \<le> length (src s2) \<and>
              (\<forall>n. r = Done (Inr n) \<longrightarrow> n = tot' \<and> m = tot' - (tot + length d) \<and> src s' = drop m (src s2) \<and>
                (0 < ?bs \<longrightarrow> src s' = [] \<or> (case cnt of None \<Rightarrow> False | Some c \<Rightarrow> c \<le> tot')))) \<and>
            (\<forall>c. cnt = Some c \<longrightarrow> tot + length d \<le> c \<longrightarrow> tot' \<le> c)"
            using Suc.IH S by blast
          then obtain m where m: "tot' - (tot + length d) \<le> m" "sink s' = sink s2 @ take m (src s2)"
            "m \<le> length (src s2)"
            "\<forall>n. r = Done (Inr n) \<longrightarrow> n = tot' \<and> m = tot' - (tot + length d) \<and> src s' = drop m (src s2) \<and>
                (0 < ?bs \<longrightarrow> src s' = [] \<or> (case cnt of None \<Rightarrow> False | Some c \<Rightarrow> c \<le> tot'))"
            by blast
          have bs1: "0 < bs \<longrightarrow> 0 < ?bs" using bs by (auto simp: next_block_def)
          have "tot + length d \<le> c" if "cnt = Some c" "tot \<le> c" for c
            using R that by (auto simp: next_block_def)
          moreover have "sink s' = sink s @ take (length d + m) (src s)" using m(2) R S by simp
          ultimately show ?thesis using IH m R S bs1
            by (intro conjI exI [of _ "length d + m"]) auto
        next
          case False
          with bs Inr d rd sd Suc.prems(3) P have "tot' = tot \<and> s' = s2 \<and> r \<noteq> NoFuel \<and> (\<forall>n. r \<noteq> Done (Inr n))"
            by (auto simp: Let_def split: await.splits sum.splits)
          moreover from P obtain m where "m \<le> length d" "sink s2 = sink s1 @ take m d" by blast
          ultimately show ?thesis using R
            by (intro conjI exI [of _ m]) auto
        qed
      qed
    qed
  qed
qed simp

end

text \<open>A source that can be read and a sink with capacity for all of it: the loop ends.\<close>

locale live_copy = block_copy +
  fixes good :: "'a \<Rightarrow> bool" and cap :: "'a \<Rightarrow> nat"
  assumes read_able: "ok s \<Longrightarrow> good s \<Longrightarrow> \<exists>d s1. rd n s = (Inr d, s1) \<and> good s1 \<and> cap s1 = cap s"
    and send_able: "ok s \<Longrightarrow> good s \<Longrightarrow> d \<noteq> [] \<Longrightarrow> length d \<le> cap s \<Longrightarrow>
      \<exists>s1. sd d s = (Done (Inr ()), s1) \<and> good s1 \<and> cap s \<le> cap s1 + length d"
begin

lemma copies_all:
  assumes "ok s" and "good s" and "length (src s) \<le> cap s" and "length (src s) < fuel"
  shows "\<exists>n s'. copy_loop rd sd cnt fuel bs tot s = (Done (Inr n), n, s')"
  using assms
proof (induction fuel arbitrary: bs tot s)
  case (Suc fuel)
  let ?bs = "next_block cnt tot bs"
  from read_able [OF Suc.prems(1,2), of ?bs] obtain d s1 where
    rd: "rd ?bs s = (Inr d, s1)" "good s1" "cap s1 = cap s" by blast
  note R = read_some [OF Suc.prems(1) rd(1)]
  show ?case
  proof (cases "cnt \<noteq> None \<and> ?bs = 0 \<or> d = []")
    case True
    with rd show ?thesis by (auto simp: Let_def)
  next
    case False
    have "length d \<le> cap s1" using R rd(3) Suc.prems(3) by simp
    with False send_able [OF R [THEN conjunct1] rd(2)] obtain s2 where
      sd: "sd d s1 = (Done (Inr ()), s2)" "good s2" "cap s1 \<le> cap s2 + length d" by blast
    note S = send_done [OF R [THEN conjunct1] sd(1)]
    have "length (src s2) \<le> cap s2" "length (src s2) < fuel"
      using R S sd(3) rd(3) Suc.prems(3,4) False by (cases d; simp)+
    from Suc.IH [OF _ sd(2) this] S obtain n s' where
      "copy_loop rd sd cnt fuel ?bs (tot + length d) s2 = (Done (Inr n), n, s')" by blast
    with False rd sd show ?thesis by (auto simp: Let_def)
  qed
qed simp

end

text \<open>Reading and sending over a socket are such a source and sink.\<close>

lemma readinto_Inr:
  assumes "readinto n f = (Inr d, f1)"
  shows "length d \<le> n" and "f_rest f = d @ f_rest f1" and "f_pos f1 = f_pos f + length d"
    and "f_content f1 = f_content f" and "f_seekable f1 = f_seekable f"
proof -
  obtain m where d: "d = take m (f_rest f)" "m \<le> n" and f1: "f_pos f1 = f_pos f + length d"
    "f_content f1 = f_content f" "f_seekable f1 = f_seekable f"
    using assms by (auto simp: readinto_def Let_def split: list.splits sum.splits)
  show "length d \<le> n" using d by simp
  show "f_rest f = d @ f_rest f1"
  proof -
    have "f_rest f1 = drop (length d) (f_rest f)" using f1 by (simp add: f_rest_def add.commute)
    then show ?thesis using d(1) by (cases "m \<le> length (f_rest f)") simp_all
  qed
  show "f_pos f1 = f_pos f + length d" "f_content f1 = f_content f" "f_seekable f1 = f_seekable f" by fact+
qed

lemma run_in_executor_usable:
  assumes "usable w" and "run_in_executor fresh ex cb w = (r, w')"
  shows "usable w' \<and> wire w' = wire w \<and> send_answers w' = send_answers w \<and>
    executor_shutdown_called w' = executor_shutdown_called w \<and> (\<not> executor_shutdown_called w \<longrightarrow> (\<exists>ex. r = Inr ex))"
proof -
  from assms(1) have w: "open_for w" "registry_inv w" by (simp_all add: usable_def open_for_def)
  have "(w' = w \<or> w' = w\<lparr>default_executor := Some (ThreadPool fresh)\<rparr>) \<and>
      (\<not> executor_shutdown_called w \<longrightarrow> (\<exists>ex. r = Inr ex))"
    using assms(2) w(1)
    by (auto simp: open_for_def run_in_executor_def check_default_executor_def py_run_defs check_closed_state_def py_mod_def
        split: if_splits option.splits)
  moreover have "registry_inv (w\<lparr>default_executor := x\<rparr>)" for x
    using w(2) by (rule registry_inv_mono [rotated -1]) simp_all
  from open_for_mono [OF w(1) this] have "open_for (w\<lparr>default_executor := x\<rparr>)" for x by simp
  moreover have "view (w\<lparr>default_executor := x\<rparr>) = view w" for x by (simp add: view_def)
  ultimately show ?thesis using assms(1) by (elim conjE disjE) (simp_all add: usable_def)
qed

lemma drive_keeps_executor:
  assumes "drive False (sock_sendall d) k w = (r, w')"
  shows "executor_shutdown_called w' = executor_shutdown_called w"
  using drive_env [OF env_sendall, of False d k w] assms by (simp add: loop_env_def)

lemma read_block_run:
  assumes "usable w" and "read_block fresh n (f, w) = (q, (f1, w1))"
  shows "usable w1" "wire w1 = wire w" "send_answers w1 = send_answers w"
    "executor_shutdown_called w1 = executor_shutdown_called w" "set (f_reads f1) \<subseteq> set (f_reads f)"
    "q = Inr d \<Longrightarrow> readinto n f = (Inr d, f1)"
    "\<not> executor_shutdown_called w \<Longrightarrow> (\<forall>e. Inl e \<notin> set (f_reads f)) \<Longrightarrow> \<exists>d. q = Inr d"
proof -
  obtain r w2 where ex: "run_in_executor fresh None (ScUser 0) w = (r, w2)" by fastforce
  note E = run_in_executor_usable [OF assms(1) ex]
  from assms(2) ex have w1: "w1 = w2" and f1: "(r = Inr x \<longrightarrow> readinto n f = (q, f1)) \<and> ((\<exists>e. r = Inl e) \<longrightarrow> f1 = f \<and> (\<exists>e. q = Inl e))" for x
    by (auto simp: read_block_def split: sum.splits prod.splits)
  show "usable w1" "wire w1 = wire w" "send_answers w1 = send_answers w"
    "executor_shutdown_called w1 = executor_shutdown_called w" using E w1 by simp_all
  have sub: "readinto n f = (q, f1) \<Longrightarrow> set (f_reads f1) \<subseteq> set (f_reads f)"
    by (auto simp: readinto_def Let_def split: list.splits sum.splits)
  show "set (f_reads f1) \<subseteq> set (f_reads f)" using f1 sub by (cases r) auto
  show "q = Inr d \<Longrightarrow> readinto n f = (Inr d, f1)" using f1 by (cases r) auto
  show "\<exists>d. q = Inr d" if "\<not> executor_shutdown_called w" "\<forall>e. Inl e \<notin> set (f_reads f)"
  proof -
    from E that(1) obtain ex where "r = Inr ex" by blast
    with f1 have "readinto n f = (q, f1)" by blast
    with that(2) show ?thesis by (auto simp: readinto_def Let_def split: list.splits sum.splits)
  qed
qed

lemma readinto_eof: "readinto n f = (Inr [], f1) \<Longrightarrow> Inr 0 \<notin> set (f_reads f) \<Longrightarrow> n = 0 \<or> f_rest f = []"
  by (auto simp: readinto_def Let_def split: list.splits sum.splits)

text \<open>A socket that takes a byte at every \<open>send\<close>, a loop whose executor works, a file that can be read.\<close>

definition fs_ok :: "file_sock \<Rightarrow> bool" where
  "fs_ok s = (case s of (f, w) \<Rightarrow> usable w \<and> Inr 0 \<notin> set (f_reads f))"

definition fs_good :: "file_sock \<Rightarrow> bool" where
  "fs_good s = (case s of (f, w) \<Rightarrow> \<not> executor_shutdown_called w \<and> (\<forall>e. Inl e \<notin> set (f_reads f)) \<and>
     (\<forall>a\<in>set (send_answers w). \<exists>n\<ge>1. a = Inr n))"

interpretation sock_copy:
  live_copy "read_block fresh" "send_block k" fs_ok "\<lambda>(f, w). f_rest f" "\<lambda>(f, w). wire w" fs_good
    "\<lambda>(f, w). min k (length (send_answers w))" for fresh k
proof (unfold_locales, goal_cases)
  case (1 s n d s1)
  obtain f w f1 w1 where s: "s = (f, w)" "s1 = (f1, w1)" by fastforce
  with 1 have u: "usable w" "Inr 0 \<notin> set (f_reads f)" "read_block fresh n (f, w) = (Inr d, (f1, w1))" by (auto simp: fs_ok_def)
  with read_block_run [OF u(1,3)] readinto_Inr [of n f d f1] s show ?case by (auto simp: fs_ok_def)
next
  case (2 s n e s1)
  obtain f w f1 w1 where s: "s = (f, w)" "s1 = (f1, w1)" by fastforce
  with 2 have "usable w" "read_block fresh n (f, w) = (Inl e, (f1, w1))" by (auto simp: fs_ok_def)
  with read_block_run(2) [OF this] s show ?case by simp
next
  case (3 s d s1)
  obtain f w where s: "s = (f, w)" by fastforce
  from 3(2) s obtain v w1 where dr: "drive False (sock_sendall d) k w = (Some (Inr v), w1)" "s1 = (f, w1)"
    by (auto simp: send_block_def split: prod.splits sum.splits option.splits)
  have u: "usable w" "Inr 0 \<notin> set (f_reads f)" using 3(1) s by (auto simp: fs_ok_def)
  from sock_sendall_usable [OF u(1) dr(1)] sock_sendall_exact [OF u(1) dr(1)] s dr(2) u(2) show ?case
    by (auto simp: fs_ok_def)
next
  case (4 s n s1)
  obtain f w f1 w1 where s: "s = (f, w)" "s1 = (f1, w1)" by fastforce
  with 4 have u: "usable w" "Inr 0 \<notin> set (f_reads f)" "read_block fresh n (f, w) = (Inr [], (f1, w1))" by (auto simp: fs_ok_def)
  with readinto_eof [OF read_block_run(6) [OF u(1,3)]] s show ?case by simp
next
  case (5 s d r s1)
  obtain f w where s: "s = (f, w)" by fastforce
  obtain x w1 where dr: "drive False (sock_sendall d) k w = (x, w1)" by fastforce
  with 5(2) s have "s1 = (f, w1)" "r \<noteq> NoFuel"
    by (auto simp: send_block_def split: prod.splits sum.splits option.splits)
  moreover have u: "usable w" using 5(1) s by (auto simp: fs_ok_def)
  ultimately show ?case using sock_sendall_exact [OF u dr] s by auto
next
  case (6 s n)
  obtain f w q f1 w1 where s: "s = (f, w)" "read_block fresh n (f, w) = (q, (f1, w1))" by (metis surj_pair)
  with 6 have u: "usable w" and g: "\<not> executor_shutdown_called w" "\<forall>e. Inl e \<notin> set (f_reads f)"
    by (auto simp: fs_ok_def fs_good_def)
  note R = read_block_run [OF u s(2)]
  from R(7) [OF g] obtain d where "q = Inr d" by blast
  with R s 6(2) show ?case by (auto simp: fs_good_def)
next
  case (7 s d)
  obtain f w where s: "s = (f, w)" by fastforce
  obtain x w1 where dr: "drive False (sock_sendall d) k w = (x, w1)" by fastforce
  from 7 s have u: "usable w" and d: "length d \<le> k" "length d \<le> length (send_answers w)"
    "\<forall>a\<in>set (send_answers w). \<exists>n\<ge>1. a = Inr n" by (auto simp: fs_ok_def fs_good_def)
  from sock_sendall_exact [OF u dr] d 7(3) obtain j where
    x: "x = Some (Inr VNone)" "j \<le> length d" "send_answers w1 = drop j (send_answers w)"
    by (auto simp: max_def not_less_eq_eq split: if_splits)
  have "executor_shutdown_called w1 = executor_shutdown_called w" using drive_keeps_executor [OF dr] .
  with x dr s 7(2) d show ?case
    by (auto simp: send_block_def fs_good_def dest: in_set_dropD)
qed

section \<open>What sock_sendfile sends\<close>

text \<open>The part of the file that is asked for.\<close>

definition sendfile_start :: "file_obj \<Rightarrow> numarg \<Rightarrow> nat" where
  "sendfile_start f offset = (if f_seekable f then num_nat offset else f_pos f)"

definition sendfile_body :: "file_obj \<Rightarrow> numarg \<Rightarrow> numarg option \<Rightarrow> bytes" where
  "sendfile_body f offset cnt =
     (let body = drop (sendfile_start f offset) (f_content f)
      in case cnt of None \<Rightarrow> body | Some c \<Rightarrow> take (num_nat c) body)"

lemma check_sendfile_params_ok:
  "check_sendfile_params s f offset cnt = Inr () \<Longrightarrow> cnt = Some c \<Longrightarrow> 0 < num_nat c"
  by (cases c) (auto simp: check_sendfile_params_def split: if_splits)

lemma sock_sendfile_falls_back:
  assumes "usable w" and "check_sendfile_params (sk w) f offset cnt = Inr ()"
  shows "sock_sendfile fresh k offset cnt True (f, w) =
    sock_sendfile_fallback fresh k (num_nat offset) (map_option num_nat cnt) (f, w)"
  using assms
  by (simp add: sock_sendfile_def sock_sendfile_checks_def sock_sendfile_native_def usable_def open_for_def py_run_defs)

lemma copy_loop_seekable:
  "copy_loop (read_block fresh) (send_block k) cnt fuel bs tot (f, w) = (r, tot', (f', w')) \<Longrightarrow> f_seekable f' = f_seekable f"
proof (induction fuel arbitrary: bs tot f w)
  case (Suc fuel)
  let ?bs = "next_block cnt tot bs"
  obtain q f1 w1 where rd: "read_block fresh ?bs (f, w) = (q, (f1, w1))" by (metis surj_pair)
  then have f1: "f_seekable f1 = f_seekable f"
    by (auto simp: read_block_def readinto_def Let_def split: prod.splits sum.splits list.splits)
  show ?case
  proof (cases "\<exists>d. q = Inr d \<and> d \<noteq> [] \<and> \<not> (cnt \<noteq> None \<and> ?bs = 0)")
    case True
    then obtain d where d: "q = Inr d" "d \<noteq> []" "\<not> (cnt \<noteq> None \<and> ?bs = 0)" by blast
    have "fst (snd (send_block k d (f1, w1))) = f1"
      by (simp add: send_block_def split: prod.split sum.split option.split)
    then obtain x w2 where s2: "send_block k d (f1, w1) = (x, (f1, w2))" by (metis prod.collapse)
    show ?thesis
      using Suc.prems rd d s2 f1 Suc.IH [of ?bs "tot + length d" f1 w2]
      by (auto simp: Let_def split: if_splits await.splits sum.splits)
  next
    case False
    with Suc.prems rd f1 show ?thesis by (auto simp: Let_def split: if_splits sum.splits)
  qed
qed simp

lemma sock_sendfile_exact:
  assumes u: "usable w" and params: "check_sendfile_params (sk w) f offset cnt = Inr ()" and reads: "Inr 0 \<notin> set (f_reads f)"
    and run: "sock_sendfile fresh k offset cnt True (f, w) = (r, (f', w'))"
  shows "r \<noteq> NoFuel"
    and "\<exists>m. wire w' = wire w @ take m (drop (sendfile_start f offset) (f_content f))"
    and "r = Done (Inr n) \<Longrightarrow> n = length (sendfile_body f offset cnt) \<and> wire w' = wire w @ sendfile_body f offset cnt \<and>
      (f_seekable f \<and> 0 < n \<longrightarrow> f_pos f' = num_nat offset + n)"
    and "fs_good (f, w) \<Longrightarrow> length (f_content f) \<le> k \<Longrightarrow> length (f_content f) \<le> length (send_answers w) \<Longrightarrow>
      \<exists>n. r = Done (Inr n)"
proof -
  let ?c = "map_option num_nat cnt" and ?f1 = "f_seek (num_nat offset) f"
  let ?fuel = "Suc (length (f_rest ?f1))" and ?bs = "first_block sendfile_fallback_readbuffer_size (map_option num_nat cnt)"
  have tc: "truthy ?c = ?c" using check_sendfile_params_ok [OF params] by (cases cnt) (auto simp: truthy_def)
  have bs: "0 < ?bs"
    using check_sendfile_params_ok [OF params]
    by (cases cnt) (auto simp: first_block_def truthy_def sendfile_fallback_readbuffer_size_def)
  have rest: "f_rest ?f1 = drop (sendfile_start f offset) (f_content f)"
    by (simp add: f_rest_def f_seek_def sendfile_start_def)
  obtain tot f2 w2 where loop: "copy_loop (read_block fresh) (send_block k) ?c ?fuel ?bs 0 (?f1, w) = (r, tot, (f2, w2))"
    and w': "w' = w2" and f': "f' = seek_after (num_nat offset) r tot f2"
    using run unfolding sock_sendfile_falls_back [OF u params]
    by (auto simp: sock_sendfile_fallback_def Let_def tc split: prod.splits)
  have ok: "fs_ok (?f1, w)" using u reads by (simp add: fs_ok_def f_seek_def)
  have len: "length (f_rest ?f1) < ?fuel" by simp
  from sock_copy.copies_prefix [OF ok _ loop] obtain m where m: "r \<noteq> NoFuel" "tot \<le> m"
    "wire w2 = wire w @ take m (f_rest ?f1)" "m \<le> length (f_rest ?f1)"
    "r = Done (Inr n) \<longrightarrow> n = tot \<and> m = tot \<and> f_rest f2 = drop m (f_rest ?f1) \<and>
       (f_rest f2 = [] \<or> (case ?c of None \<Rightarrow> False | Some c \<Rightarrow> c \<le> tot))"
    "\<forall>c. ?c = Some c \<longrightarrow> tot \<le> c" for n
    using bs by auto
  show "r \<noteq> NoFuel" by (fact m(1))
  show "\<exists>m. wire w' = wire w @ take m (drop (sendfile_start f offset) (f_content f))"
    using m(3) w' rest by auto
  show "n = length (sendfile_body f offset cnt) \<and> wire w' = wire w @ sendfile_body f offset cnt \<and>
      (f_seekable f \<and> 0 < n \<longrightarrow> f_pos f' = num_nat offset + n)" if r: "r = Done (Inr n)"
  proof -
    have mn: "n = tot" "m = tot" and f2: "f_rest f2 = drop m (f_rest ?f1)"
      and stop: "f_rest f2 = [] \<or> (case ?c of None \<Rightarrow> False | Some c \<Rightarrow> c \<le> tot)" using m(5) r by blast+
    have "take m (f_rest ?f1) = sendfile_body f offset cnt"
      using stop mn m(4,6) f2 by (auto simp: sendfile_body_def Let_def rest split: option.splits)
    then have "n = length (sendfile_body f offset cnt)" "wire w' = wire w @ sendfile_body f offset cnt"
      using m(3,4) mn w' by (metis length_take min.absorb2, metis)
    moreover have "f_seekable f2 = f_seekable f" using copy_loop_seekable [OF loop] by (simp add: f_seek_def)
    then have "f_pos f' = num_nat offset + n" if "f_seekable f" "0 < n"
      using that r mn f' by (simp add: seek_after_def f_seek_def)
    ultimately show ?thesis by blast
  qed
  show "\<exists>n. r = Done (Inr n)" if "fs_good (f, w)" "length (f_content f) \<le> k" "length (f_content f) \<le> length (send_answers w)"
  proof -
    have "fs_good (?f1, w)" using that(1) by (simp add: fs_good_def f_seek_def)
    moreover have "length (f_rest ?f1) \<le> min k (length (send_answers w))" using that(2,3) by (auto simp: rest)
    ultimately show ?thesis using sock_copy.copies_all [OF ok, of k ?fuel fresh ?c ?bs 0] loop by auto
  qed
qed

definition sample_file :: file_obj where
  "sample_file = \<lparr>f_binary = True, f_seekable = True, f_content = [10, 11, 12, 13, 14], f_pos = 0, f_reads = [Inr 2]\<rparr>"

text \<open>
  C18. \<open>sock_sendfile\<close> sends exactly the part of the file that was asked for: the loop never runs
  on, what reaches the wire is always a prefix of the file from the offset, and when the coroutine
  returns, it returns the number of bytes sent, the wire has all the bytes from the offset up to the
  count or the end of the file, and a file with \<open>seek\<close> is left positioned after them. It does
  return when the file can be read and every \<open>send\<close> takes a byte.
\<close>

theorem sock_sendfile_sends_the_file:
  assumes "usable w" and "check_sendfile_params (sk w) f offset cnt = Inr ()" and "Inr 0 \<notin> set (f_reads f)"
    and "sock_sendfile fresh k offset cnt True (f, w) = (r, (f', w'))"
  shows "r \<noteq> NoFuel \<and>
    (\<exists>m. wire w' = wire w @ take m (drop (sendfile_start f offset) (f_content f))) \<and>
    (\<forall>n. r = Done (Inr n) \<longrightarrow> n = length (sendfile_body f offset cnt) \<and> wire w' = wire w @ sendfile_body f offset cnt \<and>
      (f_seekable f \<and> 0 < n \<longrightarrow> f_pos f' = num_nat offset + n)) \<and>
    (fs_good (f, w) \<and> length (f_content f) \<le> k \<and> length (f_content f) \<le> length (send_answers w) \<longrightarrow>
      (\<exists>n. r = Done (Inr n)))"
  using sock_sendfile_exact [OF assms] by blast

theorem sock_sendfile_sends_the_file_witness:
  "\<exists>f' w'. sock_sendfile 0 5 (NumInt 1) (Some (NumInt 3)) True
      (sample_file, sample_world [] [Inr 1, Inr 1, Inr 5, Inr 1, Inr 1] [] [] []) = (Done (Inr 3), (f', w')) \<and>
    wire w' = [11, 12, 13] \<and> f_pos f' = 4"
proof -
  let ?w = "sample_world [] [Inr 1, Inr 1, Inr 5, Inr 1, Inr 1] [] [] []"
  have u: "usable ?w" by (rule sample_world_usable) (auto simp: no_exit_def view_def)
  obtain r f' w' where run: "sock_sendfile 0 5 (NumInt 1) (Some (NumInt 3)) True (sample_file, ?w) = (r, (f', w'))"
    by (metis surj_pair)
  have "check_sendfile_params (sk ?w) sample_file (NumInt 1) (Some (NumInt 3)) = Inr ()" "Inr 0 \<notin> set (f_reads sample_file)"
    by (simp_all add: check_sendfile_params_def sample_sock_def sample_file_def)
  note T = sock_sendfile_sends_the_file [OF u this run]
  have "fs_good (sample_file, ?w)"
    by (simp add: fs_good_def sample_file_def sample_world_def new_rust_loop_def tokioop_new_def loop_state.defs
        tokioop_loop.defs rust_loop.defs sock_world.defs)
  with T obtain n where "r = Done (Inr n)" by (auto simp: sample_file_def)
  with T run show ?thesis by (auto simp: sample_file_def sendfile_body_def sendfile_start_def)
qed

end
