(* ===== verification/Socket_Invariant.thy ===== *)
theory Socket_Invariant
  imports Socket_Transport
begin

text \<open>
  Properties of the stream transport for every protocol program: what is written is sent in
  order and without loss, what arrives is delivered in order across pauses, flow control
  alternates, and \<open>connection_lost\<close> comes exactly once.

  The locale \<open>sock_protocol\<close> is the interface to the protocol: every call keeps the
  transport's invariant. Inside it each method is shown to keep the invariant; protocol
  programs satisfy it by induction on their nesting depth.
\<close>

section \<open>The invariant\<close>

fun flow_step :: "bool option \<Rightarrow> proto_event \<Rightarrow> bool option" where
  "flow_step (Some False) PauseWriting = Some True"
| "flow_step (Some True) ResumeWriting = Some False"
| "flow_step (Some b) PauseWriting = None"
| "flow_step (Some b) ResumeWriting = None"
| "flow_step s _ = s"

text \<open>Whether a protocol that saw these calls is paused; \<open>None\<close> if they do not alternate.\<close>

definition flow_state :: "proto_event list \<Rightarrow> bool option" where
  "flow_state evs = foldl flow_step (Some False) evs"

fun is_lost :: "proto_event \<Rightarrow> bool" where
  "is_lost (ConnectionLost _) = True"
| "is_lost _ = False"

definition lost_calls :: "proto_event list \<Rightarrow> nat" where
  "lost_calls evs = length (filter is_lost evs)"

fun delivery :: "proto_event \<Rightarrow> replay_item list" where
  "delivery (DataReceived d) = [ReplayStream d]"
| "delivery EofReceived = [ReplayStream []]"
| "delivery _ = []"

definition delivered :: "proto_event list \<Rightarrow> replay_item list" where
  "delivered evs = concat (map delivery evs)"

fun schedulable :: "tcb \<Rightarrow> bool" where
  "schedulable CbConnectionMade = True"
| "schedulable CbRegisterReader = True"
| "schedulable (CbSetWaiter _) = True"
| "schedulable (CbUser _) = True"
| "schedulable _ = False"

text \<open>What waits in the loop's ready queue: never a read or write callback, and
  \<open>_call_connection_lost\<close> only after \<open>_conn_lost\<close> was set.\<close>

definition queue_inv :: "nat \<Rightarrow> tcb loop_state \<Rightarrow> bool" where
  "queue_inv n l \<longleftrightarrow> (\<forall>e\<in>set (ready l). schedulable (re_callback e) \<or>
     re_callback e = CbCallConnectionLost \<and> n \<noteq> 0)"

text \<open>The surroundings: a loop that is open and whose descriptor registrations succeed.\<close>

definition env_inv :: "sock_transport \<Rightarrow> bool" where
  "env_inv w \<longleftrightarrow> i32_range (sock_fd w) \<and> 0 \<le> sock_fd w \<and> \<not> loop_closed (loop w) \<and> (\<forall>n f. os_reg (loop w) n f = None) \<and>
     queue_inv (conn_lost w) (loop w) \<and>
     (\<forall>e. Inl e \<in> set (send_script w) \<longrightarrow> \<not> is_exit e)"

definition life_inv :: "sock_transport \<Rightarrow> bool" where
  "life_inv w \<longleftrightarrow> has_loop w = has_sock w \<and> protocol w = (if has_sock w then Some PlainProtocol else None) \<and>
     protocol_connected w \<and> drain_mode w = Some DrainTcp \<and> empty_waiter w = None \<and>
     write_ready_m w = (if has_sock w then Some WriteSendmsg else None) \<and>
     (\<not> has_sock w \<longrightarrow> closing w) \<and> (conn_lost w \<noteq> 0 \<longrightarrow> closing w \<and> buffer w = []) \<and>
     lost_calls (log w) = (if has_sock w then 0 else 1)"

definition stream_inv :: "sock_transport \<Rightarrow> bool" where
  "stream_inv w \<longleftrightarrow> prefix (sent w) (accepted w) \<and>
     (conn_lost w = 0 \<longrightarrow> accepted w = sent w @ (if has_sock w then concat (buffer w) else [])) \<and>
     (shut_wr w \<longrightarrow> eof w \<and> buffer w = [])"

fun stream_item :: "replay_item \<Rightarrow> bool" where
  "stream_item (ReplayDatagram _ _) = False"
| "stream_item _ = True"

definition read_inv :: "sock_transport \<Rightarrow> bool" where
  "read_inv w \<longleftrightarrow> list_all stream_item (replay w) \<and> prefix (delivered (log w)) (arrived w) \<and>
     (\<not> closing w \<longrightarrow> arrived w = delivered (log w) @ replay w)"

definition flow_inv :: "sock_transport \<Rightarrow> bool" where
  "flow_inv w \<longleftrightarrow> flow_state (log w) \<noteq> None \<and> (has_sock w \<longrightarrow> flow_state (log w) = Some (protocol_paused w))"

text \<open>
  The transport's invariant. \<open>k\<close> bounds the replay queue, which no protocol call extends; with
  \<open>b\<close> a transport that is reading has an empty replay queue, which is so except inside the
  flush of \<open>resume_reading\<close>.
\<close>

definition replayed :: "sock_transport \<Rightarrow> bool" where
  "replayed w \<longleftrightarrow> (\<not> paused w \<and> \<not> closing w \<longrightarrow> replay w = [])"

definition tinv :: "nat \<Rightarrow> bool \<Rightarrow> sock_transport \<Rightarrow> bool" where
  "tinv k b w \<longleftrightarrow> env_inv w \<and> life_inv w \<and> stream_inv w \<and> read_inv w \<and> flow_inv w \<and>
     length (replay w) \<le> k \<and> (b \<longrightarrow> replayed w)"

lemmas tinv_defs = tinv_def replayed_def env_inv_def life_inv_def stream_inv_def read_inv_def flow_inv_def

section \<open>The loop's part\<close>

text \<open>What the loop operations of a transport keep.\<close>

definition loop_kept :: "tcb loop_state \<Rightarrow> tcb loop_state \<Rightarrow> bool" where
  "loop_kept l l' \<longleftrightarrow> loop_closed l' = loop_closed l \<and> os_reg l' = os_reg l \<and> ready l' = ready l"

definition loop_called :: "tcb loop_state \<Rightarrow> tcb loop_state \<Rightarrow> bool" where
  "loop_called l l' \<longleftrightarrow> loop_closed l' = loop_closed l \<and> os_reg l' = os_reg l \<and>
     (\<forall>e\<in>set (ready l'). e \<in> set (ready l) \<or> re_callback e = CbCallConnectionLost)"

lemma queue_inv_kept: "loop_kept l l' \<Longrightarrow> queue_inv n l' = queue_inv n l"
  by (simp add: queue_inv_def loop_kept_def)

lemma queue_inv_lost [simp]: "queue_inv n l \<Longrightarrow> queue_inv (Suc n) l"
  by (auto simp: queue_inv_def)

lemma queue_inv_called: "queue_inv n l \<Longrightarrow> loop_called l l' \<Longrightarrow> queue_inv (Suc n) l'"
  by (fastforce simp: queue_inv_def loop_called_def)

lemma loop_kept_refl [simp]: "loop_kept l l"
  by (simp add: loop_kept_def)

lemma tinv_loop: "tinv k b w \<Longrightarrow> loop_kept (loop w) l \<Longrightarrow> tinv k b (w\<lparr>loop := l\<rparr>)"
  using queue_inv_kept [of "loop w" l "conn_lost w"] by (simp add: tinv_defs loop_kept_def)

lemma wp_on_loop [wp_rules]:
  "wp (on_loop m) Q E w = (if has_loop w
     then wp m (\<lambda>x l. Q x (w\<lparr>loop := l\<rparr>)) (\<lambda>e l. E e (w\<lparr>loop := l\<rparr>)) (loop w) else E none_error w)"
  by (simp add: wp_def on_loop_def split: prod.split sum.split)

lemma wp_need_loop [wp_rules]: "wp need_loop Q E w = (if has_loop w then Q () w else E none_error w)"
  by (simp add: need_loop_def wp_rules)

lemma wp_need_sock [wp_rules]: "wp need_sock Q E w = (if has_sock w then Q () w else E none_error w)"
  by (simp add: need_sock_def wp_rules)

lemma detach_slot_kept: "loop_kept l (detach_slot sid l)"
  by (auto simp: loop_kept_def detach_slot_def Let_def)

lemma loop_kept_trans: "loop_kept a b \<Longrightarrow> loop_kept b c \<Longrightarrow> loop_kept a c"
  by (auto simp: loop_kept_def)

lemma detach_watcher_kept: "wp (detach_watcher fd d) (\<lambda>_. loop_kept l) E l"
  using detach_slot_kept [of l]
  by (auto simp: wp_def detach_watcher_def Let_def loop_kept_def split: option.split)

lemma install_watcher_kept: "wp (install_watcher fd d task mk) (\<lambda>_. loop_kept l) E l"
proof -
  let ?l1 = "l\<lparr>flags := (flags l)(next_flag l := False), next_flag := Suc (next_flag l),
      slots := (slots l)(next_slot l := mk (next_flag l)), next_slot := Suc (next_slot l),
      aborted := (aborted l)(next_slot l := False), hs_permit := (hs_permit l)(next_slot l := False),
      tasks := (tasks l)(next_slot l := task)\<rparr>"
  have "loop_kept l ?l1" by (simp add: loop_kept_def)
  then have "loop_kept l (detach_slot old ?l1)" for old using detach_slot_kept loop_kept_trans by blast
  then show ?thesis
    by (auto simp: wp_def install_watcher_def Let_def loop_kept_def split: option.split)
qed

definition loop_ok :: "int \<Rightarrow> tcb loop_state \<Rightarrow> bool" where
  "loop_ok fd l \<longleftrightarrow> i32_range fd \<and> 0 \<le> fd \<and> \<not> loop_closed l \<and> (\<forall>n f. os_reg l n f = None)"

lemma env_loop_ok: "tinv k b w \<Longrightarrow> loop_ok (sock_fd w) (loop w)"
  by (simp add: tinv_def env_inv_def loop_ok_def)

lemma wp_os_register:
  "loop_ok fd l \<Longrightarrow> wp (os_register fd) Q E l = Q () (l\<lparr>reg_count := Suc (reg_count l)\<rparr>)"
  by (simp add: wp_def os_register_def loop_ok_def)

lemma install_after_register:
  "wp (install_watcher fd d task mk) (\<lambda>_. loop_kept l) E (l\<lparr>reg_count := n\<rparr>)"
proof (rule wp_mono [OF install_watcher_kept])
  show "loop_kept l l'" if "loop_kept (l\<lparr>reg_count := n\<rparr>) l'" for l' using that by (simp add: loop_kept_def)
qed

lemma loop_ops_kept:
  assumes "loop_ok fd l"
  shows "wp (remove_reader (FdInt fd)) (\<lambda>_. loop_kept l) (\<lambda>_ _. False) l"
    and "wp (remove_writer (FdInt fd)) (\<lambda>_. loop_kept l) (\<lambda>_ _. False) l"
    and "wp (add_writer (FdInt fd) cb args) (\<lambda>_. loop_kept l) (\<lambda>_ _. False) l"
    and "wp (add_tcp_reader (FdInt fd) cb1 cb2 n) (\<lambda>_. loop_kept l) (\<lambda>_ _. False) l"
  using assms
  by (simp_all add: remove_reader_def remove_writer_def add_writer_def add_tcp_reader_def wp_rules
      detach_watcher_kept check_closed_state_def add_watcher_def add_drain_watcher_def wp_os_register
      install_after_register)
     (simp_all add: loop_ok_def detach_watcher_kept)

lemma call_soon_called:
  "wp (call_soon CbCallConnectionLost args ctx) (\<lambda>_. loop_called l) (\<lambda>_. loop_called l) l"
  by (auto simp: call_soon_def wp_rules wp_def [of new_flag] push_ready_def loop_called_def check_defs
      split: sum.split callable_kind.split)

section \<open>Transport operations on the loop\<close>

text \<open>With an open loop these return and change only the loop, within \<open>loop_kept\<close>; without one
  they raise.\<close>

lemma wp_loop_call:
  assumes "wp m (\<lambda>_. loop_kept (loop w)) (\<lambda>_ _. False) (loop w)"
    and "\<And>l. has_loop w \<Longrightarrow> loop_kept (loop w) l \<Longrightarrow> Q () (w\<lparr>loop := l\<rparr>)" and "\<not> has_loop w \<Longrightarrow> E none_error w"
  shows "wp (py_seq (on_loop m) (py_ret ())) Q E w"
proof (cases "has_loop w")
  case True
  with wp_mono [OF assms(1)] assms(2) show ?thesis by (simp add: wp_rules)
next
  case False
  with assms(3) show ?thesis by (simp add: wp_rules)
qed

lemma wp_remove_reader_of:
  "loop_ok (sock_fd w) (loop w) \<Longrightarrow> (\<And>l. has_loop w \<Longrightarrow> loop_kept (loop w) l \<Longrightarrow> Q () (w\<lparr>loop := l\<rparr>)) \<Longrightarrow>
     (\<not> has_loop w \<Longrightarrow> E none_error w) \<Longrightarrow> wp remove_reader_of Q E w"
  by (simp add: remove_reader_of_def wp_with wp_loop_call [OF loop_ops_kept(1)])

lemma wp_remove_writer_of:
  "loop_ok (sock_fd w) (loop w) \<Longrightarrow> (\<And>l. has_loop w \<Longrightarrow> loop_kept (loop w) l \<Longrightarrow> Q () (w\<lparr>loop := l\<rparr>)) \<Longrightarrow>
     (\<not> has_loop w \<Longrightarrow> E none_error w) \<Longrightarrow> wp remove_writer_of Q E w"
  by (simp add: remove_writer_of_def wp_with wp_loop_call [OF loop_ops_kept(2)])

lemma wp_add_write_ready:
  "loop_ok (sock_fd w) (loop w) \<Longrightarrow> (\<And>l. has_loop w \<Longrightarrow> loop_kept (loop w) l \<Longrightarrow> Q () (w\<lparr>loop := l\<rparr>)) \<Longrightarrow>
     (\<not> has_loop w \<Longrightarrow> E none_error w) \<Longrightarrow> wp add_write_ready Q E w"
  by (simp add: add_write_ready_def add_writer_of_def wp_with wp_loop_call [OF loop_ops_kept(3)])

lemma wp_call_soon_of:
  assumes "\<And>l. has_loop w \<Longrightarrow> loop_called (loop w) l \<Longrightarrow> Q () (w\<lparr>loop := l\<rparr>)"
    and "\<And>l e. loop_called (loop w) l \<Longrightarrow> E e (w\<lparr>loop := l\<rparr>)"
  shows "wp (call_soon_of CbCallConnectionLost args) Q E w"
proof (cases "has_loop w")
  case True
  with wp_mono [OF call_soon_called] assms show ?thesis
    by (simp add: call_soon_of_def wp_rules)
next
  case False
  with assms(2) [of "loop w"] show ?thesis by (simp add: call_soon_of_def wp_rules loop_called_def)
qed

section \<open>Invariant facts\<close>

text \<open>The invariant without the claims that nothing accepted or arrived is missing: what holds
  between a failed operation and the forced close.\<close>

definition tinv_weak :: "nat \<Rightarrow> sock_transport \<Rightarrow> bool" where
  "tinv_weak k w \<longleftrightarrow> env_inv w \<and> life_inv w \<and> prefix (sent w) (accepted w) \<and>
     (conn_lost w = 0 \<and> \<not> has_sock w \<longrightarrow> accepted w = sent w) \<and> (shut_wr w \<longrightarrow> eof w \<and> buffer w = []) \<and>
     list_all stream_item (replay w) \<and> prefix (delivered (log w)) (arrived w) \<and> flow_inv w \<and>
     length (replay w) \<le> k"

lemma tinv_weakI: "tinv k b w \<Longrightarrow> tinv_weak k w"
  by (simp add: tinv_def tinv_weak_def stream_inv_def read_inv_def)

lemma tinv_no_waiter: "tinv k b w \<Longrightarrow> empty_waiter w = None"
  by (simp add: tinv_def life_inv_def)

lemma tinv_open: "tinv k b w \<Longrightarrow> \<not> closing w \<Longrightarrow> has_sock w \<and> has_loop w \<and> conn_lost w = 0"
  by (auto simp: tinv_def life_inv_def)

lemma tinv_weak_lost: "tinv_weak k w \<Longrightarrow> conn_lost w \<noteq> 0 \<Longrightarrow> tinv k b w"
  by (simp add: tinv_def tinv_weak_def stream_inv_def read_inv_def life_inv_def replayed_def)

lemma tinv_weak_closed: "tinv_weak k w \<Longrightarrow> \<not> has_sock w \<Longrightarrow> tinv k b w"
  by (auto simp: tinv_def tinv_weak_def stream_inv_def read_inv_def life_inv_def replayed_def)

lemma weak_loop_ok: "tinv_weak k w \<Longrightarrow> loop_ok (sock_fd w) (loop w)"
  by (simp add: tinv_weak_def env_inv_def loop_ok_def)

lemmas tinv_weak_defs = tinv_weak_def env_inv_def life_inv_def flow_inv_def

lemma tinv_weak_loop: "tinv_weak k w \<Longrightarrow> loop_kept (loop w) l \<Longrightarrow> tinv_weak k (w\<lparr>loop := l\<rparr>)"
  using queue_inv_kept [of "loop w" l "conn_lost w"] by (simp add: tinv_weak_defs loop_kept_def)

lemma invs_paused [simp]:
  "env_inv (w\<lparr>paused := x\<rparr>) = env_inv w" "life_inv (w\<lparr>paused := x\<rparr>) = life_inv w"
  "stream_inv (w\<lparr>paused := x\<rparr>) = stream_inv w" "read_inv (w\<lparr>paused := x\<rparr>) = read_inv w"
  "flow_inv (w\<lparr>paused := x\<rparr>) = flow_inv w"
  by (simp_all add: env_inv_def life_inv_def stream_inv_def read_inv_def flow_inv_def)

lemma flow_state_append: "flow_state (evs @ [e]) = flow_step (flow_state evs) e"
  by (simp add: flow_state_def)

lemma delivered_append: "delivered (evs @ [e]) = delivered evs @ delivery e"
  by (simp add: delivered_def)

lemma lost_calls_append: "lost_calls (evs @ [e]) = lost_calls evs + (if is_lost e then 1 else 0)"
  by (simp add: lost_calls_def)

lemmas log_append = flow_state_append delivered_append lost_calls_append

lemma force_close_inv:
  assumes "tinv_weak k w"
  shows "wp (force_close exc) (\<lambda>_ w'. tinv k b w' \<and> closing w') (\<lambda>_ w'. tinv k b w' \<and> closing w') w"
proof (cases "conn_lost w = 0")
  case False
  then show ?thesis using tinv_weak_lost [OF assms]
    by (simp add: force_close_def wp_rules tinv_def life_inv_def)
next
  case True
  have fin: "wp (py_seq (py_mod (\<lambda>w. w\<lparr>conn_lost := Suc (conn_lost w)\<rparr>)) (call_soon_of CbCallConnectionLost [exc_arg exc]))
      (\<lambda>_ w'. tinv k b w' \<and> closing w') (\<lambda>_ w'. tinv k b w' \<and> closing w') v"
    if v: "tinv_weak k v" "closing v" "buffer v = []" for v
  proof -
    have "tinv k b (v\<lparr>conn_lost := Suc (conn_lost v), loop := l\<rparr>)" if "loop_called (loop v) l" for l
      using v that queue_inv_called [OF _ that] by (simp add: tinv_defs tinv_weak_defs loop_called_def)
    then show ?thesis using v(2) unfolding wp_seq wp_mod by (intro wp_call_soon_of) simp_all
  qed
  have mid: "wp (py_seq (py_when (\<lambda>w. \<not> closing w) (py_seq (py_mod (\<lambda>w. w\<lparr>closing := True\<rparr>)) remove_reader_of))
        (py_seq (py_mod (\<lambda>w. w\<lparr>conn_lost := Suc (conn_lost w)\<rparr>)) (call_soon_of CbCallConnectionLost [exc_arg exc])))
      (\<lambda>_ w'. tinv k b w' \<and> closing w') (\<lambda>_ w'. tinv k b w' \<and> closing w') v"
    if v: "tinv_weak k v" "buffer v = []" for v
  proof (cases "closing v")
    case True
    with fin [OF v(1) _ v(2)] show ?thesis by (simp add: wp_rules)
  next
    case False
    let ?v = "v\<lparr>closing := True\<rparr>"
    have "has_loop v" using False v(1) by (auto simp: tinv_weak_defs)
    moreover have "tinv_weak k (?v\<lparr>loop := l\<rparr>)" if "loop_kept (loop v) l" for l
      using tinv_weak_loop [OF v(1) that] v(2) by (simp add: tinv_weak_defs)
    ultimately show ?thesis using False v(2) weak_loop_ok [OF v(1)]
      unfolding wp_seq [of "py_when c m" for c m] wp_when wp_seq [of "py_mod (\<lambda>w. w\<lparr>closing := True\<rparr>)"] wp_mod
      by (auto intro!: wp_remove_reader_of fin)
  qed
  show ?thesis
  proof (cases "buffer w = []")
    case buf: True
    with mid [OF assms] True show ?thesis by (simp add: force_close_def wp_if wp_seq wp_when)
  next
    case False
    let ?v = "w\<lparr>buffer := []\<rparr>"
    have v: "tinv_weak k (?v\<lparr>loop := l\<rparr>)" if "loop_kept (loop w) l" for l
      using tinv_weak_loop [OF assms that] by (simp add: tinv_weak_defs)
    moreover have "tinv k b ?v \<and> closing ?v" if "\<not> has_loop w"
      using that v [of "loop w"] tinv_weak_closed [of k ?v b] by (simp add: tinv_weak_defs)
    ultimately show ?thesis using True False weak_loop_ok [OF assms]
      unfolding force_close_def wp_if wp_seq [of "py_when (\<lambda>w. buffer w \<noteq> []) m" for m] wp_when
        wp_seq [of "py_mod (\<lambda>w. w\<lparr>buffer := []\<rparr>)"] wp_mod
      by (auto intro!: wp_remove_writer_of mid)
  qed
qed

lemma base_close_inv:
  assumes inv: "tinv k b w"
  shows "wp base_close (\<lambda>_ v. tinv k b v \<and> closing v) (\<lambda>_ v. tinv k b v \<and> closing v) w"
proof -
  have fin: "wp (py_when (\<lambda>w. buffer w = [])
             (py_seq (py_mod (\<lambda>w. w\<lparr>conn_lost := Suc (conn_lost w)\<rparr>))
               (py_seq remove_writer_of (call_soon_of CbCallConnectionLost [ANone]))))
      (\<lambda>_ v. tinv k b v \<and> closing v) (\<lambda>_ v. tinv k b v \<and> closing v) v"
    if v: "tinv k b v" "closing v" for v
  proof (cases "buffer v = []")
    case True
    have k0: "tinv k b (v\<lparr>conn_lost := Suc (conn_lost v)\<rparr>)" using v True by (simp add: tinv_defs)
    have k: "tinv k b (v\<lparr>conn_lost := Suc (conn_lost v), loop := l\<rparr>)"
      if "loop_kept (loop v) l'" "loop_called l' l" for l l'
    proof -
      have "queue_inv (Suc (conn_lost v)) l"
        using v(1) queue_inv_called [OF _ that(2)] queue_inv_kept [OF that(1)] by (simp add: tinv_defs)
      with k0 that show ?thesis by (simp add: tinv_defs loop_kept_def loop_called_def)
    qed
    show ?thesis unfolding wp_when wp_seq wp_mod
      by (simp add: True, intro wp_remove_writer_of wp_call_soon_of)
         (use k k0 env_loop_ok [OF k0] v(2) in auto)
  next
    case False
    with v show ?thesis by (simp add: wp_when)
  qed
  show ?thesis
  proof (cases "closing w")
    case True
    with inv show ?thesis by (simp add: base_close_def wp_rules)
  next
    case False
    have "has_loop w" using False inv by (auto simp: tinv_defs)
    moreover have "tinv k b (w\<lparr>closing := True, loop := l\<rparr>)" if "loop_kept (loop w) l" for l
      using tinv_loop [OF inv that] by (simp add: tinv_defs)
    ultimately show ?thesis using False env_loop_ok [OF inv] fin
      unfolding base_close_def wp_if wp_seq wp_mod by (auto intro!: wp_remove_reader_of)
  qed
qed

lemma register_reader_inv: "tinv k b w \<Longrightarrow> wp register_reader (\<lambda>_. tinv k b) (\<lambda>_. tinv k b) w"
proof -
  assume inv: "tinv k b w"
  then have "drain_mode w = Some DrainTcp" by (simp add: tinv_defs)
  then show ?thesis using inv wp_loop_call [OF loop_ops_kept(4) [OF env_loop_ok [OF inv]], where E = "\<lambda>_. tinv k b"]
    by (simp add: register_reader_def wp_if wp_with wp_ret tinv_loop)
qed

lemma pause_reading_inv: "tinv k b w \<Longrightarrow> wp pause_reading (\<lambda>_. tinv k b) (\<lambda>_. tinv k b) w"
  by (auto simp: pause_reading_def wp_rules tinv_defs)

section \<open>The write buffer\<close>

text \<open>\<open>_adjust_leftover_buffer\<close> drops the first \<open>n\<close> bytes of the buffer, and fails only if there
  are not so many.\<close>

lemma adjust_leftover_buffer_drop:
  "n \<le> length (concat buf) \<Longrightarrow>
     \<exists>buf'. adjust_leftover_buffer n buf = Inr buf' \<and> concat buf' = drop n (concat buf)"
  by (induction n buf rule: adjust_leftover_buffer.induct) auto

lemma adjust_leftover_buffer_error:
  "length (concat buf) < n \<Longrightarrow> adjust_leftover_buffer n buf = Inl (IndexError ''pop from an empty deque'')"
  by (induction n buf rule: adjust_leftover_buffer.induct) auto

lemma wp_kernel_send:
  assumes "\<forall>e. Inl e \<in> set (send_script w) \<longrightarrow> \<not> is_exit e"
    and "\<not> has_sock w \<Longrightarrow> E none_error w"
    and "\<And>e s. has_sock w \<Longrightarrow> \<not> is_exit e \<Longrightarrow> set s \<subseteq> set (send_script w) \<Longrightarrow> E e (w\<lparr>send_script := s\<rparr>)"
    and "\<And>n s. has_sock w \<Longrightarrow> set s \<subseteq> set (send_script w) \<Longrightarrow>
      Q (min n (length d)) (w\<lparr>send_script := s, sent := sent w @ take n d\<rparr>)"
  shows "wp (kernel_send d) Q E w"
proof (cases "has_sock w \<and> send_script w \<noteq> []")
  case False
  with assms(2) assms(3) [of BlockingIOError "send_script w"] show ?thesis
    by (auto simp: kernel_send_def wp_rules)
next
  case True
  then obtain a rest where a: "send_script w = a # rest" by (cases "send_script w") auto
  have sub: "set rest \<subseteq> set (send_script w)" using a by auto
  show ?thesis
  proof (cases a)
    case (Inl e)
    with a assms(1) have "\<not> is_exit e" by auto
    with assms(3) [OF _ _ sub] True a Inl show ?thesis by (simp add: kernel_send_def wp_rules)
  next
    case (Inr n)
    with assms(4) [OF _ sub, of n] True a show ?thesis by (simp add: kernel_send_def wp_rules)
  qed
qed

lemma tinv_script: "tinv k b w \<Longrightarrow> \<forall>e. Inl e \<in> set (send_script w) \<longrightarrow> \<not> is_exit e"
  by (simp add: tinv_defs)

lemma tinv_send_script: "tinv k b w \<Longrightarrow> set s \<subseteq> set (send_script w) \<Longrightarrow> tinv k b (w\<lparr>send_script := s\<rparr>)"
  by (auto simp: tinv_defs)

lemma take_concat_take: "take n (concat (take k bs)) = take (min n (length (concat (take k bs)))) (concat bs)"
proof -
  have "concat bs = concat (take k bs) @ concat (drop k bs)"
    by (metis append_take_drop_id concat_append)
  then show ?thesis by (simp add: take_append min_def)
qed

text \<open>After a \<open>sendmsg\<close> of the front of the buffer the leftover buffer holds the rest.\<close>

lemma sendmsg_adjust_inv:
  fixes n :: nat
  assumes inv: "tinv k b w" and lost: "conn_lost w = 0" and buf: "buffer w \<noteq> []" and sock: "has_sock w"
    and s: "set s \<subseteq> set (send_script w)"
  defines "d \<equiv> concat (get_sendmsg_buffer w)"
  shows "wp (adjust_buffer (min n (length d))) (\<lambda>_ v. tinv k b v \<and> has_sock v) (\<lambda>_ _. False)
      (w\<lparr>send_script := s, sent := sent w @ take n d\<rparr>)"
proof -
  let ?m = "min n (length d)"
  have d: "take n d = take ?m (concat (buffer w))"
    unfolding d_def get_sendmsg_buffer_def by (rule take_concat_take)
  have "concat (buffer w) = d @ concat (drop (iov_max w) (buffer w))"
    unfolding d_def get_sendmsg_buffer_def by (metis append_take_drop_id concat_append)
  then have "?m \<le> length (concat (buffer w))" by simp
  then obtain bs where b: "adjust_leftover_buffer ?m (buffer w) = Inr bs"
    "concat bs = drop ?m (concat (buffer w))"
    using adjust_leftover_buffer_drop by blast
  have "sent w @ take n d @ concat bs = sent w @ concat (buffer w)"
    unfolding d b(2) by simp
  then have "tinv k b (w\<lparr>send_script := s, sent := sent w @ take n d, buffer := bs\<rparr>)"
    using inv lost buf s sock by (auto simp: tinv_defs prefix_def)
  then show ?thesis using b(1) sock by (simp add: adjust_buffer_def wp_rules)
qed

section \<open>The interface of the protocol, and the methods that call it\<close>

locale sock_protocol =
  fixes P :: "sock_transport proto"
  assumes keeps: "\<not> passive_event ev \<Longrightarrow> tinv k b w \<Longrightarrow> tinv k b (snd (P ev w))"
    and passive_calls: "passive_event ev \<Longrightarrow> snd (P ev w) = w"
    and no_exit: "fst (P ev w) = Inl e \<Longrightarrow> \<not> is_exit e"
begin

lemma wp_P:
  assumes "\<not> passive_event ev" and "tinv k b w"
    and "\<And>x w'. tinv k b w' \<Longrightarrow> Q x w'" and "\<And>e w'. tinv k b w' \<Longrightarrow> \<not> is_exit e \<Longrightarrow> E e w'"
  shows "wp (P ev) Q E w"
proof -
  obtain r w' where r: "P ev w = (r, w')" by fastforce
  with keeps [OF assms(1,2)] have "tinv k b w'" by simp
  with assms(3,4) no_exit [of ev w] r show ?thesis by (auto simp: wp_def split: sum.split)
qed

lemma wp_P_passive:
  "passive_event ev \<Longrightarrow> (\<And>x. Q x w) \<Longrightarrow> (\<And>e. \<not> is_exit e \<Longrightarrow> E e w) \<Longrightarrow> wp (P ev) Q E w"
  using passive_calls [of ev w] no_exit [of ev w] by (auto simp: wp_def split: prod.split sum.split)

lemma wp_exception_handler:
  "(has_loop w \<Longrightarrow> Q () w) \<Longrightarrow> (\<not> has_loop w \<Longrightarrow> E none_error w) \<Longrightarrow>
     wp (call_exception_handler P m e) Q E w"
  by (auto simp: call_exception_handler_def wp_rules intro!: wp_P_passive)

lemma fatal_error_inv:
  assumes "tinv_weak k w"
  shows "wp (fatal_error P e m) (\<lambda>_ w'. tinv k b w' \<and> closing w') (\<lambda>_ w'. tinv k b w' \<and> closing w') w"
proof -
  have "tinv k b w \<and> closing w" if "\<not> has_loop w"
    using that tinv_weak_closed [OF assms] assms by (auto simp: tinv_weak_defs)
  then show ?thesis using force_close_inv [OF assms]
    by (auto simp: fatal_error_def wp_seq wp_if_val wp_need_loop intro!: wp_exception_handler)
qed

lemma wp_fatal_error:
  assumes "tinv_weak k w" and "\<And>w'. tinv k b w' \<Longrightarrow> closing w' \<Longrightarrow> Q () w'"
    and "\<And>e w'. tinv k b w' \<Longrightarrow> closing w' \<Longrightarrow> E e w'"
  shows "wp (fatal_error P e m) Q E w"
  by (rule wp_mono [OF fatal_error_inv [OF assms(1), of _ _ b]]) (use assms(2,3) in auto)

text \<open>A protocol call whose event the invariant can account for.\<close>

lemma wp_call_protocol:
  assumes "life_inv w" and "\<not> passive_event ev" and "has_method PlainProtocol ev"
    and "\<not> has_sock w \<Longrightarrow> E none_error w" and "has_sock w \<Longrightarrow> tinv k b (w\<lparr>log := log w @ [ev]\<rparr>)"
    and "\<And>x w'. tinv k b w' \<Longrightarrow> Q x w'" and "\<And>e w'. tinv k b w' \<Longrightarrow> \<not> is_exit e \<Longrightarrow> E e w'"
  shows "wp (call_protocol P ev) Q E w"
proof (cases "has_sock w")
  case True
  with assms(1,3) wp_P [OF assms(2) assms(5) [OF True] assms(6,7)] show ?thesis
    by (simp add: call_protocol_def wp_rules life_inv_def)
next
  case False
  with assms(1,4) show ?thesis by (simp add: call_protocol_def wp_rules life_inv_def)
qed

lemma maybe_pause_inv:
  assumes "tinv k b w"
  shows "wp (maybe_pause_protocol get_write_buffer_size P) (\<lambda>_. tinv k b) (\<lambda>_. tinv k b) w"
proof (cases "get_write_buffer_size w \<le> high_water w \<or> protocol_paused w")
  case True
  with assms show ?thesis by (auto simp: maybe_pause_protocol_def wp_rules)
next
  case False
  let ?w = "w\<lparr>protocol_paused := True\<rparr>"
  have "tinv k b (?w\<lparr>log := log ?w @ [PauseWriting]\<rparr>)" if "has_sock w"
    using assms False that by (simp add: tinv_defs log_append)
  then have "wp (call_protocol P PauseWriting) (\<lambda>_. tinv k b) (\<lambda>e w'. tinv k b w' \<and> \<not> is_exit e) ?w"
    using assms by (intro wp_call_protocol) (simp_all add: tinv_defs none_error_def)
  then show ?thesis using False
    by (simp add: maybe_pause_protocol_def wp_rules)
       (erule wp_mono, auto simp: on_error_def wp_rules intro!: wp_exception_handler)
qed

lemma maybe_resume_inv:
  assumes "tinv k b w" and "has_sock w"
  shows "wp (maybe_resume_protocol get_write_buffer_size P) (\<lambda>_. tinv k b) (\<lambda>_. tinv k b) w"
proof (cases "protocol_paused w \<and> get_write_buffer_size w \<le> low_water w")
  case False
  with assms show ?thesis by (auto simp: maybe_resume_protocol_def wp_rules)
next
  case True
  let ?w = "w\<lparr>protocol_paused := False\<rparr>"
  have "tinv k b (?w\<lparr>log := log ?w @ [ResumeWriting]\<rparr>)"
    using assms True by (simp add: tinv_defs log_append)
  then have "wp (call_protocol P ResumeWriting) (\<lambda>_. tinv k b) (\<lambda>e w'. tinv k b w' \<and> \<not> is_exit e) ?w"
    using assms by (intro wp_call_protocol) (simp_all add: tinv_defs)
  then show ?thesis using True
    by (simp add: maybe_resume_protocol_def wp_rules)
       (erule wp_mono, auto simp: on_error_def wp_rules intro!: wp_exception_handler)
qed

lemma set_limits_inv:
  assumes "tinv k b w"
  shows "wp (set_write_buffer_limits get_write_buffer_size P h l) (\<lambda>_. tinv k b) (\<lambda>_. tinv k b) w"
proof -
  have "tinv k b (w\<lparr>high_water := x, low_water := y\<rparr>)" for x y using assms by (simp add: tinv_defs)
  from maybe_pause_inv [OF this] assms show ?thesis
    by (simp add: set_write_buffer_limits_def wp_rules Let_def)
qed

text \<open>The end of the connection, with nothing left to write.\<close>

lemma call_connection_lost_inv:
  assumes "tinv k b w" and "has_sock w \<longrightarrow> closing w \<and> buffer w = []"
  shows "wp (call_connection_lost P exc) (\<lambda>_. tinv k b) (\<lambda>_. tinv k b) w"
proof -
  let ?Q = "\<lambda>_ v. tinv k b (v\<lparr>write_ready_m := None\<rparr>) \<and> empty_waiter v = None"
  have "wp (base_call_connection_lost P exc) ?Q ?Q w"
  proof (cases "has_sock w")
    case True
    have pre: "protocol w = Some PlainProtocol" "protocol_connected w" using assms(1) True by (simp_all add: tinv_defs)
    let ?v = "w\<lparr>log := log w @ [ConnectionLost exc], sock_closed := True, has_sock := False, protocol := None,
      has_loop := False\<rparr>"
    have "tinv k b (?v\<lparr>server_active := n, server := None, write_ready_m := None\<rparr>)"
      "tinv k b (?v\<lparr>write_ready_m := None\<rparr>)" for n
      using assms True by (simp_all add: tinv_defs log_append)
    with tinv_no_waiter [OF assms(1)] show ?thesis using pre True
      by (simp add: base_call_connection_lost_def wp_rules call_protocol_def) (rule wp_P_passive; simp add: wp_rules)
  next
    case False
    then show ?thesis using assms(1)
      by (simp add: base_call_connection_lost_def wp_rules call_protocol_def tinv_defs)
  qed
  then show ?thesis
    by (simp add: call_connection_lost_def wp_rules) (erule wp_mono, simp_all add: wp_rules)
qed

text \<open>The writing methods.\<close>

lemma shutdown_inv: "tinv k b w \<Longrightarrow> buffer w = [] \<Longrightarrow> eof w \<Longrightarrow> wp shutdown_wr (\<lambda>_. tinv k b) (\<lambda>_. tinv k b) w"
  by (auto simp: shutdown_wr_def wp_rules tinv_defs split: option.split)

lemma write_drained_inv:
  assumes "tinv k b w" and "has_sock w"
  shows "wp (write_drained P) (\<lambda>_. tinv k b) (\<lambda>_. tinv k b) w"
proof -
  have fin: "wp (py_when (\<lambda>w. buffer w = [])
         (py_seq remove_writer_of
           (py_seq (py_when (\<lambda>w. empty_waiter w \<noteq> None) (waiter_set FutResult))
             (py_if closing (call_connection_lost P None) (py_when eof shutdown_wr))))) (\<lambda>_. tinv k b) (\<lambda>_. tinv k b) v"
    if v: "tinv k b v" for v
  proof (cases "buffer v = []")
    case True
    have "tinv k b (v\<lparr>loop := l\<rparr>)" "empty_waiter (v\<lparr>loop := l\<rparr>) = None" if "loop_kept (loop v) l" for l
      using tinv_loop [OF v that] by (simp_all add: tinv_defs)
    then show ?thesis using True v env_loop_ok [OF v] call_connection_lost_inv shutdown_inv
      unfolding wp_when wp_seq wp_if by (auto intro!: wp_remove_writer_of)
  next
    case False
    with v show ?thesis by (simp add: wp_when)
  qed
  show ?thesis unfolding write_drained_def wp_seq [of "maybe_resume_protocol s p" for s p]
    by (rule wp_mono [OF maybe_resume_inv [OF assms]]) (use fin in auto)
qed

lemma write_failed_inv:
  assumes "tinv k b w" and "\<not> is_exit e"
  shows "wp (write_failed P e) (\<lambda>_. tinv k b) (\<lambda>_. tinv k b) w"
proof -
  have weak: "tinv_weak k (w\<lparr>loop := l, buffer := []\<rparr>)" if "loop_kept (loop w) l" for l
    using tinv_weak_loop [OF tinv_weakI [OF assms(1)] that] by (simp add: tinv_weak_defs)
  have "wp (fatal_error P e m) (\<lambda>_. wp (py_when (\<lambda>w. empty_waiter w \<noteq> None) (waiter_set v)) (\<lambda>_. tinv k b) (\<lambda>_. tinv k b))
      (\<lambda>_. tinv k b) (w\<lparr>loop := l, buffer := []\<rparr>)" if "loop_kept (loop w) l" for l m v
    by (rule wp_fatal_error [OF weak [OF that], where b = b]) (simp_all add: wp_when tinv_no_waiter [of k b])
  then show ?thesis using assms env_loop_ok [OF assms(1)]
    unfolding write_failed_def on_error_def wp_if_val wp_ret wp_seq wp_mod
    by (auto intro!: wp_remove_writer_of)
qed

lemma write_sendmsg_inv:
  assumes "tinv k b w"
  shows "wp (write_sendmsg P) (\<lambda>_. tinv k b) (\<lambda>_. tinv k b) w"
proof (cases "buffer w = [] \<or> conn_lost w \<noteq> 0")
  case True
  with assms show ?thesis by (auto simp: write_sendmsg_def wp_rules)
next
  case False
  let ?d = "concat (get_sendmsg_buffer w)"
  have "wp (py_bind (kernel_send ?d) adjust_buffer) (\<lambda>_ v. tinv k b v \<and> has_sock v) (\<lambda>e v. tinv k b v \<and> \<not> is_exit e) w"
    unfolding wp_bind
  proof (rule wp_kernel_send)
    show "wp (adjust_buffer (min n (length ?d))) (\<lambda>_ v. tinv k b v \<and> has_sock v) (\<lambda>e v. tinv k b v \<and> \<not> is_exit e)
        (w\<lparr>send_script := s, sent := sent w @ take n ?d\<rparr>)"
      if "has_sock w" "set s \<subseteq> set (send_script w)" for n s
      by (rule wp_mono [OF sendmsg_adjust_inv [OF assms _ _ that]]) (use False in auto)
  qed (use assms tinv_script tinv_send_script in \<open>auto simp: none_error_def\<close>)
  then show ?thesis using False write_drained_inv write_failed_inv
    unfolding write_sendmsg_def wp_if wp_try_else wp_bind wp_with
    by (auto elim!: wp_mono)
qed

lemma append_data_inv:
  "tinv k b (w\<lparr>buffer := buffer w @ [d]\<rparr>) \<Longrightarrow> wp (append_data P d) (\<lambda>_. tinv k b) (\<lambda>_. tinv k b) w"
  by (simp add: append_data_def wp_rules maybe_pause_inv)

lemma count_lost_inv: "tinv k b w \<Longrightarrow> conn_lost w \<noteq> 0 \<Longrightarrow> wp count_lost_write (\<lambda>_. tinv k b) (\<lambda>_. tinv k b) w"
  by (simp add: count_lost_write_def wp_rules tinv_defs)

text \<open>The direct send of \<open>write\<close>: \<open>d\<close> is accepted, and what the kernel does not take is
  buffered.\<close>

lemma write_now_inv:
  assumes inv: "tinv k b w" and open_w: "takes_writes w" and buf: "buffer w = []"
  shows "wp (py_try_else (kernel_send d)
      (\<lambda>e. if is_blocking e then py_seq add_write_ready (append_data P d)
           else on_error (\<lambda>e. fatal_error P e m) e)
      (\<lambda>n. if drop n d = [] then py_ret () else py_seq add_write_ready (append_data P (drop n d))))
    (\<lambda>_. tinv k b) (\<lambda>_. tinv k b) (w\<lparr>accepted := accepted w @ d\<rparr>)"
proof -
  define w1 where "w1 = w\<lparr>accepted := accepted w @ d\<rparr>"
  have o: "has_sock w" "has_loop w" "\<not> eof w" "conn_lost w = 0"
    using open_w inv by (auto simp: takes_writes_def tinv_defs)
  have fits: "tinv k b (w1\<lparr>send_script := s, sent := sent w @ take n d, loop := l, buffer := [drop n d]\<rparr>)"
      "drop n d = [] \<Longrightarrow> tinv k b (w1\<lparr>send_script := s, sent := sent w @ take n d\<rparr>)"
    if "set s \<subseteq> set (send_script w)" "loop_kept (loop w) l" for s n l
    using tinv_send_script [OF tinv_loop [OF inv that(2)], of s] tinv_send_script [OF inv that(1)] that o buf
    by (auto simp: w1_def tinv_defs take_is_prefix)
  have weak: "tinv_weak k (w1\<lparr>send_script := s\<rparr>)" if "set s \<subseteq> set (send_script w)" for s
    using tinv_weakI [OF tinv_send_script [OF inv that]] o by (simp add: w1_def tinv_weak_defs prefix_prefix)
  have rest: "wp (py_seq add_write_ready (append_data P (drop n d))) (\<lambda>_. tinv k b) (\<lambda>_. tinv k b)
      (w1\<lparr>send_script := s, sent := sent w @ take n d\<rparr>)" if "set s \<subseteq> set (send_script w)" for s n
    unfolding wp_seq
    by (rule wp_add_write_ready)
       (use env_loop_ok [OF inv] o buf fits(1) [OF that] in \<open>auto simp: w1_def intro!: append_data_inv\<close>)
  have rest0: "wp (py_seq add_write_ready (append_data P d)) (\<lambda>_. tinv k b) (\<lambda>_. tinv k b) (w1\<lparr>send_script := s\<rparr>)"
    if "set s \<subseteq> set (send_script w)" for s
    using rest [OF that, of 0] by (simp add: w1_def)
  show ?thesis unfolding wp_try_else w1_def [symmetric]
  proof (rule wp_kernel_send)
    show "wp (if is_blocking e then py_seq add_write_ready (append_data P d) else on_error (\<lambda>e. fatal_error P e m) e)
        (\<lambda>_. tinv k b) (\<lambda>_. tinv k b) (w1\<lparr>send_script := s\<rparr>)"
      if "\<not> is_exit e" "set s \<subseteq> set (send_script w1)" for e s
    proof -
      have "wp (fatal_error P e m) (\<lambda>_. tinv k b) (\<lambda>_. tinv k b) (w1\<lparr>send_script := s\<rparr>)"
        by (rule wp_fatal_error [OF weak, where b = b]) (use that in \<open>simp_all add: w1_def\<close>)
      then show ?thesis using that rest0 [of s] by (simp add: on_error_def w1_def)
    qed
    show "wp (if drop (min n (length d)) d = [] then py_ret ()
          else py_seq add_write_ready (append_data P (drop (min n (length d)) d)))
        (\<lambda>_. tinv k b) (\<lambda>_. tinv k b) (w1\<lparr>send_script := s, sent := sent w1 @ take n d\<rparr>)"
      if "set s \<subseteq> set (send_script w1)" for n s
    proof -
      have d: "drop (min n (length d)) d = drop n d" by (simp add: min_def)
      show ?thesis unfolding d using that rest [of s n] fits(2) [of s "loop w" n]
        by (simp add: w1_def wp_ret)
    qed
  qed (use inv o tinv_script in \<open>auto simp: w1_def\<close>)
qed

lemma write_closed_inv:
  assumes "tinv k b w" and "\<not> has_sock w"
  shows "wp (py_try_else (kernel_send d)
      (\<lambda>e. if is_blocking e then m1 else on_error (\<lambda>e. fatal_error P e m) e) kont) (\<lambda>_. tinv k b) (\<lambda>_. tinv k b) w"
proof -
  have "wp (fatal_error P e m) (\<lambda>_. tinv k b) (\<lambda>_. tinv k b) w" for e
    by (rule wp_fatal_error [OF tinv_weakI [OF assms(1)], where b = b]) simp_all
  with assms(2) show ?thesis by (simp add: kernel_send_def wp_rules none_error_def on_error_def)
qed

lemma exec_write_inv: "tinv k b w \<Longrightarrow> wp (exec_op P (OpWrite x)) (\<lambda>_. tinv k b) (\<lambda>_. tinv k b) w"
proof (cases x)
  case NotBytes
  assume "tinv k b w"
  with NotBytes show ?thesis by (simp add: tr_write_def wp_rules)
next
  case (BytesLike d)
  assume inv: "tinv k b w"
  let ?w1 = "w\<lparr>accepted := accepted w @ d\<rparr>"
  have ew: "empty_waiter w = None" using inv by (simp add: tinv_defs)
  note unfolds = BytesLike exec_op.simps pydata.case note_write_def tr_write_def wp_seq [of "py_when c m" for c m]
    wp_when wp_mod wp_if wp_if_val wp_raise wp_ret
  show ?thesis
  proof (cases "takes_writes w")
    case True
    have e: "\<not> eof w" "conn_lost w = 0" "has_sock w" using True by (auto simp: takes_writes_def)
    show ?thesis
    proof (cases "d = [] \<or> buffer w = []")
      case True
      then show ?thesis unfolding unfolds
        using \<open>takes_writes w\<close> e ew inv write_now_inv [OF inv \<open>takes_writes w\<close>] by auto
    next
      case False
      then have "tinv k b (?w1\<lparr>buffer := buffer w @ [d]\<rparr>)" using inv e by (auto simp: tinv_defs prefix_def)
      then have "wp (append_data P d) (\<lambda>_. tinv k b) (\<lambda>_. tinv k b) ?w1" by (intro append_data_inv) simp
      with False True e ew show ?thesis unfolding unfolds by simp
    qed
  next
    case False
    show ?thesis
    proof (cases "eof w \<or> conn_lost w \<noteq> 0")
      case True
      then show ?thesis unfolding unfolds using False inv ew count_lost_inv [OF inv] by auto
    next
      case e: False
      then have s: "\<not> has_sock w" using False ew by (auto simp: takes_writes_def)
      have "tinv k b (w\<lparr>buffer := buffer w @ [d]\<rparr>)" using s e inv by (auto simp: tinv_defs)
      then have "wp (append_data P d) (\<lambda>_. tinv k b) (\<lambda>_. tinv k b) w" by (rule append_data_inv)
      then show ?thesis unfolding unfolds using False e ew inv write_closed_inv [OF inv s] by simp
    qed
  qed
qed

lemma write_eof_inv: "tinv k b w \<Longrightarrow> wp write_eof (\<lambda>_. tinv k b) (\<lambda>_. tinv k b) w"
proof -
  assume inv: "tinv k b w"
  then have "tinv k b (w\<lparr>eof := True\<rparr>)" by (auto simp: tinv_defs)
  with inv shutdown_inv [OF this] show ?thesis by (simp add: write_eof_def wp_rules)
qed

lemma write_ready_inv:
  assumes "tinv k b v" and "\<And>v'. tinv k b v' \<Longrightarrow> Q () v'" and "\<And>e v'. tinv k b v' \<Longrightarrow> E e v'"
  shows "wp (write_ready P) Q E v"
proof -
  have "write_ready_m v = None \<or> write_ready_m v = Some WriteSendmsg" using assms(1) by (auto simp: tinv_defs)
  then have "wp (write_ready P) (\<lambda>_. tinv k b) (\<lambda>_. tinv k b) v"
    using assms(1) write_sendmsg_inv by (auto simp: write_ready_def wp_rules)
  then show ?thesis by (rule wp_mono) (use assms(2,3) in auto)
qed

lemma exec_writelines_inv: "tinv k b w \<Longrightarrow> wp (exec_op P (OpWritelines ds)) (\<lambda>_. tinv k b) (\<lambda>_. tinv k b) w"
proof -
  assume inv: "tinv k b w"
  let ?w1 = "w\<lparr>accepted := accepted w @ concat ds\<rparr>" and ?b = "buffer w @ ds"
  have ew: "empty_waiter w = None" using inv by (simp add: tinv_defs)
  note unfolds = exec_op.simps note_write_def writelines_def wp_seq wp_when wp_mod wp_if wp_if_val wp_raise wp_ret
  let ?fin = "py_when (\<lambda>w. buffer w \<noteq> []) (py_seq add_write_ready (maybe_pause_protocol get_write_buffer_size P))"
  have fin: "wp ?fin (\<lambda>_. tinv k b) (\<lambda>_. tinv k b) v" if "tinv k b v" for v
    unfolding wp_when wp_seq
    using that env_loop_ok [OF that] tinv_loop [OF that] by (auto intro!: wp_add_write_ready maybe_pause_inv)
  have ready: "wp (write_ready P) (\<lambda>_. wp ?fin (\<lambda>_. tinv k b) (\<lambda>_. tinv k b)) (\<lambda>_. tinv k b) v" if "tinv k b v" for v
    by (rule write_ready_inv [OF that]) (simp_all only: fin)
  show ?thesis
  proof (cases "takes_writes w")
    case True
    have e: "\<not> eof w" "conn_lost w = 0" "has_sock w" using True by (auto simp: takes_writes_def)
    have "tinv k b (?w1\<lparr>buffer := ?b\<rparr>)" using inv e by (auto simp: tinv_defs prefix_def)
    from ready [OF this] True e ew inv show ?thesis unfolding unfolds by simp
  next
    case False
    show ?thesis
    proof (cases "eof w \<or> conn_lost w \<noteq> 0 \<or> ds = []")
      case True
      then show ?thesis unfolding unfolds using False inv ew count_lost_inv [OF inv] by auto
    next
      case e: False
      then have "\<not> has_sock w" using False ew by (auto simp: takes_writes_def)
      then have "tinv k b (w\<lparr>buffer := ?b\<rparr>)" using e inv by (auto simp: tinv_defs)
      from ready [OF this] False e ew inv show ?thesis unfolding unfolds by simp
    qed
  qed
qed

text \<open>The reading methods. \<open>pending k b it w\<close>: the item \<open>it\<close> has been taken for delivery.\<close>

definition pending :: "nat \<Rightarrow> bool \<Rightarrow> replay_item \<Rightarrow> sock_transport \<Rightarrow> bool" where
  "pending k b it w \<longleftrightarrow> tinv_weak k w \<and> stream_inv w \<and> \<not> closing w \<and> stream_item it \<and>
     arrived w = delivered (log w) @ it # replay w \<and> (b \<longrightarrow> replayed w)"

lemma pending_open:
  assumes "pending k b it w"
  shows "has_sock w" "has_loop w" "conn_lost w = 0" "life_inv w" "tinv_weak k w"
  using assms by (auto simp: pending_def tinv_weak_defs)

lemma flow_step_other: "ev \<noteq> PauseWriting \<Longrightarrow> ev \<noteq> ResumeWriting \<Longrightarrow> flow_step s ev = s"
  by (cases "(s, ev)" rule: flow_step.cases) auto

lemma pending_logged:
  assumes "pending k b it w" and "delivery ev = [it]"
  shows "tinv k b (w\<lparr>log := log w @ [ev]\<rparr>)"
proof -
  have "\<not> is_lost ev \<and> flow_step s ev = s" for s using assms(2) by (cases ev) (auto simp: flow_step_other)
  then show ?thesis using assms pending_open [OF assms(1)]
    by (simp add: pending_def tinv_defs tinv_weak_defs log_append)
qed

lemma tinv_closing: "tinv k b w \<Longrightarrow> \<not> has_loop w \<Longrightarrow> closing w"
  by (simp add: tinv_def life_inv_def)

lemma wp_deliver_call:
  assumes "pending k b it w" and "delivery ev = [it]"
    and "\<And>x v. tinv k b v \<Longrightarrow> wp (h x) (\<lambda>_. tinv k b) (\<lambda>_ v. tinv k b v \<and> closing v) v"
  shows "wp (py_try_else (call_protocol P ev) (on_error (\<lambda>e. fatal_error P e m)) h)
    (\<lambda>_. tinv k b) (\<lambda>_ v. tinv k b v \<and> closing v) w"
  unfolding wp_try_else
proof (rule wp_call_protocol)
  show "\<not> passive_event ev" "has_method PlainProtocol ev" using assms(2) by (cases ev; simp)+
  show "tinv k b (w\<lparr>log := log w @ [ev]\<rparr>)" by (rule pending_logged [OF assms(1,2)])
  show "wp (h x) (\<lambda>_. tinv k b) (\<lambda>_ v. tinv k b v \<and> closing v) v" if "tinv k b v" for x v
    by (rule assms(3) [OF that])
  show "wp (on_error (\<lambda>e. fatal_error P e m) e) (\<lambda>_. tinv k b) (\<lambda>_ v. tinv k b v \<and> closing v) v"
    if "tinv k b v" "\<not> is_exit e" for e v
    using that(2) by (simp add: on_error_def) (rule wp_fatal_error [OF tinv_weakI [OF that(1)], where b = b]; simp)
qed (use pending_open [OF assms(1)] in simp_all)

lemma replay_deliver_inv:
  assumes "pending k b it w"
  shows "wp (replay_deliver P it) (\<lambda>_. tinv k b) (\<lambda>_ v. tinv k b v \<and> closing v) w"
proof (cases it)
  case (ReplayStream d)
  have eof: "wp (if n \<noteq> 0 then remove_reader_of else sock_close) (\<lambda>_. tinv k b) (\<lambda>_ v. tinv k b v \<and> closing v) v"
    if v: "tinv k b v" for n :: nat and v
  proof (cases "n = 0")
    case True
    have "tinv k b (v\<lparr>read_ready_cb := None\<rparr>)" using v by (simp add: tinv_defs)
    from wp_mono [OF base_close_inv [OF this]] True show ?thesis
      by (simp add: sock_close_def wp_seq wp_mod)
  next
    case False
    with v env_loop_ok [OF v] tinv_loop [OF v] tinv_closing [OF v] show ?thesis
      by (auto intro!: wp_remove_reader_of)
  qed
  show ?thesis
  proof (cases "d = []")
    case True
    have "wp (py_try_else (call_protocol P EofReceived) (on_error (\<lambda>e. fatal_error P e m))
        (\<lambda>n. if n \<noteq> 0 then remove_reader_of else sock_close)) (\<lambda>_. tinv k b) (\<lambda>_ v. tinv k b v \<and> closing v) w" for m
      by (rule wp_deliver_call [OF assms]) (use ReplayStream True eof in simp_all)
    then show ?thesis using pending_open [OF assms]
      by (simp only: ReplayStream True replay_deliver_def replay_item.case deliver_stream_def read_ready_on_eof_def
          wp_seq wp_need_loop if_True simp_thms)
  next
    case False
    have "wp (py_try_else (call_protocol P (DataReceived d)) (on_error (\<lambda>e. fatal_error P e m)) (\<lambda>_. py_ret ()))
        (\<lambda>_. tinv k b) (\<lambda>_ v. tinv k b v \<and> closing v) w" for m
      by (rule wp_deliver_call [OF assms]) (use ReplayStream in \<open>simp_all add: wp_ret\<close>)
    then show ?thesis by (simp add: ReplayStream False replay_deliver_def deliver_stream_def)
  qed
next
  case (ReplayError e)
  then show ?thesis
    by (simp add: replay_deliver_def deliver_error_def)
       (rule wp_fatal_error [OF pending_open(5) [OF assms], where b = b]; simp)
next
  case (ReplayDatagram d a)
  with assms show ?thesis by (simp add: pending_def)
qed

text \<open>The flush delivers until the queue is empty or the transport pauses or closes; the queue's
  length is enough fuel.\<close>

lemma flush_replay_inv:
  assumes "tinv k False w" and "length (replay w) \<le> n"
  shows "wp (flush_replay n (replay_deliver P)) (\<lambda>_ v. tinv k False v \<and> replayed v)
    (\<lambda>_ v. tinv k False v \<and> closing v) w"
  using assms
proof (induction n arbitrary: w)
  case 0
  then show ?case by (simp add: wp_rules replayed_def)
next
  case (Suc n)
  show ?case
  proof (cases "replay w = [] \<or> paused w \<or> closing w")
    case True
    then have "replayed w" by (auto simp: replayed_def)
    with True Suc.prems(1) show ?thesis by (auto simp: wp_rules tinv_def life_inv_def split: list.split)
  next
    case False
    then obtain it rest where r: "replay w = it # rest" by (cases "replay w") auto
    have lost: "conn_lost w = 0" using False Suc.prems(1) by (auto simp: tinv_defs)
    have "pending (length rest) False it (w\<lparr>replay := rest\<rparr>)"
      using False Suc.prems(1) r lost tinv_open [OF Suc.prems(1)] by (simp add: pending_def tinv_defs tinv_weak_defs)
    from replay_deliver_inv [OF this]
    have "wp (replay_deliver P it) (\<lambda>_. wp (flush_replay n (replay_deliver P)) (\<lambda>_ v. tinv k False v \<and> replayed v)
        (\<lambda>_ v. tinv k False v \<and> closing v)) (\<lambda>_ v. tinv k False v \<and> closing v) (w\<lparr>replay := rest\<rparr>)"
    proof (rule wp_mono)
      have k: "length rest \<le> k" "length rest \<le> n" using Suc.prems r by (simp_all add: tinv_def)
      fix v
      assume v: "tinv (length rest) False v"
      with k have "tinv k False v" "length (replay v) \<le> n" by (simp_all add: tinv_def)
      then show "wp (flush_replay n (replay_deliver P)) (\<lambda>_ v. tinv k False v \<and> replayed v)
        (\<lambda>_ v. tinv k False v \<and> closing v) v" by (rule Suc.IH)
    next
      have k: "length rest \<le> k" using Suc.prems r by (simp add: tinv_def)
      show "tinv k False v \<and> closing v" if "tinv (length rest) False v \<and> closing v" for v
        using that k by (simp add: tinv_def)
    qed
    then show ?thesis using False r lost by (simp add: wp_rules)
  qed
qed

lemma resume_reading_inv:
  assumes "tinv k b w"
  shows "wp (sock_resume_reading P) (\<lambda>_. tinv k b) (\<lambda>_. tinv k b) w"
proof (cases "closing w \<or> \<not> paused w")
  case True
  with assms show ?thesis by (auto simp: sock_resume_reading_def resume_reading_def wp_rules)
next
  case False
  let ?w = "w\<lparr>paused := False\<rparr>"
  have up: "tinv k b v" if "tinv k False v" "replayed v" for v using that by (simp add: tinv_def)
  have "tinv k False ?w" using assms by (simp add: tinv_def)
  from flush_replay_inv [OF this]
  have fl: "wp (flush_replay (length (replay w)) (replay_deliver P)) (\<lambda>_ v. tinv k False v \<and> replayed v)
    (\<lambda>_ v. tinv k False v \<and> closing v) ?w" by simp
  let ?rest = "py_if (\<lambda>w. paused w \<or> closing w) (py_ret ()) (py_seq need_loop
      (py_when (\<lambda>w. \<not> is_polling (loop w) (sock_fd w) True) register_reader))"
  have rest: "wp ?rest (\<lambda>_. tinv k b) (\<lambda>_. tinv k b) v" if "tinv k b v" for v
    using that register_reader_inv [OF that] by (simp add: wp_rules)
  have "wp (flush_replay (length (replay w)) (replay_deliver P)) (\<lambda>_. wp ?rest (\<lambda>_. tinv k b) (\<lambda>_. tinv k b))
    (\<lambda>_. tinv k b) ?w"
    by (rule wp_mono [OF fl]) (use rest up in \<open>auto simp: replayed_def\<close>)
  then show ?thesis using False by (simp add: sock_resume_reading_def resume_reading_def wp_rules)
qed

lemma set_protocol_inv:
  assumes "tinv k b w" and "\<not> closing w"
  shows "wp (sock_set_protocol False PlainProtocol) (\<lambda>_. tinv k b) (\<lambda>_. tinv k b) w"
  using assms by (auto simp: sock_set_protocol_def set_protocol_def wp_rules tinv_defs)

lemma exec_op_inv:
  assumes "tinv k b w" and "plain_op op"
  shows "wp (exec_op P op) (\<lambda>_. tinv k b) (\<lambda>_. tinv k b) w"
proof (cases op)
  case (OpSetProtocol p)
  with assms show ?thesis using set_protocol_inv by (simp add: wp_rules)
next
  case OpClose
  have "tinv k b (w\<lparr>read_ready_cb := None\<rparr>)" using assms(1) by (simp add: tinv_defs)
  from wp_mono [OF base_close_inv [OF this]] OpClose show ?thesis by (simp add: sock_close_def wp_seq wp_mod)
next
  case OpAbort
  with wp_mono [OF force_close_inv [OF tinv_weakI [OF assms(1)], of None b]] show ?thesis by (simp add: abort_def)
qed (use exec_write_inv [OF assms(1)] exec_writelines_inv [OF assms(1)] write_eof_inv [OF assms(1)]
      pause_reading_inv [OF assms(1)] resume_reading_inv [OF assms(1)] set_limits_inv [OF assms(1)] in
    \<open>simp_all del: exec_op.simps(1,2)\<close>)

text \<open>What the loop and the reader task run.\<close>

lemma run_ops_inv: "tinv k b w \<Longrightarrow> list_all plain_op ops \<Longrightarrow> tinv k b (run_ops P ops w)"
proof (induction ops arbitrary: w)
  case Nil
  then show ?case by (simp add: run_ops_def)
next
  case (Cons op ops)
  then have "tinv k b (snd (exec_op P op w))" using exec_op_inv [of k b w op] by (simp add: wp_state)
  with Cons show ?case by (simp add: run_ops_def)
qed

lemma run_tcb_inv:
  assumes "tinv k b w" and "schedulable cb \<or> cb = CbCallConnectionLost \<and> conn_lost w \<noteq> 0"
  shows "wp (run_tcb P cb args) (\<lambda>_. tinv k b) (\<lambda>_. tinv k b) w"
proof (cases "cb = CbCallConnectionLost")
  case True
  with assms have "has_sock w \<longrightarrow> closing w \<and> buffer w = []" by (auto simp: tinv_defs)
  from call_connection_lost_inv [OF assms(1) this] True show ?thesis
    by (cases "(P, cb, args)" rule: run_tcb.cases) auto
next
  case False
  with assms(2) consider "cb = CbConnectionMade" | "cb = CbRegisterReader" | f where "cb = CbSetWaiter f"
    | u where "cb = CbUser u" by (cases cb) auto
  then show ?thesis
  proof cases
    case 1
    have "tinv k b (w\<lparr>log := log w @ [ConnectionMade]\<rparr>)"
      using assms(1) by (simp add: tinv_defs log_append flow_step_other)
    then show ?thesis by (simp add: 1 wp_seq wp_mod) (rule wp_P; simp add: wp_ret)
  next
    case 2
    then show ?thesis using register_reader_inv [OF assms(1)] by simp
  qed (use assms(1) in \<open>simp_all add: wp_ret\<close>)
qed

lemma drain_inv:
  assumes inv: "tinv k True w" and it: "it = ReplayStream d \<or> it = ReplayError e"
  defines "w1 \<equiv> if conn_lost w = 0 \<and> \<not> closing w then w\<lparr>arrived := arrived w @ [it]\<rparr> else w"
  shows "\<exists>k'. tinv k' True (snd ((case it of ReplayStream d \<Rightarrow> drain_stream P d | ReplayError e \<Rightarrow> drain_error P e
      | ReplayDatagram d a \<Rightarrow> py_ret ()) w1))"
proof -
  let ?m = "case it of ReplayStream d \<Rightarrow> drain_stream P d | ReplayError e \<Rightarrow> drain_error P e
      | ReplayDatagram d a \<Rightarrow> py_ret ()"
  have m: "?m = py_if (\<lambda>w. conn_lost w \<noteq> 0 \<or> closing w) (py_ret ())
       (py_if paused (py_mod (\<lambda>w. w\<lparr>replay := replay w @ [it]\<rparr>)) (replay_deliver P it))"
    using it by (auto simp: drain_stream_def drain_error_def replay_deliver_def)
  have si: "stream_item it" using it by auto
  consider "conn_lost w \<noteq> 0 \<or> closing w" | "\<not> closing w" "paused w" | "\<not> closing w" "\<not> paused w"
    by blast
  then show ?thesis
  proof cases
    case 1
    then show ?thesis using inv unfolding m by (auto simp: w1_def py_if_def py_ret_def)
  next
    case 2
    note o = tinv_open [OF inv 2(1)]
    have "tinv (Suc k) True (w1\<lparr>replay := replay w1 @ [it]\<rparr>)"
      using inv 2 o si by (simp add: w1_def tinv_defs prefix_def) 
    then show ?thesis unfolding m using 2 o by (auto simp: w1_def py_if_def py_mod_def)
  next
    case 3
    note o = tinv_open [OF inv 3(1)]
    have "pending k True it w1"
      using inv 3 o si by (simp add: w1_def pending_def tinv_defs tinv_weak_defs)
    from replay_deliver_inv [OF this] have "tinv k True (snd (replay_deliver P it w1))"
      by (auto simp: wp_def split: prod.splits sum.splits)
    then show ?thesis unfolding m using 3 o by (auto simp: w1_def py_if_def)
  qed
qed

lemma step_keeps_tinv:
  assumes "tr_step P w w'" and "tinv k True w"
  shows "\<exists>k'. tinv k' True w'"
  using assms
proof cases
  case (client op)
  with exec_op_inv [OF assms(2)] show ?thesis by (auto simp: wp_state)
next
  case (scheduled e rest)
  let ?w = "w\<lparr>loop := (loop w)\<lparr>ready := rest\<rparr>\<rparr>"
  from scheduled assms(2) have q: "queue_inv (conn_lost w) ((loop w)\<lparr>ready := rest\<rparr>)"
    "schedulable (re_callback e) \<or> re_callback e = CbCallConnectionLost \<and> conn_lost w \<noteq> 0"
    by (auto simp: tinv_defs queue_inv_def)
  then have "tinv k True ?w" using assms(2) by (simp add: tinv_defs)
  from run_tcb_inv [OF this] q(2) scheduled show ?thesis by (auto simp: wp_state)
next
  case (chunk w1 d)
  with drain_inv [OF assms(2), of "ReplayStream d"] show ?thesis by auto
next
  case (read_error w1 e)
  with drain_inv [OF assms(2), of "ReplayError e"] show ?thesis by auto
next
  case writable
  with write_sendmsg_inv [OF assms(2)] show ?thesis by (auto simp: wp_state)
next
  case (kernel ss)
  then have "tinv k True w'" using assms(2) by (simp add: tinv_defs)
  then show ?thesis ..
qed

lemma reach_tinv: "tr_reach P w0 w \<Longrightarrow> tinv k True w0 \<Longrightarrow> \<exists>k'. tinv k' True w"
  by (induction rule: tr_reach.induct) (use step_keeps_tinv in blast)+

end

section \<open>Every protocol program satisfies the interface\<close>

lemma tame_id: "tame_prog prog \<Longrightarrow> tame prog = prog"
proof (intro ext)
  fix ev w
  assume "tame_prog prog"
  then have "list_all plain_op (fst (prog ev w)) \<and> (passive_event ev \<longrightarrow> fst (prog ev w) = []) \<and>
      (\<forall>e. snd (prog ev w) = Inl e \<longrightarrow> \<not> is_exit e)"
    by (simp add: tame_prog_def)
  then show "tame prog ev w = prog ev w"
    by (cases "prog ev w") (auto simp: tame_def list_all_iff filter_id_conv split: sum.split)
qed

lemma tame_facts:
  "passive_event ev \<Longrightarrow> fst (tame prog ev w) = []" "list_all plain_op (fst (tame prog ev w))"
  "snd (tame prog ev w) = Inl e \<Longrightarrow> \<not> is_exit e"
  by (auto simp: tame_def list_all_iff split: sum.splits if_splits)

lemma run_proto_protocol: "sock_protocol (run_proto (tame prog) n)"
proof (induction n)
  case 0
  show ?case by unfold_locales (simp_all add: tame_facts)
next
  case (Suc n)
  show ?case
  proof
    show "tinv k b (snd (run_proto (tame prog) (Suc n) ev w))" if "tinv k b w" for ev k b w
      using sock_protocol.run_ops_inv [OF Suc that tame_facts(2)] by simp
  qed (simp_all add: tame_facts run_ops_def)
qed

interpretation sp: sock_protocol "run_proto (tame prog) n" for prog n
  by (rule run_proto_protocol)

end
