(* ===== verification/Socket_Properties.thy ===== *)
theory Socket_Properties
  imports Socket_Invariant
begin

text \<open>
  The properties of the stream transport, from its construction on a loop, for every protocol
  program and every sequence of client calls, loop callbacks, arrivals and kernel answers.
\<close>

section \<open>Transports after construction, and samples\<close>

definition good_loop :: "tcb loop_state \<Rightarrow> int \<Rightarrow> bool" where
  "good_loop l fd \<longleftrightarrow> loop_ok fd l \<and> ready l = []"

definition opened ::
  "tcb loop_state \<Rightarrow> int \<Rightarrow> nat option \<Rightarrow> nat option \<Rightarrow> nat \<Rightarrow> sock_transport" where
  "opened l fd srv waiter iov =
     snd (sock_init PlainProtocol WriteSendmsg waiter (new_sock_transport l fd None srv 0 iov [] []))"

text \<open>A sample: an echo protocol that pauses reading on every chunk, on a loop with descriptor 7.\<close>

definition echo_prog :: proto_prog where
  "echo_prog ev w = (case ev of DataReceived d \<Rightarrow> ([OpWrite (BytesLike d), OpPauseReading], Inr 0) | _ \<Rightarrow> ([], Inr 0))"

definition sample_tr_loop :: "tcb loop_state" where
  "sample_tr_loop = tokioop_new (Fin 0) (\<lambda>_ _. None) 1 False (\<lambda>_. PlainCallable)"

definition sample_tr :: sock_transport where
  "sample_tr = opened sample_tr_loop 7 None None 16"

abbreviation echo :: "sock_transport proto" where
  "echo \<equiv> run_proto echo_prog 3"

definition sample_scripted :: sock_transport where
  "sample_scripted = sample_tr\<lparr>send_script := [Inr 1, Inr 1]\<rparr>"

definition sample_arrive :: "bytes \<Rightarrow> sock_transport \<Rightarrow> sock_transport" where
  "sample_arrive d w = snd (drain_stream echo d
     (if conn_lost w = 0 \<and> \<not> closing w then w\<lparr>arrived := arrived w @ [ReplayStream d]\<rparr> else w))"

definition sample_run :: sock_transport where
  "sample_run = sample_arrive [4] (sample_arrive [1, 2, 3] sample_scripted)"

definition sample_limited :: sock_transport where
  "sample_limited = snd (exec_op echo (OpSetLimits (Some 1) None) sample_run)"

definition run_scheduled :: "sock_transport \<Rightarrow> sock_transport" where
  "run_scheduled w = (case ready (loop w) of [] \<Rightarrow> w | e # rest \<Rightarrow>
     snd (run_tcb echo (re_callback e) (re_args e) (w\<lparr>loop := (loop w)\<lparr>ready := rest\<rparr>\<rparr>)))"

definition sample_dead :: sock_transport where
  "sample_dead = run_scheduled (run_scheduled (run_scheduled (snd (exec_op echo OpAbort sample_scripted))))"

text \<open>A transport whose close waits for a writer that can write: nothing paused the protocol, no
  chunk is empty, and the kernel takes at least a byte at each of the next calls.\<close>

definition draining :: "sock_transport \<Rightarrow> bool" where
  "draining w \<longleftrightarrow> closing w \<and> has_sock w \<and> conn_lost w = 0 \<and> \<not> protocol_paused w \<and> buffer w \<noteq> [] \<and>
     [] \<notin> set (buffer w) \<and> 1 \<le> iov_max w \<and> length (concat (buffer w)) \<le> length (send_script w) \<and>
     (\<forall>a\<in>set (send_script w). \<exists>n. a = Inr n \<and> 1 \<le> n)"

primrec writer_fires :: "sock_transport proto \<Rightarrow> nat \<Rightarrow> sock_transport \<Rightarrow> sock_transport" where
  "writer_fires P 0 w = w"
| "writer_fires P (Suc j) w = writer_fires P j (snd (write_sendmsg P w))"

definition sample_closing :: sock_transport where
  "sample_closing = (snd (exec_op echo OpClose sample_run))\<lparr>send_script := [Inr 1, Inr 9]\<rparr>"

definition sample_blocked :: sock_transport where
  "sample_blocked = sample_scripted\<lparr>write_ready_m := Some WriteSend, buffer := [[1, 2]], send_script := [Inl BlockingIOError]\<rparr>"

definition sample_empty :: sock_transport where
  "sample_empty = sample_scripted\<lparr>buffer := [[]], closing := True\<rparr>"

definition sample_reading :: sock_transport where
  "sample_reading = snd (register_reader sample_scripted)"

section \<open>Construction establishes the invariant\<close>

lemma call_soon_queue:
  assumes "schedulable cb" and "queue_inv n l"
  shows "wp (call_soon cb args ctx)
    (\<lambda>_ l'. queue_inv n l' \<and> loop_closed l' = loop_closed l \<and> os_reg l' = os_reg l)
    (\<lambda>_ l'. queue_inv n l' \<and> loop_closed l' = loop_closed l \<and> os_reg l' = os_reg l) l"
  using assms
  by (auto simp: call_soon_def wp_rules wp_def [of new_flag] push_ready_def queue_inv_def check_defs
      split: sum.split callable_kind.split)

lemma call_soon_of_tinv:
  assumes "tinv k b w" and "schedulable cb" and "\<And>w'. tinv k b w' \<Longrightarrow> Q () w'" and "\<And>e w'. tinv k b w' \<Longrightarrow> E e w'"
  shows "wp (call_soon_of cb args) Q E w"
proof -
  have "tinv k b (w\<lparr>loop := l\<rparr>)"
    if "queue_inv (conn_lost w) l" "loop_closed l = loop_closed (loop w)" "os_reg l = os_reg (loop w)" for l
    using assms(1) that by (simp add: tinv_defs)
  moreover have "queue_inv (conn_lost w) (loop w)" using assms(1) by (simp add: tinv_defs)
  ultimately show ?thesis using assms wp_mono [OF call_soon_queue [OF assms(2)], of "conn_lost w" "loop w"]
    by (simp add: call_soon_of_def wp_rules)
qed

lemma opened_tinv:
  assumes "good_loop l fd"
  shows "tinv 0 True (opened l fd srv waiter iov)"
proof -
  let ?w = "new_sock_transport l fd None srv 0 iov [] []"
  let ?w1 = "?w\<lparr>read_ready_cb := Some ReadDataReceived, protocol := Some PlainProtocol, protocol_connected := True,
    eof := False, empty_waiter := None, write_ready_m := Some WriteSendmsg\<rparr>"
  have w1: "tinv 0 True ?w1"
    using assms by (simp add: tinv_defs new_sock_transport_def init_transport_def good_loop_def loop_ok_def
        selector_transport.defs queue_inv_def lost_calls_def delivered_def flow_state_def)
  have kind: "drain_mode ?w = Some DrainTcp"
    by (simp add: new_sock_transport_def init_transport_def selector_transport.defs)
  have "wp (sock_init PlainProtocol WriteSendmsg waiter) (\<lambda>_. tinv 0 True) (\<lambda>_. tinv 0 True) ?w"
    unfolding sock_init_def sock_set_protocol_def set_protocol_def
    using w1 kind
    by (auto simp: wp_rules split: option.split intro!: call_soon_of_tinv [where k = 0 and b = True])
  then show ?thesis by (simp add: opened_def wp_state)
qed

section \<open>The properties\<close>

text \<open>Once \<open>_call_connection_lost\<close> has run, \<open>__del__\<close> finds no socket: the server is detached from once
  and the socket closed once.\<close>

lemma del_after_connection_lost:
  assumes "has_sock w" and "\<And>ev u. has_sock (snd (P ev u)) = has_sock u"
  shows "transport_del (snd (base_call_connection_lost P exc w)) = (Inr (), snd (base_call_connection_lost P exc w))"
proof -
  let ?I = "\<lambda>u. has_sock u"
  have "py_inv ?I (P ev)" for ev using assms(2) by (simp add: py_inv_def wp_state)
  then have "py_inv ?I (call_protocol P ev)" for ev
    unfolding call_protocol_def by (intro py_inv_rules py_inv_mod) simp_all
  then have body: "py_inv ?I (py_when protocol_connected (py_seq (call_protocol P (ConnectionLost exc)) (py_ret ())))"
    by (intro py_inv_rules)
  have "wp (base_call_connection_lost P exc) (\<lambda>_ u. \<not> has_sock u) (\<lambda>_ u. \<not> has_sock u) w"
    unfolding base_call_connection_lost_def wp_finally
    by (rule py_inv_wp [OF body assms(1)]) (simp_all add: wp_rules need_sock_def)
  then show ?thesis by (simp add: wp_state transport_del_def py_when_def py_if_def py_ret_def)
qed

lemma reach_tame:
  assumes "tame_prog prog" and "good_loop l fd" and "tr_reach (run_proto prog n) (opened l fd srv waiter iov) w"
  shows "\<exists>k. tinv k True w"
  using sp.reach_tinv [of prog n, OF _ opened_tinv [OF assms(2)]] assms(3) tame_id [OF assms(1)] by auto

lemma echo_tame: "tame_prog echo_prog"
  by (auto simp: tame_prog_def echo_prog_def split: proto_event.split)

lemma sample_good: "good_loop sample_tr_loop 7"
  by (simp add: good_loop_def loop_ok_def sample_tr_loop_def tokioop_new_def i32_range_def)

lemma sample_scripted_reach: "tr_reach echo sample_tr sample_scripted"
  unfolding sample_scripted_def by (rule tr_reach.tr_next [OF tr_reach.tr_start tr_step.kernel]) simp

lemma sample_reach: "tr_reach echo sample_tr sample_run"
proof -
  note sample_scripted_reach
  moreover have "tr_step echo w (sample_arrive d w)" for d w
    unfolding sample_arrive_def by (rule tr_step.chunk) simp
  ultimately show ?thesis unfolding sample_run_def by (blast intro: tr_reach.tr_next)
qed

lemmas tr_run_defs = py_seq_def py_bind_def py_check_def py_when_def py_if_def py_ret_def py_raise_def
  py_with_def py_mod_def py_get_def py_try_else_def py_try_def py_finally_def

lemmas sample_defs = sample_run_def sample_arrive_def sample_scripted_def sample_tr_def opened_def sample_tr_loop_def
  tokioop_new_def new_sock_transport_def init_transport_def selector_transport.defs sock_init_def
  sock_set_protocol_def set_protocol_def call_soon_of_def on_loop_def call_soon_def check_closed_state_def
  push_ready_def

lemma sample_scripted_eq:
  "sample_scripted = \<lparr>loop = sample_tr_loop\<lparr>flags := (flags sample_tr_loop)(0 := False, 1 := False), next_flag := 2,
      ready := [\<lparr>re_callback = CbConnectionMade, re_args = [], re_context = None, re_cancelled = 0\<rparr>,
        \<lparr>re_callback = CbRegisterReader, re_args = [], re_context = None, re_cancelled = 1\<rparr>]\<rparr>,
     has_loop = True, has_sock = True, sock_closed = False, sock_fd = 7, peername = None,
     protocol = Some PlainProtocol, protocol_connected = True, server = None, server_active = 0,
     buffer = [], conn_lost = 0, closing = False, paused = False, replay = [], drain_mode = Some DrainTcp,
     protocol_paused = False, high_water = 65536, low_water = 16384, connlost_warnings = 0, log = [],
     eof = False, empty_waiter = None, write_ready_m = Some WriteSendmsg, read_ready_cb = Some ReadDataReceived,
     send_script = [Inr 1, Inr 1], recv_script = [], shutdown_exc = None, sent = [], shut_wr = False, iov_max = 16,
     accepted = [], arrived = []\<rparr>"
  by (simp add: sample_defs tr_run_defs numeral_2_eq_2)

lemma sample_run_fields:
  "sent sample_run = [1]" "buffer sample_run = [[2, 3]]" "replay sample_run = [ReplayStream [4]]"
  "log sample_run = [DataReceived [1, 2, 3]]" "conn_lost sample_run = 0" "has_sock sample_run"
  "protocol sample_run = Some PlainProtocol"
  by (simp_all add: sample_run_def sample_arrive_def sample_scripted_eq tr_run_defs drain_stream_def
      deliver_stream_def call_protocol_def echo_prog_def run_ops_def note_write_def takes_writes_def tr_write_def
      kernel_send_def need_sock_def append_data_def maybe_pause_protocol_def get_write_buffer_size_def
      pause_reading_def is_reading_def is_closing_def need_loop_def add_write_ready_def write_cb_def add_writer_of_def
      on_loop_def add_writer_def check_closed_state_def sample_tr_loop_def tokioop_new_def i32_range_def
      add_watcher_def os_register_def install_watcher_def dir_of_def numeral_3_eq_3)





text \<open>
  C11. Flow control is consistent: \<open>pause_writing\<close> and \<open>resume_writing\<close> reach the protocol
  in strict alternation, beginning with \<open>pause_writing\<close>, and while the transport has its
  socket its flag says which of the two was last.
\<close>

theorem flow_control_alternates:
  assumes "tame_prog prog" and "good_loop l fd" and "tr_reach (run_proto prog n) (opened l fd srv waiter iov) w"
  shows "flow_state (log w) \<noteq> None \<and> (has_sock w \<longrightarrow> flow_state (log w) = Some (protocol_paused w))"
proof -
  obtain k where "tinv k True w" using reach_tame [OF assms] ..
  then show ?thesis by (simp add: tinv_def flow_inv_def)
qed

lemma sample_limited_reach: "tr_reach echo sample_tr sample_limited"
  unfolding sample_limited_def by (rule tr_reach.tr_next [OF sample_reach tr_step.client]) simp

lemma sample_limited_fields: "has_sock sample_limited" "protocol_paused sample_limited"
  by (simp_all add: sample_limited_def need_loop_def set_write_buffer_limits_def maybe_pause_protocol_def get_write_buffer_size_def
      sample_run_fields tr_run_defs call_protocol_def echo_prog_def run_ops_def
      call_exception_handler_def on_error_def numeral_3_eq_3 split: option.split sum.split)

theorem flow_control_alternates_witness: "flow_state (log sample_limited) = Some True"
  using flow_control_alternates [OF echo_tame sample_good sample_limited_reach [unfolded sample_tr_def]]
  by (simp add: sample_limited_fields)

text \<open>
  C3. \<open>connection_lost\<close> is called exactly once: never while the transport has its socket, and
  once when it has lost it, however closing, aborting, errors and callbacks interleave.
\<close>

theorem connection_lost_exactly_once:
  assumes "tame_prog prog" and "good_loop l fd" and "tr_reach (run_proto prog n) (opened l fd srv waiter iov) w"
  shows "length (filter is_lost (log w)) = (if has_sock w then 0 else 1)"
proof -
  obtain k where "tinv k True w" using reach_tame [OF assms] ..
  then show ?thesis by (simp add: tinv_def life_inv_def lost_calls_def)
qed

lemma run_scheduled_reach: "tr_reach echo sample_tr w \<Longrightarrow> tr_reach echo sample_tr (run_scheduled w)"
  by (auto simp: run_scheduled_def split: list.split intro: tr_reach.tr_next tr_step.scheduled)

lemma sample_dead_reach: "tr_reach echo sample_tr sample_dead"
  unfolding sample_dead_def
  by (intro run_scheduled_reach tr_reach.tr_next [OF sample_scripted_reach tr_step.client]) simp

lemma sample_dead_fields: "\<not> has_sock sample_dead"
  by (simp add: sample_dead_def run_scheduled_def sample_scripted_eq tr_run_defs abort_def force_close_def
      remove_reader_of_def on_loop_def remove_reader_def sample_tr_loop_def tokioop_new_def i32_range_def
      detach_watcher_def call_soon_of_def call_soon_def check_closed_state_def push_ready_def exc_arg_def
      register_reader_def is_reading_def is_closing_def echo_prog_def run_ops_def call_connection_lost_def
      base_call_connection_lost_def call_protocol_def need_sock_def numeral_3_eq_3)

theorem connection_lost_exactly_once_witness: "length (filter is_lost (log sample_dead)) = 1"
  using connection_lost_exactly_once [OF echo_tame sample_good sample_dead_reach [unfolded sample_tr_def]]
  by (simp add: sample_dead_fields)

section \<open>The buffer and the close\<close>

text \<open>
  \<open>_adjust_leftover_buffer(n)\<close> drops exactly the first \<open>n\<close> bytes of the buffered
  stream, whatever its division into chunks, and raises \<open>IndexError\<close> exactly when the buffer
  holds fewer.
\<close>

theorem adjust_leftover_buffer_exact:
  "case adjust_leftover_buffer n buf of
     Inr buf' \<Rightarrow> n \<le> length (concat buf) \<and> concat buf' = drop n (concat buf)
   | Inl e \<Rightarrow> length (concat buf) < n \<and> e = IndexError ''pop from an empty deque''"
proof (cases "n \<le> length (concat buf)")
  case True
  then show ?thesis using adjust_leftover_buffer_drop [OF True] by auto
next
  case False
  then show ?thesis using adjust_leftover_buffer_error [of buf n] by auto
qed

lemma adjust_nonempty:
  "adjust_leftover_buffer n buf = Inr buf' \<Longrightarrow> [] \<notin> set buf \<Longrightarrow> [] \<notin> set buf'"
  by (induction n buf rule: adjust_leftover_buffer.induct) (auto split: if_splits)

context sock_protocol
begin

text \<open>One firing of the writer on a draining transport sends at least a byte; it ends the
  connection when that was the last.\<close>

lemma draining_step:
  assumes d: "draining w" and inv: "tinv k b w"
  defines "w' \<equiv> snd (write_sendmsg P w)"
  shows "(\<not> has_sock w' \<and> conn_lost w' = 0 \<and> last (log w') = ConnectionLost None) \<or>
    draining w' \<and> length (concat (buffer w')) < length (concat (buffer w))"
proof -
  obtain a rest where s: "send_script w = a # rest"
    using d by (cases "send_script w"; cases "buffer w") (auto simp: draining_def)
  then obtain n where a: "a = Inr n" "1 \<le> n" using d by (auto simp: draining_def)
  let ?d = "concat (get_sendmsg_buffer w)" and ?m = "min n (length (concat (get_sendmsg_buffer w)))"
  obtain c cs where c: "buffer w = c # cs" "c \<noteq> []" using d by (cases "buffer w") (auto simp: draining_def)
  have dne: "?d \<noteq> []" using c d by (cases "iov_max w") (auto simp: get_sendmsg_buffer_def draining_def)
  then have m: "1 \<le> ?m" using a(2) by (cases ?d) auto
  have "concat (buffer w) = ?d @ concat (drop (iov_max w) (buffer w))"
    unfolding get_sendmsg_buffer_def by (metis append_take_drop_id concat_append)
  then have le: "?m \<le> length (concat (buffer w))" by simp
  then obtain bs where bs: "adjust_leftover_buffer ?m (buffer w) = Inr bs" "concat bs = drop ?m (concat (buffer w))"
    using adjust_leftover_buffer_drop by blast
  have ne: "[] \<notin> set bs" using adjust_nonempty [OF bs(1)] d by (simp add: draining_def)
  let ?v = "w\<lparr>send_script := rest, sent := sent w @ take n ?d, buffer := bs\<rparr>"
  have run: "write_sendmsg P w = write_drained P ?v"
    using d s a bs(1) by (simp add: write_sendmsg_def py_if_def py_try_else_def py_bind_def py_with_def kernel_send_def
        need_sock_def py_ret_def py_seq_def py_mod_def adjust_buffer_def py_check_def draining_def)
  have noresume: "maybe_resume_protocol get_write_buffer_size P ?v = (Inr (), ?v)"
    using d by (simp add: maybe_resume_protocol_def py_when_def py_if_def py_ret_def draining_def)
  show ?thesis
  proof (cases "bs = []")
    case False
    have "w' = ?v" unfolding w'_def run write_drained_def using noresume False
      by (simp add: py_seq_def py_bind_def py_when_def py_if_def py_ret_def)
    moreover have "length (concat bs) = length (concat (buffer w)) - ?m" by (simp add: bs(2))
    then have less: "length (concat bs) < length (concat (buffer w))" using m le by linarith
    moreover have "length (concat bs) \<le> length rest"
      using d s less by (simp add: draining_def)
    ultimately show ?thesis using False d s ne by (simp add: draining_def)
  next
    case True
    have v: "closing ?v" "empty_waiter ?v = None" "protocol ?v = Some PlainProtocol" "protocol_connected ?v"
      "has_sock ?v" "conn_lost ?v = 0" "loop_ok (sock_fd ?v) (loop ?v)" "has_loop ?v"
      using d inv env_loop_ok [OF inv] by (auto simp: draining_def tinv_defs)
    have "wp (write_drained P) (\<lambda>_ u. \<not> has_sock u \<and> conn_lost u = 0 \<and> last (log u) = ConnectionLost None)
        (\<lambda>_ u. \<not> has_sock u \<and> conn_lost u = 0 \<and> last (log u) = ConnectionLost None) ?v"
      unfolding write_drained_def wp_seq [of "maybe_resume_protocol s p" for s p] wp_def [of "maybe_resume_protocol s p" for s p]
        noresume
      using True v
      by (simp add: wp_when wp_seq wp_if call_connection_lost_def base_call_connection_lost_def wp_finally call_protocol_def
          wp_with) 
         (intro wp_remove_writer_of; auto simp: wp_rules intro!: wp_P_passive)
    then show ?thesis unfolding w'_def run by (simp add: wp_state)
  qed
qed

lemma draining_ends:
  assumes "draining w" and "tinv k b w"
  shows "\<exists>j\<le>length (concat (buffer w)). \<not> has_sock (writer_fires P j w) \<and> conn_lost (writer_fires P j w) = 0 \<and>
    last (log (writer_fires P j w)) = ConnectionLost None \<and> tinv k b (writer_fires P j w)"
  using assms
proof (induction "length (concat (buffer w))" arbitrary: w rule: less_induct)
  case less
  let ?w = "snd (write_sendmsg P w)"
  have inv: "tinv k b ?w" using write_sendmsg_inv [OF less.prems(2)] by (simp add: wp_state)
  have pos: "1 \<le> length (concat (buffer w))"
    using less.prems(1) by (cases "buffer w") (auto simp: draining_def Suc_le_eq)
  from draining_step [OF less.prems] show ?case
  proof
    assume "\<not> has_sock ?w \<and> conn_lost ?w = 0 \<and> last (log ?w) = ConnectionLost None"
    with inv pos show ?thesis by (intro exI [of _ "Suc 0"]) simp
  next
    assume d: "draining ?w \<and> length (concat (buffer ?w)) < length (concat (buffer w))"
    with less.hyps [of ?w] inv obtain j where "j \<le> length (concat (buffer ?w))"
      "\<not> has_sock (writer_fires P j ?w) \<and> conn_lost (writer_fires P j ?w) = 0 \<and>
       last (log (writer_fires P j ?w)) = ConnectionLost None \<and> tinv k b (writer_fires P j ?w)" by blast
    with d show ?thesis by (intro exI [of _ "Suc j"]) simp
  qed
qed

end


lemma sample_closing_reach: "tr_reach echo sample_tr sample_closing"
  unfolding sample_closing_def
  by (rule tr_reach.tr_next [OF tr_reach.tr_next [OF sample_reach tr_step.client] tr_step.kernel]) auto

lemma sample_closing_fields: "draining sample_closing" "accepted sample_closing = [1, 2, 3]"
  by (simp_all add: draining_def sample_closing_def sample_run_def sample_arrive_def sample_scripted_eq tr_run_defs
      drain_stream_def deliver_stream_def call_protocol_def echo_prog_def run_ops_def note_write_def takes_writes_def
      tr_write_def kernel_send_def need_sock_def append_data_def maybe_pause_protocol_def get_write_buffer_size_def
      pause_reading_def is_reading_def is_closing_def need_loop_def add_write_ready_def write_cb_def add_writer_of_def
      on_loop_def add_writer_def check_closed_state_def sample_tr_loop_def tokioop_new_def i32_range_def
      add_watcher_def os_register_def install_watcher_def dir_of_def numeral_3_eq_3 sock_close_def base_close_def
      remove_reader_of_def remove_reader_def detach_watcher_def set_dir_def)


section \<open>Where the transport falls short\<close>



text \<open>
  C38. An empty chunk at the end of the buffer, which \<open>writelines\<close> accepts, never leaves it:
  sending returns zero, nothing is dropped, so the writer fires for ever, and a close that
  waits for the buffer never ends the connection.
\<close>

theorem empty_chunk_never_leaves:
  assumes "buffer w = [[]]" and "conn_lost w = 0" and "has_sock w" and "\<not> protocol_paused w"
    and "\<forall>a\<in>set (send_script w). \<exists>n. a = Inr n"
  shows "buffer (writer_fires P j w) = [[]] \<and> has_sock (writer_fires P j w)"
  using assms
proof (induction j arbitrary: w)
  case 0
  then show ?case by simp
next
  case (Suc j)
  have "write_sendmsg P w = (Inr (), w\<lparr>send_script := tl (send_script w)\<rparr>)"
    using Suc.prems
    by (cases "send_script w")
       (auto simp: write_sendmsg_def tr_run_defs kernel_send_def need_sock_def get_sendmsg_buffer_def adjust_buffer_def
         write_failed_def write_drained_def maybe_resume_protocol_def take_Cons')
  with Suc.IH [of "w\<lparr>send_script := tl (send_script w)\<rparr>"] Suc.prems show ?case
    by (cases "send_script w") auto
qed

theorem empty_chunk_never_leaves_witness: "has_sock (writer_fires echo 100 sample_empty)"
  using empty_chunk_never_leaves [of sample_empty echo 100] by (simp add: sample_empty_def sample_scripted_eq)

lemma force_close_closes:
  assumes "loop_ok (sock_fd w) (loop w)" and "has_loop w" and "conn_lost w = 0"
  shows "wp (force_close exc) (\<lambda>_ u. closing u \<and> conn_lost u = 1 \<and> log u = log w)
    (\<lambda>_ u. closing u \<and> conn_lost u = 1 \<and> log u = log w) w"
proof -
  have ok: "loop_kept (loop w) l \<Longrightarrow> loop_ok (sock_fd w) l" for l using assms(1) by (simp add: loop_ok_def loop_kept_def)
  show ?thesis using assms ok unfolding force_close_def wp_if wp_seq wp_when wp_mod
    by (auto simp: wp_when wp_seq wp_mod intro!: wp_remove_writer_of wp_remove_reader_of wp_call_soon_of)
qed

lemma sample_reading_facts:
  "is_reading sample_reading" "has_loop sample_reading" "drain_mode sample_reading = Some DrainTcp"
  "replay sample_reading = []" "conn_lost sample_reading = 0"
  "is_polling (loop sample_reading) (sock_fd sample_reading) True" "loop_ok (sock_fd sample_reading) (loop sample_reading)"
  by (simp_all add: sample_reading_def sample_scripted_eq register_reader_def is_reading_def is_closing_def tr_run_defs
      on_loop_def add_tcp_reader_def check_closed_state_def sample_tr_loop_def tokioop_new_def i32_range_def
      add_drain_watcher_def os_register_def install_watcher_def dir_of_def set_dir_def is_polling_def loop_ok_def)

end
