(* ===== verification/Transport_Sendfile.thy ===== *)
theory Transport_Sendfile
  imports Sendfile Socket_Properties
begin

text \<open>
  \<open>sendfile\<close> on a transport (\<^verbatim>\<open>src/python/tokioop/loop.py\<close>): the native attempt, which borrows the
  socket from the transport, and the fallback, which writes blocks of the file to the transport while
  asyncio's \<open>_SendfileFallbackProtocol\<close> stands in for the protocol.

  The fallback reads every block into the same bytearray and hands views of it to \<open>write\<close>. The
  bytearray is the store \<open>ts_buf\<close>: a chunk that waits in the transport's buffer is the part of the
  view that was not sent, so with the end of each view (\<open>ts_ends\<close>, one per write) a chunk of length
  \<open>m\<close> is the bytes before that end, and a read that overwrites the store rewrites every such chunk.
  \<open>ts_fires\<close> says how often the writer fires while each read waits for the executor.
\<close>

section \<open>The shared buffer\<close>

record file_transport =
  ts_tr :: sock_transport
  ts_file :: file_obj
  ts_buf :: bytes
  ts_ends :: "nat list"
  ts_fires :: "nat list"
  ts_handed :: bytes

text \<open>The chunks, last first, as the views they are.\<close>

fun refresh :: "bytes \<Rightarrow> nat list \<Rightarrow> bytes list \<Rightarrow> bytes list" where
  "refresh b (e # es) (c # cs) = take (length c) (drop (e - length c) b) # refresh b es cs"
| "refresh b es cs = cs"

definition overwrite :: "bytes \<Rightarrow> file_transport \<Rightarrow> file_transport" where
  "overwrite d s =
     (let b = d @ drop (length d) (ts_buf s); w = ts_tr s
      in s\<lparr>ts_buf := b, ts_tr := w\<lparr>buffer := rev (refresh b (rev (ts_ends s)) (rev (buffer w)))\<rparr>\<rparr>)"

section \<open>The fallback\<close>

text \<open>\<open>_SendfileFallbackProtocol\<close> is a plain protocol whose calls do nothing to the transport; its
  \<open>drain\<close> waits while the transport has paused it.\<close>

definition silent :: "sock_transport proto" where
  "silent ev = py_ret 0"

primrec fire_writer :: "nat \<Rightarrow> sock_transport \<Rightarrow> sock_transport" where
  "fire_writer 0 w = w"
| "fire_writer (Suc j) w = (if buffer w = [] then w else fire_writer j (snd (write_ready silent w)))"

definition tr_read :: "nat \<Rightarrow> file_transport \<Rightarrow> (pyexc + bytes) \<times> file_transport" where
  "tr_read n s =
     (let (j, rest) = (case ts_fires s of [] \<Rightarrow> (0, []) | j # rest \<Rightarrow> (j, rest));
          s1 = s\<lparr>ts_tr := fire_writer j (ts_tr s), ts_fires := rest\<rparr>
      in case readinto n (ts_file s1) of
           (Inl e, f1) \<Rightarrow> (Inl e, s1\<lparr>ts_file := f1\<rparr>)
         | (Inr d, f1) \<Rightarrow> (Inr d, overwrite d (s1\<lparr>ts_file := f1\<rparr>)))"

definition fallback_drain :: "nat \<Rightarrow> sock_transport \<Rightarrow> unit await \<times> sock_transport" where
  "fallback_drain k w =
     (if is_closing w then (Done (Inl (ConnectionError ''Connection closed by peer'')), w)
      else if \<not> protocol_paused w then (Done (Inr ()), w)
      else
        let w1 = fire_writer k w
        in if conn_lost w1 \<noteq> 0 then (Done (Inl (ConnectionError ''Connection is closed by peer'')), w1)
           else if protocol_paused w1 then (Waiting, w1)
           else (Done (Inr ()), w1))"

definition tr_send :: "nat \<Rightarrow> bytes \<Rightarrow> file_transport \<Rightarrow> unit await \<times> file_transport" where
  "tr_send k d s =
     (case tr_write silent (BytesLike d) (ts_tr s) of
        (Inl e, w1) \<Rightarrow> (Done (Inl e), s\<lparr>ts_tr := w1\<rparr>)
      | (Inr _, w1) \<Rightarrow>
          (case fallback_drain k w1 of
             (r, w2) \<Rightarrow> (r, s\<lparr>ts_tr := w2, ts_ends := ts_ends s @ [length d], ts_handed := ts_handed s @ d\<rparr>)))"

text \<open>Taking the protocol's place, and giving it back.\<close>

definition fallback_enter :: "unit sock_m" where
  "fallback_enter = py_seq pause_reading (sock_set_protocol False PlainProtocol)"

definition fallback_restore :: "sock_transport proto \<Rightarrow> proto_kind \<Rightarrow> bool \<Rightarrow> bool \<Rightarrow> unit sock_m" where
  "fallback_restore P k reading writing =
     py_seq (sock_set_protocol False k)
       (py_seq (if reading then sock_resume_reading P else py_ret ())
         (if writing then py_seq (call_protocol P ResumeWriting) (py_ret ()) else py_ret ()))"

definition sendfile_fallback ::
  "sock_transport proto \<Rightarrow> nat \<Rightarrow> nat \<Rightarrow> nat option \<Rightarrow> file_transport \<Rightarrow> nat await \<times> file_transport" where
  "sendfile_fallback P k offset cnt s =
     (let s0 = s\<lparr>ts_file := f_seek offset (ts_file s)\<rparr>;
          bs = first_block 16384 cnt;
          s1 = s0\<lparr>ts_buf := replicate bs 0, ts_ends := []\<rparr>;
          w = ts_tr s1;
          kind = (case protocol w of Some q \<Rightarrow> q | None \<Rightarrow> PlainProtocol)
      in case fallback_enter w of
           (Inl e, w1) \<Rightarrow> (Done (Inl e), s1\<lparr>ts_tr := w1\<rparr>)
         | (Inr _, w1) \<Rightarrow>
             (case copy_loop tr_read (tr_send k) (truthy cnt) (Suc (length (f_rest (ts_file s1)))) bs 0 (s1\<lparr>ts_tr := w1\<rparr>) of
                (Done x, tot, s2) \<Rightarrow>
                  (case fallback_restore P kind (is_reading w) (protocol_paused w) (ts_tr s2) of
                     (Inl e, w3) \<Rightarrow> (Done (Inl e), s2\<lparr>ts_tr := w3, ts_file := seek_after offset (Done x) tot (ts_file s2)\<rparr>)
                   | (Inr _, w3) \<Rightarrow> (Done x, s2\<lparr>ts_tr := w3, ts_file := seek_after offset (Done x) tot (ts_file s2)\<rparr>))
              | (r, tot, s2) \<Rightarrow> (r, s2)))"

section \<open>The native attempt\<close>

text \<open>\<open>trs\<close> is \<open>loop._transports\<close>; \<open>until_empty\<close> is what happens to the transport until the task that
  awaits the waiter runs again.\<close>

record native_world =
  trs :: "(int \<times> nat) list"
  nw_tr :: sock_transport

type_synonym 'a nat_m = "(native_world, 'a) py"

definition on_transport :: "'a sock_m \<Rightarrow> 'a nat_m" where
  "on_transport m s = (case m (nw_tr s) of (r, w) \<Rightarrow> (r, s\<lparr>nw_tr := w\<rparr>))"

definition await_waiter :: "(sock_transport \<Rightarrow> sock_transport) \<Rightarrow> unit nat_m" where
  "await_waiter until_empty =
     py_seq (py_mod (\<lambda>s. s\<lparr>nw_tr := until_empty (nw_tr s)\<rparr>))
       (py_with (\<lambda>s. empty_waiter (nw_tr s)) (\<lambda>x. case x of
          Some (FutException e) \<Rightarrow> py_raise e
        | Some FutCancelled \<Rightarrow> py_raise CancelledError
        | _ \<Rightarrow> py_ret ()))"

definition sendfile_native ::
  "sock_transport proto \<Rightarrow> (sock_transport \<Rightarrow> sock_transport) \<Rightarrow> nat \<Rightarrow> (pyexc + unit) \<Rightarrow> nat nat_m" where
  "sendfile_native P until_empty tr params =
     py_with (\<lambda>s. sock_fd (nw_tr s)) (\<lambda>fd.
       py_if (\<lambda>s. map_of (trs s) fd = None) (py_raise KeyError)
         (py_seq (py_mod (\<lambda>s. s\<lparr>trs := AList.delete fd (trs s)\<rparr>))
           (py_with (\<lambda>s. is_reading (nw_tr s)) (\<lambda>resume.
             py_seq (on_transport pause_reading)
               (py_seq (on_transport make_empty_waiter)
                 (py_seq (await_waiter until_empty)
                   (py_finally (py_seq (py_check (\<lambda>_. params)) sock_sendfile_native)
                     (py_seq (on_transport reset_empty_waiter)
                       (py_seq (if resume then on_transport (sock_resume_reading P) else py_ret ())
                         (py_mod (\<lambda>s. s\<lparr>trs := AList.update fd tr (trs s)\<rparr>)))))))))))"

datatype sendfile_mode = Unsupported | TryNative | Fallback

text \<open>\<open>sendfile\<close> up to the fallback: what it raises, or that the fallback runs.\<close>

definition sendfile_select ::
  "sock_transport proto \<Rightarrow> (sock_transport \<Rightarrow> sock_transport) \<Rightarrow> nat \<Rightarrow> (pyexc + unit) \<Rightarrow> sendfile_mode \<Rightarrow> bool \<Rightarrow> nat option nat_m" where
  "sendfile_select P until_empty tr params mode fallback =
     py_if (\<lambda>s. is_closing (nw_tr s)) (py_raise (RuntimeError ''Transport is closing''))
       (if mode = Unsupported then py_raise (RuntimeError ''sendfile is not supported for transport'')
        else
          py_bind
            (if mode = TryNative
             then py_try_else (sendfile_native P until_empty tr params)
                    (\<lambda>e. if e = SendfileNotAvailableError \<and> fallback then py_ret None else py_raise e)
                    (\<lambda>n. py_ret (Some n))
             else py_ret None)
            (\<lambda>x. if x = None \<and> \<not> fallback
                 then py_raise (RuntimeError ''fallback is disabled and native sendfile is not supported'')
                 else py_ret x))"

section \<open>Samples\<close>

text \<open>A file whose reads return two bytes at a time, and a socket that blocks once.\<close>

definition short_read_file :: "bytes \<Rightarrow> file_obj" where
  "short_read_file content = \<lparr>f_binary = True, f_seekable = True, f_content = content, f_pos = 0, f_reads = [Inr 2, Inr 2]\<rparr>"

definition blocked_transport :: "bytes \<Rightarrow> file_transport" where
  "blocked_transport content =
     \<lparr>ts_tr = sample_scripted\<lparr>send_script := [Inl BlockingIOError, Inr 9]\<rparr>, ts_file = short_read_file content,
      ts_buf = [], ts_ends = [], ts_fires = [], ts_handed = []\<rparr>"

definition sample_native :: native_world where
  "sample_native = \<lparr>trs = [(7, 3)], nw_tr = sample_scripted\<rparr>"

section \<open>What the fallback hands over\<close>

lemma overwrite_simps [simp]:
  "ts_file (overwrite d s) = ts_file s" "ts_handed (overwrite d s) = ts_handed s"
  by (simp_all add: overwrite_def Let_def)

interpretation transport_copy:
  block_copy tr_read "tr_send k" "\<lambda>s. Inr 0 \<notin> set (f_reads (ts_file s))" "\<lambda>s. f_rest (ts_file s)" ts_handed for k
proof (unfold_locales, goal_cases)
  case (1 s n d s1)
  from 1(2) obtain f1 where r: "readinto n (ts_file s) = (Inr d, f1)" "ts_file s1 = f1" "ts_handed s1 = ts_handed s"
    by (auto simp: tr_read_def Let_def split: prod.splits sum.splits list.splits)
  moreover have "set (f_reads f1) \<subseteq> set (f_reads (ts_file s))"
    using r(1) by (auto simp: readinto_def Let_def split: list.splits sum.splits)
  ultimately show ?case using 1(1) readinto_Inr [OF r(1)] by auto
next
  case (2 s n e s1)
  then show ?case by (auto simp: tr_read_def Let_def split: prod.splits sum.splits list.splits)
next
  case (3 s d s1)
  then show ?case by (auto simp: tr_send_def split: prod.splits sum.splits)
next
  case (4 s n s1)
  from 4(2) obtain f1 where "readinto n (ts_file s) = (Inr [], f1)"
    by (auto simp: tr_read_def Let_def split: prod.splits sum.splits list.splits)
  from readinto_eof [OF this] 4(1) show ?case by simp
next
  case (5 s d r s1)
  have "fst (fallback_drain k w) \<noteq> NoFuel" for w by (simp add: fallback_drain_def Let_def)
  with 5(2) show ?case
    by (auto simp: tr_send_def split: prod.splits sum.splits intro: exI [of _ 0] exI [of _ "length d"]) (metis fst_conv)
qed

lemma sendfile_fallback_hands_over:
  assumes "sendfile_fallback P k offset cnt s = (r, s')" and "Inr 0 \<notin> set (f_reads (ts_file s))"
  shows "r \<noteq> NoFuel \<and>
    (\<exists>m. ts_handed s' = ts_handed s @ take m (f_rest (f_seek offset (ts_file s))))"
proof -
  let ?f = "f_seek offset (ts_file s)"
  let ?s1 = "s\<lparr>ts_file := ?f, ts_buf := replicate (first_block 16384 cnt) 0, ts_ends := []\<rparr>"
  obtain x w1 where en: "fallback_enter (ts_tr s) = (x, w1)" by fastforce
  show ?thesis
  proof (cases x)
    case (Inl e)
    with en assms(1) show ?thesis by (auto simp: sendfile_fallback_def Let_def intro: exI [of _ 0])
  next
    case (Inr u)
    obtain q tot s2 where loop: "copy_loop tr_read (tr_send k) (truthy cnt) (Suc (length (f_rest ?f)))
        (first_block 16384 cnt) 0 (?s1\<lparr>ts_tr := w1\<rparr>) = (q, tot, s2)" by (metis surj_pair)
    have ok: "Inr 0 \<notin> set (f_reads (ts_file (?s1\<lparr>ts_tr := w1\<rparr>)))" using assms(2) by (simp add: f_seek_def)
    from transport_copy.copies_prefix [OF ok _ loop] obtain m where
      "q \<noteq> NoFuel" "ts_handed s2 = ts_handed s @ take m (f_rest ?f)" by auto
    moreover have "(r = q \<or> (\<exists>e. r = Done (Inl e))) \<and> ts_handed s' = ts_handed s2"
      using assms(1) en Inr loop by (auto simp: sendfile_fallback_def Let_def split: await.splits sum.splits prod.splits)
    ultimately show ?thesis by auto
  qed
qed

section \<open>Where it falls short\<close>


text \<open>The transport when the native attempt begins to wait.\<close>

definition lent :: "sock_transport \<Rightarrow> sock_transport" where
  "lent w = snd (make_empty_waiter (snd (pause_reading w)))"

lemma sendfile_native_begins:
  assumes "map_of (trs s) (sock_fd (nw_tr s)) = Some tr0" and "has_loop (nw_tr s)" and "empty_waiter (nw_tr s) = None"
    and "\<not> loop_closed (loop (nw_tr s))"  and "drain_mode (nw_tr s) = Some DrainTcp"
  shows "sendfile_native P until_empty tr params s =
    py_seq (await_waiter until_empty)
      (py_finally (py_seq (py_check (\<lambda>_. params)) sock_sendfile_native)
        (py_seq (on_transport reset_empty_waiter)
          (py_seq (if is_reading (nw_tr s) then on_transport (sock_resume_reading P) else py_ret ())
            (py_mod (\<lambda>u. u\<lparr>trs := AList.update (sock_fd (nw_tr s)) tr (trs u)\<rparr>)))))
      (s\<lparr>trs := AList.delete (sock_fd (nw_tr s)) (trs s), nw_tr := lent (nw_tr s)\<rparr>)"
proof -
  let ?w = "nw_tr s"
  have "pause_reading ?w = (Inr (), if is_reading ?w then ?w\<lparr>paused := True\<rparr> else ?w)"
    using assms by (simp add: pause_reading_def tr_run_defs need_loop_def)
  with assms(2,3) obtain v where p: "pause_reading ?w = (Inr (), v)" "has_loop v" "empty_waiter v = None" by simp
  then have "make_empty_waiter v = (Inr (), lent ?w)"
    by (auto simp: lent_def make_empty_waiter_def tr_run_defs need_loop_def waiter_set_def)
  with p(1) have "py_seq (on_transport pause_reading) (py_seq (on_transport make_empty_waiter) m)
      (s\<lparr>trs := x\<rparr>) = m (s\<lparr>trs := x, nw_tr := lent ?w\<rparr>)" for m :: "nat nat_m" and x
    by (simp add: on_transport_def py_seq_def py_bind_def)
  with assms(1) show ?thesis
    by (simp add: sendfile_native_def py_with_def py_if_def py_seq_def [of "py_mod _"] py_bind_def py_mod_def)
qed



end
