(* ===== verification/Net_World.thy ===== *)
theory Net_World
  imports Sock_Properties Socket_Transport
begin

text \<open>
  What connections and servers work with (\<^verbatim>\<open>src/python/tokioop/loop.py\<close>): the sockets the
  loop opens, the transports it makes over them, name resolution and the awaits in between.

  Every socket the program creates is an entry of \<open>socks\<close> with a plan of what the system will
  answer on it. Awaiting \<open>sock_connect\<close> runs the coroutine of theory \<open>Sock_Ops\<close> on that
  socket; a task that still waits after \<open>sp_wait\<close> turns of the loop is cancelled, as a
  \<open>wait_for\<close> around it would. A transport is the object of theory \<open>Socket_Transport\<close>, with the
  callbacks it scheduled.

  Parameters, in \<open>net_env\<close>: asyncio's \<open>_ipaddr_info\<close>, \<open>_interleave_addrinfos\<close> and
  \<open>staggered_race\<close>, the resolver of the system, Python's \<open>repr\<close> of an address, and the
  TLS protocol.
\<close>

section \<open>Data\<close>

record addr_info =
  ai_family :: int
  ai_type :: int
  ai_proto :: int
  ai_canon :: string
  ai_addr :: pyaddr

text \<open>An address a caller gives: a host and a port, or an address of a socket.\<close>

datatype target = ByName "string option" "int option" | ByAddr pyaddr

text \<open>What becomes of the future a new transport wakes up: it is set (by the transport, or by the
  TLS protocol, with an exception if the handshake fails), or the task that awaits it is cancelled,
  before or after the transport's callbacks have run.\<close>

datatype fate = Settles | Fails pyexc | CancelBefore | CancelAfter

record sock_plan =
  sp_bind :: "pyexc option list"
  sp_opts :: "pyexc option list"
  sp_listen :: "pyexc option"
  sp_connect :: "pyexc option list"
  sp_soerr :: "(pyexc + int) list"
  sp_wait :: nat
  sp_close :: "pyexc option"
  sp_fate :: fate

record net_sock =
  ns_obj :: sock_obj
  ns_family :: int
  ns_type :: int
  ns_proto :: int
  ns_open :: bool
  ns_local :: "pyaddr option"
  ns_peer :: "pyaddr option"
  ns_plan :: sock_plan

record net_transport =
  nt_sock :: nat
  nt_tls :: bool
  nt_proto :: "sock_transport proto"
  nt_obj :: sock_transport

record net_world =
  nw :: sock_world
  socks :: "net_sock list"
  socket_answers :: "(pyexc + int \<times> sock_plan) list"
  conns :: "net_transport list"
  nw_errors :: "pyexc list list"
  active_conns :: "nat \<Rightarrow> int"

type_synonym ('x, 'a) net_m = "('x net_world_scheme, 'a) py"

text \<open>A protocol a factory makes.\<close>

type_synonym app_protocol = "proto_kind \<times> sock_transport proto"

record net_env =
  ipaddr_info :: "target \<Rightarrow> int \<Rightarrow> int \<Rightarrow> int \<Rightarrow> addr_info option"
  lookup :: "target \<Rightarrow> int \<Rightarrow> int \<Rightarrow> int \<Rightarrow> int \<Rightarrow> pyexc + addr_info list"
  fresh_pool :: nat
  interleave_addrinfos :: "addr_info list \<Rightarrow> nat \<Rightarrow> addr_info list"
  repr_addr :: "pyaddr \<Rightarrow> string"
  tls_reject :: "bool \<Rightarrow> pyexc option"
  ssl_protocol :: "app_protocol \<Rightarrow> sock_transport proto"
  tls_close :: "unit sock_m"

section \<open>Exceptions of the system as text\<close>

text \<open>\<open>str(exc)\<close> and \<open>exc.errno\<close> of an \<open>OSError\<close>; the number 0 stands for the errno
  \<open>None\<close> of an \<open>OSError\<close> made from a message alone.\<close>

definition dec_digit :: "nat \<Rightarrow> char" where
  "dec_digit n = char_of (48 + n mod 10)"

fun show_nat :: "nat \<Rightarrow> string" where
  "show_nat n = (if n < 10 then [dec_digit n] else show_nat (n div 10) @ [dec_digit n])"

declare show_nat.simps [simp del]

definition show_int :: "int \<Rightarrow> string" where
  "show_int i = (if i < 0 then ''-'' @ show_nat (nat (- i)) else show_nat (nat i))"

fun os_errno :: "pyexc \<Rightarrow> int" where
  "os_errno BlockingIOError = 11"
| "os_errno InterruptedError = 4"
| "os_errno ConnectionAbortedError = 103"
| "os_errno FileNotFoundError = 2"
| "os_errno (OSError n _) = n"
| "os_errno _ = 0"

fun os_text :: "pyexc \<Rightarrow> string" where
  "os_text BlockingIOError = ''Resource temporarily unavailable''"
| "os_text InterruptedError = ''Interrupted system call''"
| "os_text ConnectionAbortedError = ''Software caused connection abort''"
| "os_text FileNotFoundError = ''No such file or directory''"
| "os_text (ConnectionError m) = m"
| "os_text (TimeoutError m) = m"
| "os_text (OSError _ m) = m"
| "os_text _ = ''''"

definition exc_str :: "pyexc \<Rightarrow> string" where
  "exc_str e =
     (if os_errno e = 0 then os_text e else ''[Errno '' @ show_int (os_errno e) @ ''] '' @ os_text e)"

text \<open>\<open>str.lower()\<close> on ASCII text, and \<open>", ".join(...)\<close>.\<close>

definition lower_char :: "char \<Rightarrow> char" where
  "lower_char c = (let n = of_char c :: nat in if 65 \<le> n \<and> n \<le> 90 then char_of (n + 32) else c)"

definition lower :: "string \<Rightarrow> string" where
  "lower s = map lower_char s"

fun join_comma :: "string list \<Rightarrow> string" where
  "join_comma [] = ''''"
| "join_comma [s] = s"
| "join_comma (s # t # ss) = s @ '', '' @ join_comma (t # ss)"

section \<open>Sockets\<close>

definition on_nw :: "(sock_world, 'a) py \<Rightarrow> ('x, 'a) net_m" where
  "on_nw m w = (case m (nw w) of (r, v) \<Rightarrow> (r, w\<lparr>nw := v\<rparr>))"

definition upd_sock :: "nat \<Rightarrow> (net_sock \<Rightarrow> net_sock) \<Rightarrow> ('x, unit) net_m" where
  "upd_sock i f = py_mod (\<lambda>w. w\<lparr>socks := (socks w)[i := f (socks w ! i)]\<rparr>)"

definition new_sock :: "int \<Rightarrow> int \<Rightarrow> int \<Rightarrow> int \<Rightarrow> sock_plan \<Rightarrow> net_sock" where
  "new_sock fam typ prot fd p =
     \<lparr>ns_obj = \<lparr>so_fd = fd, so_ssl = False, so_nonblocking = False, so_inet = (fam = 2 \<or> fam = 10), so_stream = (typ = 1)\<rparr>,
      ns_family = fam, ns_type = typ, ns_proto = prot, ns_open = True, ns_local = None, ns_peer = None, ns_plan = p\<rparr>"

text \<open>\<open>socket.socket(family, type, proto)\<close>; a system with no more answers is out of descriptors.\<close>

definition k_socket :: "int \<Rightarrow> int \<Rightarrow> int \<Rightarrow> ('x, nat) net_m" where
  "k_socket fam typ prot =
     py_with socket_answers (\<lambda>s. case s of
        [] \<Rightarrow> py_raise (OSError 24 ''Too many open files'')
      | a # rest \<Rightarrow>
          py_seq (py_mod (\<lambda>w. w\<lparr>socket_answers := rest\<rparr>))
            (case a of
               Inl e \<Rightarrow> py_raise e
             | Inr (fd, p) \<Rightarrow>
                 py_with (\<lambda>w. length (socks w)) (\<lambda>i.
                   py_seq (py_mod (\<lambda>w. w\<lparr>socks := socks w @ [new_sock fam typ prot fd p]\<rparr>)) (py_ret i))))"

definition k_setblocking :: "nat \<Rightarrow> ('x, unit) net_m" where
  "k_setblocking i = upd_sock i (\<lambda>s. s\<lparr>ns_obj := (ns_obj s)\<lparr>so_nonblocking := True\<rparr>\<rparr>)"

text \<open>\<open>sock.bind(addr)\<close>, \<open>sock.setsockopt(...)\<close> and \<open>sock.close()\<close>. Closing gives the
  descriptor back even when it raises.\<close>

definition k_bind :: "nat \<Rightarrow> pyaddr \<Rightarrow> ('x, unit) net_m" where
  "k_bind i addr =
     py_with (\<lambda>w. sp_bind (ns_plan (socks w ! i))) (\<lambda>b.
       py_seq (upd_sock i (\<lambda>s. s\<lparr>ns_plan := (ns_plan s)\<lparr>sp_bind := tl b\<rparr>\<rparr>))
         (case b of
            Some e # _ \<Rightarrow> py_raise e
          | _ \<Rightarrow> upd_sock i (\<lambda>s. s\<lparr>ns_local := Some addr\<rparr>)))"

definition k_setsockopt :: "nat \<Rightarrow> ('x, unit) net_m" where
  "k_setsockopt i =
     py_with (\<lambda>w. sp_opts (ns_plan (socks w ! i))) (\<lambda>b.
       py_seq (upd_sock i (\<lambda>s. s\<lparr>ns_plan := (ns_plan s)\<lparr>sp_opts := tl b\<rparr>\<rparr>))
         (case b of Some e # _ \<Rightarrow> py_raise e | _ \<Rightarrow> py_ret ()))"

definition k_close :: "nat \<Rightarrow> ('x, unit) net_m" where
  "k_close i =
     py_seq (upd_sock i (\<lambda>s. s\<lparr>ns_open := False\<rparr>))
       (py_with (\<lambda>w. sp_close (ns_plan (socks w ! i))) (\<lambda>c. case c of None \<Rightarrow> py_ret () | Some e \<Rightarrow> py_raise e))"

section \<open>Name resolution\<close>

text \<open>\<open>_ensure_resolved\<close>.\<close>

definition ensure_resolved :: "net_env \<Rightarrow> target \<Rightarrow> int \<Rightarrow> int \<Rightarrow> int \<Rightarrow> int \<Rightarrow> ('x, addr_info list) net_m" where
  "ensure_resolved E t fam typ prot flgs =
     (case ipaddr_info E t fam typ prot of
        Some i \<Rightarrow> py_ret [i]
      | None \<Rightarrow>
          py_seq (on_nw (getaddrinfo (fresh_pool E) (ScUser 1) (ScUser 0)))
            (py_check (\<lambda>_. lookup E t fam typ prot flgs)))"

text \<open>The first entry of it, which \<open>sock_connect\<close> takes for a socket of an internet family.\<close>

definition resolve_first :: "net_env \<Rightarrow> net_sock \<Rightarrow> pyaddr \<Rightarrow> pyexc + pyaddr" where
  "resolve_first E s a =
     (case ipaddr_info E (ByAddr a) (ns_family s) (ns_type s) (ns_proto s) of
        Some i \<Rightarrow> Inr (ai_addr i)
      | None \<Rightarrow>
          (case lookup E (ByAddr a) (ns_family s) (ns_type s) (ns_proto s) 0 of
             Inl e \<Rightarrow> Inl e
           | Inr [] \<Rightarrow> Inl (IndexError ''list index out of range'')
           | Inr (i # _) \<Rightarrow> Inr (ai_addr i)))"

section \<open>Awaiting sock_connect\<close>

text \<open>A task that awaits a socket coroutine: it sees the outcome, or is cancelled after \<open>k\<close> turns;
  cancelling the future runs its done callbacks before the task resumes.\<close>

definition await_task :: "bool \<Rightarrow> coro so_m \<Rightarrow> nat \<Rightarrow> answer so_m" where
  "await_task d start k w =
     (case start w of
        (Inl e, w1) \<Rightarrow> (Inl e, w1)
      | (Inr (Returned v), w1) \<Rightarrow> (Inr v, w1)
      | (Inr (Awaiting f), w1) \<Rightarrow>
          let w2 = turns d f k w1
          in (case outcome f w2 of
                Some r \<Rightarrow> (r, w2)
              | None \<Rightarrow> (Inl CancelledError, run_ready_scbs (snd (fut_cancel f w2)))))"

text \<open>The loop with the socket in hand.\<close>

definition focus :: "net_sock \<Rightarrow> sock_world \<Rightarrow> sock_world" where
  "focus s v = v\<lparr>sk := ns_obj s, connect_answers := sp_connect (ns_plan s), so_errors := sp_soerr (ns_plan s)\<rparr>"

definition await_connect :: "net_env \<Rightarrow> nat \<Rightarrow> pyaddr \<Rightarrow> ('x, unit) net_m" where
  "await_connect E i addr =
     py_with (\<lambda>w. socks w ! i) (\<lambda>s.
       py_seq (py_mod (\<lambda>w. w\<lparr>nw := focus s (nw w)\<rparr>))
         (py_seq (on_nw (await_task False (sock_connect (resolve_first E s) addr) (sp_wait (ns_plan s))))
           (upd_sock i (\<lambda>s. s\<lparr>ns_peer := Some addr\<rparr>))))"

section \<open>Transports\<close>

text \<open>The loop as a new transport meets it: nothing scheduled or registered for it yet, the loop's
  flags and the system's answers as they are.\<close>

definition transport_loop :: "sock_world \<Rightarrow> tcb loop_state" where
  "transport_loop v =
     (tokioop_new (t0_wall v) (os_reg v) (caller_thread v) (other_running v) (\<lambda>_. PlainCallable))
       \<lparr>running := running v, loop_closed := loop_closed v, debug := debug v, thread_id := thread_id v\<rparr>"

text \<open>A method of a transport object.\<close>

definition on_conn :: "nat \<Rightarrow> (sock_transport proto \<Rightarrow> 'a sock_m) \<Rightarrow> ('x, 'a) net_m" where
  "on_conn t m w =
     (case m (nt_proto (conns w ! t)) (nt_obj (conns w ! t)) of
        (r, obj) \<Rightarrow> (r, w\<lparr>conns := (conns w)[t := (conns w ! t)\<lparr>nt_obj := obj\<rparr>]\<rparr>))"

text \<open>The identities of transport objects in the loop's table: even numbers for the stream transports,
  odd ones for the datagram transports.\<close>

definition stream_id :: "nat \<Rightarrow> nat" where
  "stream_id t = 2 * t"

definition dgram_id :: "nat \<Rightarrow> nat" where
  "dgram_id t = 2 * t + 1"

text \<open>\<open>_SelectorSocketTransport(loop, sock, protocol, waiter, extra, server)\<close>: the object enters the
  table of transports and its server's count, then schedules its first callbacks.\<close>

definition new_transport ::
  "bool \<Rightarrow> app_protocol \<Rightarrow> nat option \<Rightarrow> nat option \<Rightarrow> nat \<Rightarrow> ('x, nat) net_m" where
  "new_transport tls p waiter srv i =
     py_with (\<lambda>w. (socks w ! i, length (conns w))) (\<lambda>(s, t).
       py_seq
         (py_mod (\<lambda>w.
           let fd = so_fd (ns_obj s);
               act = (case srv of None \<Rightarrow> 0 | Some n \<Rightarrow> active_conns w n);
               obj = new_sock_transport (transport_loop (nw w)) fd (ns_peer s) srv act 1024 [] []
           in w\<lparr>active_conns := (case srv of None \<Rightarrow> active_conns w | Some n \<Rightarrow> (active_conns w)(n := act + 1)),
                nw := (nw w)\<lparr>transports := AList.update fd (stream_id t) (transports (nw w))\<rparr>,
                conns := conns w @ [\<lparr>nt_sock = i, nt_tls = tls, nt_proto = snd p, nt_obj = obj\<rparr>]\<rparr>))
         (py_seq (on_conn t (\<lambda>_. sock_init (fst p) WriteSendmsg waiter)) (py_ret t)))"

definition ensure_sock_no_transport :: "nat \<Rightarrow> ('x, unit) net_m" where
  "ensure_sock_no_transport i =
     py_with (\<lambda>w. so_fd (ns_obj (socks w ! i))) (\<lambda>fd.
       py_with (\<lambda>w. tr_closing (nw w)) (\<lambda>c. on_nw (ensure_fd_no_transport c (FdInt fd))))"

definition make_socket_transport :: "app_protocol \<Rightarrow> nat \<Rightarrow> nat option \<Rightarrow> nat \<Rightarrow> ('x, nat) net_m" where
  "make_socket_transport p waiter srv i =
     py_seq (ensure_sock_no_transport i) (new_transport False p (Some waiter) srv i)"

text \<open>\<open>_make_ssl_transport\<close>: asyncio's \<open>SSLProtocol\<close> (a buffered protocol) may refuse its
  arguments, and is the protocol of a stream transport that wakes nobody up.\<close>

definition make_ssl_transport :: "net_env \<Rightarrow> app_protocol \<Rightarrow> bool \<Rightarrow> nat option \<Rightarrow> nat \<Rightarrow> ('x, nat) net_m" where
  "make_ssl_transport E p server_side srv i =
     py_seq (ensure_sock_no_transport i)
       (case tls_reject E server_side of
          Some e \<Rightarrow> py_raise e
        | None \<Rightarrow> new_transport True (BufferedProtocol, ssl_protocol E p) None srv i)"

text \<open>One batch of the loop over what the transport scheduled; the loop reports what a callback
  raises and goes on.\<close>

definition run_scheduled :: "sock_transport proto \<Rightarrow> sock_transport \<Rightarrow> sock_transport" where
  "run_scheduled P t =
     fold (\<lambda>e u. if flags (loop u) (re_cancelled e) then u else snd (run_tcb P (re_callback e) (re_args e) u))
       (ready (loop t)) (t\<lparr>loop := (loop t)\<lparr>ready := []\<rparr>\<rparr>)"

definition await_waiter_of :: "nat \<Rightarrow> ('x, unit) net_m" where
  "await_waiter_of t =
     py_with (\<lambda>w. (nt_tls (conns w ! t), sp_fate (ns_plan (socks w ! nt_sock (conns w ! t))))) (\<lambda>(tls, fate).
       py_seq (if fate = CancelBefore then py_ret () else on_conn t (\<lambda>P. py_mod (run_scheduled P)))
         (case fate of
            Settles \<Rightarrow> py_ret ()
          | Fails e \<Rightarrow> if tls then py_raise e else py_ret ()
          | _ \<Rightarrow> py_raise CancelledError))"

definition close_transport :: "net_env \<Rightarrow> nat \<Rightarrow> ('x, unit) net_m" where
  "close_transport E t =
     py_with (\<lambda>w. nt_tls (conns w ! t)) (\<lambda>tls. on_conn t (\<lambda>P. if tls then tls_close E else sock_close))"

text \<open>\<open>try: await waiter except BaseException: transport.close(); raise\<close>.\<close>

definition await_or_close :: "net_env \<Rightarrow> nat \<Rightarrow> ('x, unit) net_m" where
  "await_or_close E t = py_try (await_waiter_of t) (\<lambda>e. py_seq (close_transport E t) (py_raise e))"

end
