(* ===== verification/Connections.thy ===== *)
theory Connections
  imports Net_World
begin

text \<open>
  Client connections of \<open>RustEventLoop\<close> (\<^verbatim>\<open>src/python/tokioop/loop.py\<close>): \<open>_connect_sock\<close>,
  \<open>create_connection\<close>, \<open>_create_connection_transport\<close>, \<open>connect_accepted_socket\<close> and
  \<open>create_unix_connection\<close>. The list \<open>exceptions\<close> that the attempts of one
  \<open>create_connection\<close> share is \<open>nw_errors\<close>; an attempt appends its own list \<open>my_exceptions\<close>
  and refers to it by its position \<open>m\<close>.
\<close>

section \<open>One attempt\<close>

definition my_append :: "nat \<Rightarrow> pyexc \<Rightarrow> ('x, unit) net_m" where
  "my_append m e = py_mod (\<lambda>w. w\<lparr>nw_errors := (nw_errors w)[m := nw_errors w ! m @ [e]]\<rparr>)"

definition bind_error :: "net_env \<Rightarrow> pyaddr \<Rightarrow> pyexc \<Rightarrow> pyexc" where
  "bind_error E laddr e =
     os_error (os_errno e)
       (''error while attempting to bind on address '' @ repr_addr E laddr @ '': '' @ lower (exc_str e))"

text \<open>\<open>for ... in local_addr_infos: ... else: ...\<close>; the \<open>else\<close> clause runs when no address was
  bound.\<close>

primrec bind_local :: "net_env \<Rightarrow> nat \<Rightarrow> nat \<Rightarrow> int \<Rightarrow> addr_info list \<Rightarrow> ('x, unit) net_m" where
  "bind_local E m i fam [] =
     py_with (\<lambda>w. nw_errors w ! m) (\<lambda>es.
       if es \<noteq> []
       then py_seq (py_mod (\<lambda>w. w\<lparr>nw_errors := (nw_errors w)[m := butlast es]\<rparr>)) (py_raise (last es))
       else py_raise (OSError 0 (''no matching local address with family='' @ show_int fam @ '' found'')))"
| "bind_local E m i fam (l # ls) =
     (if ai_family l \<noteq> fam then bind_local E m i fam ls
      else
        py_try_else (k_bind i (ai_addr l))
          (\<lambda>e. if is_oserror e
               then py_seq (my_append m (bind_error E (ai_addr l) e)) (bind_local E m i fam ls)
               else py_raise e)
          (\<lambda>_. py_ret ()))"

definition close_quietly :: "nat \<Rightarrow> ('x, unit) net_m" where
  "close_quietly i = py_try (k_close i) (\<lambda>e. if is_oserror e then py_ret () else py_raise e)"

text \<open>The body of the inner \<open>try\<close> once the socket exists.\<close>

definition bind_and_connect ::
  "net_env \<Rightarrow> nat \<Rightarrow> nat \<Rightarrow> addr_info \<Rightarrow> addr_info list option \<Rightarrow> ('x, unit) net_m" where
  "bind_and_connect E m i ai locals =
     py_seq (k_setblocking i)
       (py_seq (case locals of None \<Rightarrow> py_ret () | Some ls \<Rightarrow> bind_local E m i (ai_family ai) ls)
         (await_connect E i (ai_addr ai)))"

definition record_oserror :: "nat \<Rightarrow> pyexc \<Rightarrow> ('x, 'a) net_m" where
  "record_oserror m e = (if is_oserror e then py_seq (my_append m e) (py_raise e) else py_raise e)"

definition connect_sock :: "net_env \<Rightarrow> addr_info \<Rightarrow> addr_info list option \<Rightarrow> ('x, nat) net_m" where
  "connect_sock E ai locals =
     py_with (\<lambda>w. length (nw_errors w)) (\<lambda>m.
       py_seq (py_mod (\<lambda>w. w\<lparr>nw_errors := nw_errors w @ [[]]\<rparr>))
         (py_try_else (k_socket (ai_family ai) (ai_type ai) (ai_proto ai))
           (record_oserror m)
           (\<lambda>i. py_try
             (py_try (py_seq (bind_and_connect E m i ai locals) (py_ret i)) (record_oserror m))
             (\<lambda>e. py_seq (close_quietly i) (py_raise e)))))"

section \<open>create_connection\<close>

datatype ssl_arg = NoSsl | SslBool bool | SslContext

fun ssl_on :: "ssl_arg \<Rightarrow> bool" where
  "ssl_on NoSsl = False"
| "ssl_on (SslBool b) = b"
| "ssl_on SslContext = True"

record conn_args =
  ca_host :: "string option"
  ca_port :: "int option"
  ca_ssl :: ssl_arg
  ca_family :: int
  ca_proto :: int
  ca_flags :: int
  ca_sock :: "nat option"
  ca_local :: "target option"
  ca_server_hostname :: "string option"
  ca_handshake_timeout :: "nat option"
  ca_shutdown_timeout :: "nat option"
  ca_delay :: "nat option"
  ca_interleave :: "nat option"
  ca_all_errors :: bool

text \<open>\<open>_create_connection_transport\<close>; \<open>F\<close> is what the protocol factory gives.\<close>

definition create_connection_transport ::
  "net_env \<Rightarrow> pyexc + app_protocol \<Rightarrow> ssl_arg \<Rightarrow> bool \<Rightarrow> nat \<Rightarrow> ('x, nat) net_m" where
  "create_connection_transport E F ssl server_side i =
     py_seq (k_setblocking i)
       (py_bind (py_check (\<lambda>_. F)) (\<lambda>p.
         py_bind (on_nw create_future) (\<lambda>waiter.
           py_bind (if ssl_on ssl then make_ssl_transport E p server_side None i
                    else make_socket_transport p waiter None i) (\<lambda>t.
             py_seq (await_or_close E t) (py_ret t)))))"

text \<open>The checks of \<open>create_connection\<close> before anything is resolved; \<open>_check_ssl_socket\<close> is asyncio's
  test for an \<open>SSLSocket\<close>.\<close>

definition check_ssl_socket :: "nat option \<Rightarrow> ('x, unit) net_m" where
  "check_ssl_socket so =
     (case so of
        None \<Rightarrow> py_ret ()
      | Some i \<Rightarrow> py_when (\<lambda>w. so_ssl (ns_obj (socks w ! i))) (py_raise (TypeError ''Socket cannot be of type SSLSocket'')))"

definition check_ssl_timeouts :: "bool \<Rightarrow> nat option \<Rightarrow> nat option \<Rightarrow> pyexc + unit" where
  "check_ssl_timeouts tls handshake shutdown =
     (if handshake \<noteq> None \<and> \<not> tls then Inl (ValueError ''ssl_handshake_timeout is only meaningful with ssl'')
      else if shutdown \<noteq> None \<and> \<not> tls then Inl (ValueError ''ssl_shutdown_timeout is only meaningful with ssl'')
      else Inr ())"

definition connection_checks :: "conn_args \<Rightarrow> pyexc + unit" where
  "connection_checks a =
     (if ca_server_hostname a \<noteq> None \<and> \<not> ssl_on (ca_ssl a)
      then Inl (ValueError ''server_hostname is only meaningful with ssl'')
      else if ca_server_hostname a = None \<and> ssl_on (ca_ssl a) \<and> (ca_host a = None \<or> ca_host a = Some '''')
      then Inl (ValueError ''You must set server_hostname when using ssl without a host'')
      else check_ssl_timeouts (ssl_on (ca_ssl a)) (ca_handshake_timeout a) (ca_shutdown_timeout a))"

definition resolve_nonempty :: "net_env \<Rightarrow> target \<Rightarrow> conn_args \<Rightarrow> ('x, addr_info list) net_m" where
  "resolve_nonempty E t a =
     py_bind (ensure_resolved E t (ca_family a) 1 (ca_proto a) (ca_flags a)) (\<lambda>infos.
       if infos = [] then py_raise (OSError 0 ''getaddrinfo() returned empty list'') else py_ret infos)"

primrec connect_loop :: "net_env \<Rightarrow> addr_info list option \<Rightarrow> addr_info list \<Rightarrow> ('x, nat option) net_m" where
  "connect_loop E locals [] = py_ret None"
| "connect_loop E locals (ai # ais) =
     py_try_else (connect_sock E ai locals)
       (\<lambda>e. if is_oserror e then connect_loop E locals ais else py_raise e)
       (\<lambda>i. py_ret (Some i))"

text \<open>What is raised when no address could be reached. An \<open>ExceptionGroup\<close> of nothing is a
  \<open>ValueError\<close>.\<close>

definition connect_failure :: "bool \<Rightarrow> pyexc list \<Rightarrow> pyexc" where
  "connect_failure all_errors es =
     (if all_errors
      then if es = [] then ValueError ''second argument (exceptions) must be a non-empty sequence''
           else ExceptionGroup ''create_connection failed'' es
      else
        (case es of
           [] \<Rightarrow> TimeoutError ''create_connection failed''
         | [e] \<Rightarrow> e
         | e # _ \<Rightarrow>
             if list_all (\<lambda>x. exc_str x = exc_str e) es then e
             else OSError 0 (''Multiple exceptions: '' @ join_comma (map exc_str es))))"

text \<open>\<open>race\<close> is \<open>staggered_race\<close> over the attempts, which happy eyeballs uses instead of the
  loop.\<close>

definition resolve_and_connect ::
  "net_env \<Rightarrow> ((addr_info \<Rightarrow> ('x, nat) net_m) \<Rightarrow> addr_info list \<Rightarrow> nat \<Rightarrow> ('x, nat option) net_m) \<Rightarrow>
     conn_args \<Rightarrow> ('x, nat) net_m" where
  "resolve_and_connect E race a =
     py_bind (resolve_nonempty E (ByName (ca_host a) (ca_port a)) a) (\<lambda>infos.
       py_bind (case ca_local a of
                  None \<Rightarrow> py_ret None
                | Some l \<Rightarrow> py_bind (resolve_nonempty E l a) (\<lambda>ls. py_ret (Some ls))) (\<lambda>locals.
         let inter = (if ca_delay a \<noteq> None \<and> ca_interleave a = None then Some 1 else ca_interleave a);
             infos' = (case inter of
                         None \<Rightarrow> infos
                       | Some n \<Rightarrow> if n = 0 then infos else interleave_addrinfos E infos n)
         in py_seq (py_mod (\<lambda>w. w\<lparr>nw_errors := []\<rparr>))
              (py_bind (case ca_delay a of
                          None \<Rightarrow> connect_loop E locals infos'
                        | Some d \<Rightarrow> race (\<lambda>ai. connect_sock E ai locals) infos' d) (\<lambda>so.
                case so of
                  Some i \<Rightarrow> py_ret i
                | None \<Rightarrow> py_with (\<lambda>w. concat (nw_errors w)) (\<lambda>es. py_raise (connect_failure (ca_all_errors a) es))))))"

definition given_socket :: "conn_args \<Rightarrow> ('x, nat) net_m" where
  "given_socket a =
     (case ca_sock a of
        None \<Rightarrow> py_raise (ValueError ''host and port was not specified and no sock specified'')
      | Some i \<Rightarrow>
          py_seq (py_when (\<lambda>w. ns_type (socks w ! i) \<noteq> 1) (py_raise (ValueError ''A Stream Socket was expected'')))
            (py_ret i))"

definition create_connection ::
  "net_env \<Rightarrow> ((addr_info \<Rightarrow> ('x, nat) net_m) \<Rightarrow> addr_info list \<Rightarrow> nat \<Rightarrow> ('x, nat option) net_m) \<Rightarrow>
     pyexc + app_protocol \<Rightarrow> conn_args \<Rightarrow> ('x, nat) net_m" where
  "create_connection E race F a =
     py_seq (py_check (\<lambda>_. connection_checks a))
       (py_seq (check_ssl_socket (ca_sock a))
         (py_bind
           (if ca_host a \<noteq> None \<or> ca_port a \<noteq> None
            then if ca_sock a \<noteq> None
                 then py_raise (ValueError ''host/port and sock can not be specified at the same time'')
                 else resolve_and_connect E race a
            else given_socket a)
           (create_connection_transport E F (ca_ssl a) False)))"

section \<open>Accepted and unix sockets\<close>

definition connect_accepted_socket ::
  "net_env \<Rightarrow> pyexc + app_protocol \<Rightarrow> nat \<Rightarrow> ssl_arg \<Rightarrow> nat option \<Rightarrow> nat option \<Rightarrow> ('x, nat) net_m" where
  "connect_accepted_socket E F i ssl handshake shutdown =
     py_seq (py_when (\<lambda>w. ns_type (socks w ! i) \<noteq> 1) (py_raise (ValueError ''A Stream Socket was expected'')))
       (py_seq (py_check (\<lambda>_. check_ssl_timeouts (ssl_on ssl) handshake shutdown))
         (py_seq (check_ssl_socket (Some i)) (create_connection_transport E F ssl True i)))"

definition unix_checks :: "ssl_arg \<Rightarrow> string option \<Rightarrow> nat option \<Rightarrow> nat option \<Rightarrow> pyexc + unit" where
  "unix_checks ssl hostname handshake shutdown =
     (if ssl_on ssl
      then if hostname = None then Inl (ValueError ''you have to pass server_hostname when using ssl'') else Inr ()
      else if hostname \<noteq> None then Inl (ValueError ''server_hostname is only meaningful with ssl'')
      else check_ssl_timeouts False handshake shutdown)"

definition create_unix_connection ::
  "net_env \<Rightarrow> pyexc + app_protocol \<Rightarrow> pyaddr option \<Rightarrow> ssl_arg \<Rightarrow> nat option \<Rightarrow> string option \<Rightarrow>
     nat option \<Rightarrow> nat option \<Rightarrow> ('x, nat) net_m" where
  "create_unix_connection E F path ssl so hostname handshake shutdown =
     py_seq (py_check (\<lambda>_. unix_checks ssl hostname handshake shutdown))
       (py_bind
         (case path of
            Some p \<Rightarrow>
              if so \<noteq> None then py_raise (ValueError ''path and sock can not be specified at the same time'')
              else py_bind (k_socket 1 1 0) (\<lambda>i.
                py_seq (py_try (py_seq (k_setblocking i) (await_connect E i p))
                         (\<lambda>e. py_seq (k_close i) (py_raise e)))
                  (py_ret i))
          | None \<Rightarrow>
              (case so of
                 None \<Rightarrow> py_raise (ValueError ''no path and sock were specified'')
               | Some i \<Rightarrow>
                   py_seq (py_when (\<lambda>w. ns_family (socks w ! i) \<noteq> 1 \<or> ns_type (socks w ! i) \<noteq> 1)
                            (py_raise (ValueError ''A UNIX Domain Stream Socket was expected'')))
                     (py_seq (k_setblocking i) (py_ret i))))
         (create_connection_transport E F ssl False))"

end
