(* ===== verification/Servers.thy ===== *)
theory Servers
  imports Connections
begin

text \<open>
  Servers of \<open>RustEventLoop\<close> (\<^verbatim>\<open>src/python/tokioop/loop.py\<close>): \<open>create_server\<close>,
  \<open>create_unix_server\<close>, \<open>_start_serving\<close>, \<open>_accept_connection\<close>, \<open>_accept_connection2\<close> and
  \<open>_stop_serving\<close>, with asyncio's \<open>Server\<close> object.

  The world extends the one of the connections: what \<open>accept\<close> will answer on each listening
  socket, the list \<open>sockets\<close> that \<open>create_server\<close> fills, the servers, the tasks that
  \<open>_accept_connection\<close> created and that have not run yet, and the answers of the file system.
  The loop's callbacks are numbers: \<open>accept_cb i\<close> is \<open>_accept_connection\<close> on socket \<open>i\<close> and
  \<open>retry_cb i\<close> is \<open>_start_serving\<close> on it.

  Parameters: \<open>hook\<close> runs the application's exception handler; \<open>order\<close> is the order in which Python
  walks through a set of distinct addresses.
\<close>

section \<open>State\<close>

record server =
  sv_socks :: "nat list"
  sv_backlog :: nat
  sv_ssl :: bool
  sv_serving :: bool

record server_world = net_world +
  accept_script :: "nat \<Rightarrow> (pyexc + int \<times> pyaddr \<times> sock_plan) list"
  binding :: "nat list"
  servers :: "server list"
  accept_tasks :: "(nat \<times> pyaddr \<times> nat) list"
  stat_script :: "(pyexc + bool \<times> nat) list"
  remove_script :: "pyexc option list"

type_synonym 'a sv_m = "(server_world, 'a) py"

type_synonym handler_call = "nat option \<Rightarrow> scb \<Rightarrow> pyarg list \<Rightarrow> sock_world \<Rightarrow> (pyexc + unit) \<times> sock_world"

definition accept_cb :: "nat \<Rightarrow> scb" where
  "accept_cb i = ScUser (2 * i)"

definition retry_cb :: "nat \<Rightarrow> scb" where
  "retry_cb i = ScUser (2 * i + 1)"

definition sock_fileno :: "nat \<Rightarrow> 'x net_world_scheme \<Rightarrow> int" where
  "sock_fileno i w = so_fd (ns_obj (socks w ! i))"

text \<open>\<open>self.call_exception_handler({...})\<close>.\<close>

definition report_error :: "handler_call \<Rightarrow> string \<Rightarrow> pyexc \<Rightarrow> unit sv_m" where
  "report_error hook msg e = on_nw (py_mod (dispatch_exception_handler hook msg (Some e)))"

section \<open>Accepting\<close>

definition start_serving :: "nat \<Rightarrow> unit sv_m" where
  "start_serving i =
     py_with (sock_fileno i) (\<lambda>fd. py_seq (on_nw (add_reader (FdInt fd) (accept_cb i) [])) (py_ret ()))"

text \<open>\<open>sock.accept()\<close>: a new socket of the listener's family, connected to the peer.\<close>

definition k_accept_on :: "nat \<Rightarrow> (nat \<times> pyaddr) sv_m" where
  "k_accept_on i =
     py_with (\<lambda>w. accept_script w i) (\<lambda>s. case s of
        [] \<Rightarrow> py_raise BlockingIOError
      | a # rest \<Rightarrow>
          py_seq (py_mod (\<lambda>w. w\<lparr>accept_script := (accept_script w)(i := rest)\<rparr>))
            (case a of
               Inl e \<Rightarrow> py_raise e
             | Inr (fd, peer, p) \<Rightarrow>
                 py_with (\<lambda>w. (length (socks w), ns_family (socks w ! i))) (\<lambda>(c, fam).
                   py_seq (py_mod (\<lambda>w. w\<lparr>socks := socks w @ [(new_sock fam 1 0 fd p)\<lparr>ns_peer := Some peer\<rparr>]\<rparr>))
                     (py_ret (c, peer)))))"

text \<open>\<open>EMFILE\<close>, \<open>ENFILE\<close>, \<open>ENOBUFS\<close>, \<open>ENOMEM\<close>.\<close>

definition out_of_resources :: "pyexc \<Rightarrow> bool" where
  "out_of_resources e \<longleftrightarrow> os_errno e \<in> {24, 23, 105, 12}"

text \<open>\<open>for _ in range(backlog + 1)\<close>; the first argument counts the rounds left. \<open>ACCEPT_RETRY_DELAY\<close> is
  one second.\<close>

primrec accept_rounds :: "nat \<Rightarrow> handler_call \<Rightarrow> nat \<Rightarrow> nat \<Rightarrow> unit sv_m" where
  "accept_rounds 0 hook srv i = py_ret ()"
| "accept_rounds (Suc n) hook srv i =
     py_try_else
       (py_bind (k_accept_on i) (\<lambda>(c, addr). py_seq (k_setblocking c) (py_ret (c, addr))))
       (\<lambda>e. if e = ConnectionAbortedError then accept_rounds n hook srv i
            else if is_blocking e then py_ret ()
            else if is_oserror e \<and> out_of_resources e
            then py_seq (report_error hook ''socket.accept() out of system resource'' e)
              (py_with (sock_fileno i) (\<lambda>fd.
                py_seq (on_nw (remove_reader (FdInt fd)))
                  (py_seq (on_nw (call_later (Some (Fin 1)) (retry_cb i) [] None))
                    (accept_rounds n hook srv i))))
            else py_raise e)
       (\<lambda>(c, addr).
         py_seq (py_mod (\<lambda>w. w\<lparr>accept_tasks := accept_tasks w @ [(c, addr, srv)]\<rparr>))
           (accept_rounds n hook srv i))"

definition accept_connection :: "handler_call \<Rightarrow> nat \<Rightarrow> nat \<Rightarrow> unit sv_m" where
  "accept_connection hook srv i =
     py_with (\<lambda>w. sv_backlog (servers w ! srv)) (\<lambda>backlog. accept_rounds (backlog + 1) hook srv i)"

text \<open>The task of an accepted connection; \<open>F\<close> is what the protocol factory gives this time.\<close>

definition accept_body :: "net_env \<Rightarrow> pyexc + app_protocol \<Rightarrow> nat \<Rightarrow> nat \<Rightarrow> unit sv_m" where
  "accept_body E F conn srv =
     py_bind (py_check (\<lambda>_. F)) (\<lambda>p.
       py_bind (on_nw create_future) (\<lambda>waiter.
         py_with (\<lambda>w. sv_ssl (servers w ! srv)) (\<lambda>tls.
           py_bind (if tls then make_ssl_transport E p True (Some srv) conn
                    else make_socket_transport p waiter (Some srv) conn)
             (await_or_close E))))"

definition accept_connection2 :: "net_env \<Rightarrow> handler_call \<Rightarrow> pyexc + app_protocol \<Rightarrow> nat \<Rightarrow> nat \<Rightarrow> unit sv_m" where
  "accept_connection2 E hook F conn srv =
     py_try (accept_body E F conn srv)
       (on_error (\<lambda>e. py_when (\<lambda>w. debug (nw w))
          (report_error hook ''Error on transport creation for incoming connection'' e)))"

definition stop_serving :: "nat \<Rightarrow> unit sv_m" where
  "stop_serving i =
     py_with (sock_fileno i) (\<lambda>fd. py_seq (on_nw (remove_reader (FdInt fd))) (k_close i))"

section \<open>asyncio's Server\<close>

definition k_listen :: "nat \<Rightarrow> unit sv_m" where
  "k_listen i = py_with (\<lambda>w. sp_listen (ns_plan (socks w ! i))) (\<lambda>l. case l of None \<Rightarrow> py_ret () | Some e \<Rightarrow> py_raise e)"

definition new_server :: "nat list \<Rightarrow> bool \<Rightarrow> nat \<Rightarrow> nat sv_m" where
  "new_server sks tls backlog =
     py_with (\<lambda>w. length (servers w)) (\<lambda>n.
       py_seq (py_mod (\<lambda>w. w\<lparr>servers := servers w @ [\<lparr>sv_socks = sks, sv_backlog = backlog, sv_ssl = tls, sv_serving = False\<rparr>]\<rparr>))
         (py_ret n))"

primrec listen_all :: "nat list \<Rightarrow> unit sv_m" where
  "listen_all [] = py_ret ()"
| "listen_all (i # is) = py_seq (k_listen i) (py_seq (start_serving i) (listen_all is))"

definition server_start_serving :: "nat \<Rightarrow> unit sv_m" where
  "server_start_serving n =
     py_if (\<lambda>w. sv_serving (servers w ! n)) (py_ret ())
       (py_seq (py_mod (\<lambda>w. w\<lparr>servers := (servers w)[n := (servers w ! n)\<lparr>sv_serving := True\<rparr>]\<rparr>))
         (py_with (\<lambda>w. sv_socks (servers w ! n)) listen_all))"

section \<open>create_server\<close>

datatype host_arg = OneHost "string option" | ManyHosts "string option list"

record server_args =
  sa_host :: host_arg
  sa_port :: "int option"
  sa_family :: int
  sa_flags :: int
  sa_sock :: "nat option"
  sa_backlog :: nat
  sa_ssl :: ssl_arg
  sa_reuse_address :: "bool option"
  sa_reuse_port :: bool
  sa_keep_alive :: bool
  sa_handshake_timeout :: "nat option"
  sa_shutdown_timeout :: "nat option"
  sa_start_serving :: bool

text \<open>\<open>_create_server_getaddrinfo\<close>; \<open>repr\<close> quotes a name (that has no quote of its own).\<close>

definition repr_host :: "string option \<Rightarrow> string" where
  "repr_host h = (case h of None \<Rightarrow> ''None'' | Some s \<Rightarrow> CHR 0x27 # s @ [CHR 0x27])"

definition create_server_getaddrinfo :: "net_env \<Rightarrow> string option \<Rightarrow> server_args \<Rightarrow> ('x, addr_info list) net_m" where
  "create_server_getaddrinfo E host a =
     py_bind (ensure_resolved E (ByName host (sa_port a)) (sa_family a) 1 0 (sa_flags a)) (\<lambda>infos.
       if infos = [] then py_raise (OSError 0 (''getaddrinfo('' @ repr_host host @ '') returned empty list'')) else py_ret infos)"

text \<open>\<open>tasks.gather\<close> over the hosts: the answers in the order of the hosts, or the first failure. The
  lookups run one after the other here; asyncio lets them overlap in the executor.\<close>

primrec gather_infos :: "net_env \<Rightarrow> string option list \<Rightarrow> server_args \<Rightarrow> ('x, addr_info list) net_m" where
  "gather_infos E [] a = py_ret []"
| "gather_infos E (h # hs) a =
     py_bind (create_server_getaddrinfo E h a) (\<lambda>xs. py_bind (gather_infos E hs a) (\<lambda>ys. py_ret (xs @ ys)))"

fun host_list :: "host_arg \<Rightarrow> string option list" where
  "host_list (OneHost h) = (if h = Some [] then [None] else [h])"
| "host_list (ManyHosts hs) = hs"

text \<open>asyncio's \<open>_set_reuseport\<close> turns the \<open>OSError\<close> of the option into a \<open>ValueError\<close>.\<close>

definition set_reuseport :: "nat \<Rightarrow> ('x, unit) net_m" where
  "set_reuseport i =
     py_try (k_setsockopt i)
       (\<lambda>e. if is_oserror e
            then py_raise (ValueError ''reuse_port not supported by socket module, SO_REUSEPORT defined but not implemented.'')
            else py_raise e)"

definition set_options :: "server_args \<Rightarrow> int \<Rightarrow> nat \<Rightarrow> ('x, unit) net_m" where
  "set_options a af i =
     py_seq (if sa_reuse_address a \<noteq> Some False then k_setsockopt i else py_ret ())
       (py_seq (if sa_reuse_port a \<and> (af = 2 \<or> af = 10) then set_reuseport i else py_ret ())
         (py_seq (if sa_keep_alive a then k_setsockopt i else py_ret ())
           (if af = 10 then k_setsockopt i else py_ret ())))"

primrec bind_all :: "net_env \<Rightarrow> server_args \<Rightarrow> addr_info list \<Rightarrow> unit sv_m" where
  "bind_all E a [] = py_ret ()"
| "bind_all E a (res # rest) =
     py_try_else (k_socket (ai_family res) (ai_type res) (ai_proto res))
       (\<lambda>e. if is_oserror e then bind_all E a rest else py_raise e)
       (\<lambda>i. py_seq (py_mod (\<lambda>w. w\<lparr>binding := binding w @ [i]\<rparr>))
         (py_seq (set_options a (ai_family res) i)
           (py_try_else (k_bind i (ai_addr res))
             (\<lambda>e. if \<not> is_oserror e then py_raise e
                  else if os_errno e = 99
                  then py_seq (py_mod (\<lambda>w. w\<lparr>binding := butlast (binding w)\<rparr>))
                         (py_seq (k_close i) (bind_all E a rest))
                  else py_raise (bind_error E (ai_addr res) e))
             (\<lambda>_. bind_all E a rest))))"

primrec close_all :: "nat list \<Rightarrow> ('x, unit) net_m" where
  "close_all [] = py_ret ()"
| "close_all (i # is) = py_seq (k_close i) (close_all is)"

text \<open>\<open>try: ... completed = True finally: if not completed: close\<close>.\<close>

definition bind_or_close :: "net_env \<Rightarrow> server_args \<Rightarrow> addr_info list \<Rightarrow> nat list sv_m" where
  "bind_or_close E a infos =
     py_try
       (py_seq (bind_all E a infos)
         (py_with binding (\<lambda>sks.
           if sks = []
           then py_raise (OSError 0 (''could not bind on any address out of ['' @
                  join_comma (map (\<lambda>r. repr_addr E (ai_addr r)) infos) @ '']''))
           else py_ret sks)))
       (\<lambda>e. py_seq (py_with binding close_all) (py_raise e))"

definition server_checks :: "server_args \<Rightarrow> pyexc + unit" where
  "server_checks a =
     (case sa_ssl a of
        SslBool b \<Rightarrow> Inl (TypeError ''ssl argument must be an SSLContext or None'')
      | s \<Rightarrow> check_ssl_timeouts (s \<noteq> NoSsl) (sa_handshake_timeout a) (sa_shutdown_timeout a))"

definition server_sockets :: "net_env \<Rightarrow> (addr_info list \<Rightarrow> addr_info list) \<Rightarrow> server_args \<Rightarrow> nat list sv_m" where
  "server_sockets E order a =
     (if sa_host a \<noteq> OneHost None \<or> sa_port a \<noteq> None
      then if sa_sock a \<noteq> None
           then py_raise (ValueError ''host/port and sock can not be specified at the same time'')
           else py_bind (gather_infos E (host_list (sa_host a)) a) (\<lambda>infos.
                  py_seq (py_mod (\<lambda>w. w\<lparr>binding := []\<rparr>)) (bind_or_close E a (order (remdups infos))))
      else
        (case sa_sock a of
           None \<Rightarrow> py_raise (ValueError ''Neither host/port nor sock were specified'')
         | Some i \<Rightarrow>
             py_seq (py_when (\<lambda>w. ns_type (socks w ! i) \<noteq> 1) (py_raise (ValueError ''A Stream Socket was expected'')))
               (py_ret [i])))"

primrec setblocking_all :: "nat list \<Rightarrow> ('x, unit) net_m" where
  "setblocking_all [] = py_ret ()"
| "setblocking_all (i # is) = py_seq (k_setblocking i) (setblocking_all is)"

text \<open>The end of both functions: the server, which may start to listen at once. The
  \<open>sleep(0)\<close> after it changes nothing of this state.\<close>

definition serve :: "nat list \<Rightarrow> bool \<Rightarrow> nat \<Rightarrow> bool \<Rightarrow> nat sv_m" where
  "serve sks tls backlog start =
     py_bind (new_server sks tls backlog) (\<lambda>n.
       py_seq (if start then server_start_serving n else py_ret ()) (py_ret n))"

definition create_server :: "net_env \<Rightarrow> (addr_info list \<Rightarrow> addr_info list) \<Rightarrow> server_args \<Rightarrow> nat sv_m" where
  "create_server E order a =
     py_seq (py_check (\<lambda>_. server_checks a))
       (py_seq (check_ssl_socket (sa_sock a))
         (py_bind (server_sockets E order a) (\<lambda>sks.
           py_seq (setblocking_all sks)
             (serve sks (sa_ssl a \<noteq> NoSsl) (sa_backlog a) (sa_start_serving a)))))"

section \<open>create_unix_server\<close>

record unix_args =
  ua_path :: "pyaddr option"
  ua_sock :: "nat option"
  ua_backlog :: nat
  ua_ssl :: ssl_arg
  ua_handshake_timeout :: "nat option"
  ua_shutdown_timeout :: "nat option"
  ua_start_serving :: bool
  ua_cleanup_socket :: bool

text \<open>\<open>path[0] not in (0, "\x00")\<close>: a path of the file system, not an abstract name.\<close>

fun on_filesystem :: "pyaddr \<Rightarrow> pyexc + bool" where
  "on_filesystem (PathAddr (b # bs)) = Inr (b \<noteq> 0)"
| "on_filesystem (AbstractAddr bs) = Inr False"
| "on_filesystem _ = Inl (IndexError ''string index out of range'')"

text \<open>\<open>os.stat(path)\<close>: whether the file is a socket, and its inode; \<open>os.remove(path)\<close>.\<close>

definition k_stat :: "('x server_world_scheme, bool \<times> nat) py" where
  "k_stat =
     py_with stat_script (\<lambda>s. case s of
        [] \<Rightarrow> py_raise FileNotFoundError
      | a # rest \<Rightarrow> py_seq (py_mod (\<lambda>w. w\<lparr>stat_script := rest\<rparr>)) (py_check (\<lambda>_. a)))"

definition k_remove :: "('x server_world_scheme, unit) py" where
  "k_remove =
     py_with remove_script (\<lambda>s. case s of
        [] \<Rightarrow> py_ret ()
      | a # rest \<Rightarrow>
          py_seq (py_mod (\<lambda>w. w\<lparr>remove_script := rest\<rparr>)) (case a of None \<Rightarrow> py_ret () | Some e \<Rightarrow> py_raise e))"

definition remove_stale :: "('x server_world_scheme, unit) py" where
  "remove_stale =
     py_try (py_bind k_stat (\<lambda>(issock, ino). if issock then k_remove else py_ret ()))
       (\<lambda>e. if e = FileNotFoundError then py_ret () else if is_oserror e then py_ret () else py_raise e)"

definition bind_unix :: "net_env \<Rightarrow> nat \<Rightarrow> pyaddr \<Rightarrow> unit sv_m" where
  "bind_unix E i path =
     py_try (k_bind i path)
       (\<lambda>e. py_seq (k_close i)
         (if is_oserror e \<and> os_errno e = 98
          then py_raise (os_error 98 (''Address '' @ repr_addr E path @ '' is already in use''))
          else py_raise e))"

definition unix_server_socket :: "net_env \<Rightarrow> unix_args \<Rightarrow> nat sv_m" where
  "unix_server_socket E a =
     (case ua_path a of
        Some path \<Rightarrow>
          if ua_sock a \<noteq> None then py_raise (ValueError ''path and sock can not be specified at the same time'')
          else
            py_bind (k_socket 1 1 0) (\<lambda>i.
              py_bind (py_check (\<lambda>_. on_filesystem path)) (\<lambda>fs.
                py_seq (if fs then remove_stale else py_ret ())
                  (py_seq (bind_unix E i path) (py_ret i))))
      | None \<Rightarrow>
          (case ua_sock a of
             None \<Rightarrow> py_raise (ValueError ''path was not specified, and no sock specified'')
           | Some i \<Rightarrow>
               py_seq (py_when (\<lambda>w. ns_family (socks w ! i) \<noteq> 1 \<or> ns_type (socks w ! i) \<noteq> 1)
                        (py_raise (ValueError ''A UNIX Domain Stream Socket was expected'')))
                 (py_ret i)))"

text \<open>\<open>sock.getsockname()\<close> of an unbound socket is the empty string.\<close>

definition note_inode :: "nat \<Rightarrow> unit sv_m" where
  "note_inode i =
     py_with (\<lambda>w. case ns_local (socks w ! i) of None \<Rightarrow> PathAddr [] | Some p \<Rightarrow> p) (\<lambda>path.
       py_bind (py_check (\<lambda>_. on_filesystem path)) (\<lambda>fs.
         if fs
         then py_try
                (py_bind k_stat (\<lambda>(issock, ino).
                  on_nw (py_mod (\<lambda>v. v\<lparr>unix_server_sockets := AList.update i ino (unix_server_sockets v)\<rparr>))))
                (\<lambda>e. if e = FileNotFoundError then py_ret () else py_raise e)
         else py_ret ()))"

definition unix_server_checks :: "unix_args \<Rightarrow> pyexc + unit" where
  "unix_server_checks a =
     (case ua_ssl a of
        SslBool b \<Rightarrow> Inl (TypeError ''ssl argument must be an SSLContext or None'')
      | s \<Rightarrow> check_ssl_timeouts (s \<noteq> NoSsl) (ua_handshake_timeout a) (ua_shutdown_timeout a))"

definition create_unix_server :: "net_env \<Rightarrow> unix_args \<Rightarrow> nat sv_m" where
  "create_unix_server E a =
     py_seq (py_check (\<lambda>_. unix_server_checks a))
       (py_bind (unix_server_socket E a) (\<lambda>i.
         py_seq (if ua_cleanup_socket a then note_inode i else py_ret ())
           (py_seq (k_setblocking i)
             (serve [i] (ua_ssl a \<noteq> NoSsl) (ua_backlog a) (ua_start_serving a)))))"

end
