(* ===== verification/Connection_Ownership.thy ===== *)
theory Connection_Ownership
  imports Connections
begin

text \<open>
  Which sockets are open, and who owns them. The locales \<open>sock_frame\<close> and \<open>sock_account\<close> are the
  contracts of an invariant over the table of sockets, with the rules of the system calls proved once
  for every such invariant; servers and datagram endpoints interpret them too. Here the invariant \<open>same_socks\<close> fixes the open sockets and
  the transports; the triples below follow them through the attempts, the loop over the addresses
  and the making of a transport, whatever the system answers.
\<close>

section \<open>Ownership of sockets\<close>

definition opens :: "'x net_world_scheme \<Rightarrow> bool list" where
  "opens w = map ns_open (socks w)"

abbreviation same_socks :: "bool list \<Rightarrow> net_transport list \<Rightarrow> 'x net_world_scheme \<Rightarrow> bool" where
  "same_socks os cs w \<equiv> opens w = os \<and> conns w = cs"

lemma opens_nw [simp]: "opens (w\<lparr>nw := v\<rparr>) = opens w" "opens (w\<lparr>nw_errors := es\<rparr>) = opens w"
  "opens (w\<lparr>socket_answers := as\<rparr>) = opens w" "opens (w\<lparr>conns := cs\<rparr>) = opens w"
  "opens (w\<lparr>active_conns := ac\<rparr>) = opens w"
  by (simp_all add: opens_def)

text \<open>What \<open>close\<close> will answer on each socket.\<close>

definition closes :: "'x net_world_scheme \<Rightarrow> pyexc option list" where
  "closes w = map (\<lambda>s. sp_close (ns_plan s)) (socks w)"

lemma closes_other [simp]: "closes (w\<lparr>nw := v\<rparr>) = closes w" "closes (w\<lparr>socket_answers := sa\<rparr>) = closes w"
  by (simp_all add: closes_def)

lemma map_touch: "g s = g (xs ! i) \<Longrightarrow> map g (xs[i := s]) = map g xs"
  by (metis list_update_id map_update)

section \<open>Invariants of the table of sockets\<close>

text \<open>
  The contract of an invariant that does not look at the loop below and sees of a socket only whether
  it is open and how it closes: the calls of the system on an open socket keep it.
\<close>

locale sock_frame =
  fixes J :: "'x net_world_scheme \<Rightarrow> bool"
  assumes frame_nw: "J w \<Longrightarrow> J (w\<lparr>nw := v\<rparr>)"
    and frame_socks: "J w \<Longrightarrow> opens (w\<lparr>socks := ss\<rparr>) = opens w \<Longrightarrow> closes (w\<lparr>socks := ss\<rparr>) = closes w \<Longrightarrow> J (w\<lparr>socks := ss\<rparr>)"
begin

lemma keep_on_nw: "py_inv J (on_nw m)"
  by (auto simp: py_inv_def wp_state on_nw_def frame_nw split: prod.split)

lemma keep_upd_sock:
  assumes "\<And>s. ns_open (f s) = ns_open s" and "\<And>s. sp_close (ns_plan (f s)) = sp_close (ns_plan s)"
  shows "py_inv J (upd_sock i f)"
  unfolding upd_sock_def
  by (rule py_inv_mod, erule frame_socks) (simp_all add: opens_def closes_def map_touch assms)

lemma keep_k_setblocking: "py_inv J (k_setblocking i)"
  unfolding k_setblocking_def by (rule keep_upd_sock) simp_all

lemma keep_k_bind: "py_inv J (k_bind i addr)"
  unfolding k_bind_def by (intro py_inv_rules keep_upd_sock; auto intro!: py_inv_rules keep_upd_sock split: option.split)

lemma keep_k_setsockopt: "py_inv J (k_setsockopt i)"
  unfolding k_setsockopt_def by (intro py_inv_rules keep_upd_sock; auto intro!: py_inv_rules split: option.split)

lemma keep_await_connect: "py_inv J (await_connect E i addr)"
  unfolding await_connect_def
  by (intro py_inv_rules keep_on_nw keep_upd_sock py_inv_mod frame_nw; simp)

lemma keep_ensure_resolved: "py_inv J (ensure_resolved E t fam ty prot flgs)"
  unfolding ensure_resolved_def by (intro py_inv_rules keep_on_nw)

lemmas keep_calls = keep_on_nw keep_k_setblocking keep_k_bind keep_k_setsockopt keep_await_connect keep_ensure_resolved

end

text \<open>The contract of an account of the open sockets: \<open>I os\<close> says which sockets are open and nothing
  else about them. It gives the contract above for every \<open>os\<close>, and the rules of \<open>socket\<close> and
  \<open>close\<close>.\<close>

locale sock_account =
  fixes I :: "bool list \<Rightarrow> 'x net_world_scheme \<Rightarrow> bool"
  assumes account_opens: "I os w \<Longrightarrow> opens w = os"
    and account_nw: "I os w \<Longrightarrow> I os (w\<lparr>nw := v\<rparr>)"
    and account_answers: "I os w \<Longrightarrow> I os (w\<lparr>socket_answers := sa\<rparr>)"
    and account_socks: "I os w \<Longrightarrow> I (map ns_open ss) (w\<lparr>socks := ss\<rparr>)"

sublocale sock_account \<subseteq> sock_frame "I os" for os
proof
  fix w v ss
  assume w: "I os w"
  then show "I os (w\<lparr>nw := v\<rparr>)" by (rule account_nw)
  assume "opens (w\<lparr>socks := ss\<rparr>) = opens w"
  with account_opens [OF w] have "map ns_open ss = os" by (simp add: opens_def)
  with account_socks [OF w, of ss] show "I os (w\<lparr>socks := ss\<rparr>)" by simp
qed

context sock_account
begin

lemma account_length: "I os w \<Longrightarrow> length (socks w) = length os"
  using account_opens [of os w] by (auto simp: opens_def)

lemma wp_socket:
  assumes "I os w" and "\<And>e w'. I os w' \<Longrightarrow> X e w'" and "\<And>w'. I (os @ [True]) w' \<Longrightarrow> Q (length os) w'"
  shows "wp (k_socket fam ty prot) Q X w"
proof -
  have "I (os @ [True]) (w\<lparr>socket_answers := rest, socks := socks w @ [new_sock fam ty prot fd p]\<rparr>)" for rest fd p
    using account_socks [OF account_answers [OF assms(1)], of "socks w @ [new_sock fam ty prot fd p]" rest] account_opens [OF assms(1)]
    by (simp add: opens_def new_sock_def)
  with assms account_length [OF assms(1)] account_answers [OF assms(1)] show ?thesis
    by (auto simp: k_socket_def wp_rules split: list.split sum.split)
qed

lemma wp_close:
  assumes "I (os @ [b]) w"
  shows "wp (k_close (length os)) (\<lambda>_. I (os @ [False])) (\<lambda>_. I (os @ [False])) w"
proof -
  let ?s = "(socks w ! length os)\<lparr>ns_open := False\<rparr>"
  have "map ns_open ((socks w)[length os := ?s]) = os @ [False]"
    using account_opens [OF assms] by (simp add: opens_def map_update)
  with account_socks [OF assms, of "(socks w)[length os := ?s]"]
  have "I (os @ [False]) (w\<lparr>socks := (socks w)[length os := ?s]\<rparr>)" by simp
  then show ?thesis by (auto simp: k_close_def upd_sock_def wp_rules split: option.split)
qed

end

interpretation sc: sock_account "\<lambda>os w. same_socks os cs w" for cs
  by unfold_locales (auto simp: opens_def)

lemmas socks_calls [py_inv_rules] = sc.keep_calls

lemma socks_my_append [py_inv_rules]: "py_inv (same_socks os cs) (my_append m e)"
  unfolding my_append_def by (rule py_inv_mod) simp

lemma socks_bind_local [py_inv_rules]: "py_inv (same_socks os cs) (bind_local E m i fam ls)"
  by (induction ls) (auto intro!: py_inv_rules py_inv_mod)

lemma socks_bind_and_connect [py_inv_rules]: "py_inv (same_socks os cs) (bind_and_connect E m i ai locals)"
  unfolding bind_and_connect_def by (intro py_inv_rules)

lemma wp_close_quietly:
  assumes "opens w = os @ [b]" and "conns w = cs"
  shows "wp (close_quietly (length os)) (\<lambda>_. same_socks (os @ [False]) cs) (\<lambda>_. same_socks (os @ [False]) cs) w"
  unfolding close_quietly_def wp_rules using sc.wp_close [OF conjI [OF assms]] by (rule wp_mono) (auto simp: wp_rules)

lemma wp_record_oserror:
  assumes "same_socks os cs w" and "\<And>w'. same_socks os cs w' \<Longrightarrow> X e w'"
  shows "wp (record_oserror m e) Q X w"
  using assms by (auto simp: record_oserror_def my_append_def wp_rules)

lemma wp_close_and_raise:
  assumes "same_socks (os @ [b]) cs w" and "\<And>e w'. same_socks (os @ [False]) cs w' \<Longrightarrow> X e w'"
  shows "wp (close_quietly (length os)) (\<lambda>_. wp (py_raise e) Q X) X w"
  unfolding wp_raise
  using wp_close_quietly [OF conjunct1 [OF assms(1)] conjunct2 [OF assms(1)]] by (rule wp_mono) (auto intro: assms(2))

text \<open>An attempt leaves one open socket, or raises and leaves none.\<close>

definition only_closed :: "bool list \<Rightarrow> net_transport list \<Rightarrow> 'x net_world_scheme \<Rightarrow> bool" where
  "only_closed os cs w \<longleftrightarrow> (\<exists>k. same_socks (os @ replicate k False) cs w)"

lemma only_closed_snoc: "same_socks ((os @ replicate k False) @ [False]) cs w \<Longrightarrow> only_closed os cs w"
  by (auto simp: only_closed_def replicate_append_same [symmetric] intro: exI [of _ "Suc k"])

lemma wp_connect_sock:
  assumes "only_closed os cs w"
  shows "wp (connect_sock E ai locals)
     (\<lambda>i w'. \<exists>k. i = length os + k \<and> same_socks (os @ replicate k False @ [True]) cs w')
     (\<lambda>e. only_closed os cs) w"
proof -
  from assms obtain k where k: "opens w = os @ replicate k False" "conns w = cs" by (auto simp: only_closed_def)
  let ?os = "os @ replicate k False"
  have "wp (py_try (py_try (py_seq (bind_and_connect E m (length ?os) ai locals) (py_ret (length ?os))) (record_oserror m))
        (\<lambda>e. py_seq (close_quietly (length ?os)) (py_raise e)))
      (\<lambda>i w'. \<exists>k. i = length os + k \<and> same_socks (os @ replicate k False @ [True]) cs w') (\<lambda>e. only_closed os cs) v"
    if "same_socks (?os @ [True]) cs v" for m v
    unfolding wp_try wp_seq wp_ret
  proof (rule py_inv_wp [OF socks_bind_and_connect that], goal_cases)
    case (1 x w')
    then show ?case by (intro exI [of _ k]) simp
  next
    case (2 e w')
    then show ?case
      by (rule wp_record_oserror) (erule wp_close_and_raise, rule only_closed_snoc)
  qed
  note body = this
  have fail: "wp (record_oserror m e) Q (\<lambda>e. only_closed os cs) v" if "same_socks ?os cs v" for m e Q v
    using that by (rule wp_record_oserror) (auto simp: only_closed_def)
  show ?thesis unfolding connect_sock_def wp_with wp_seq wp_mod wp_try_else
    by (rule sc.wp_socket [where os = ?os and cs = cs]) (simp add: k, erule fail, erule body)
qed

lemma wp_connect_loop:
  assumes "only_closed os cs w"
  shows "wp (connect_loop E locals infos)
     (\<lambda>r w'. case r of None \<Rightarrow> only_closed os cs w'
        | Some i \<Rightarrow> \<exists>k. i = length os + k \<and> same_socks (os @ replicate k False @ [True]) cs w')
     (\<lambda>e. only_closed os cs) w"
  using assms
proof (induction infos arbitrary: w)
  case (Cons ai infos)
  show ?case unfolding connect_loop.simps wp_rules
    using wp_connect_sock [OF Cons.prems] by (rule wp_mono) (auto simp: wp_rules Cons.IH)
qed (simp add: wp_rules)

lemma socks_resolve_nonempty [py_inv_rules]: "py_inv (same_socks os cs) (resolve_nonempty E t a)"
  unfolding resolve_nonempty_def by (intro py_inv_rules)

lemma only_closed_refl: "same_socks os cs w \<Longrightarrow> only_closed os cs w"
  by (simp add: only_closed_def exI [of _ 0])

lemma wp_resolve_and_connect:
  assumes "same_socks os cs w" and "ca_delay a = None"
  shows "wp (resolve_and_connect E race a)
     (\<lambda>i w'. \<exists>k. i = length os + k \<and> same_socks (os @ replicate k False @ [True]) cs w')
     (\<lambda>e. only_closed os cs) w"
  unfolding resolve_and_connect_def Let_def wp_bind
proof (rule py_inv_wp [OF socks_resolve_nonempty assms(1)], goal_cases)
  case (1 infos w1)
  have "py_inv (same_socks os cs) (case ca_local a of None \<Rightarrow> py_ret None
      | Some l \<Rightarrow> py_bind (resolve_nonempty E l a) (\<lambda>ls. py_ret (Some ls)))"
    by (intro py_inv_rules)
  from this 1 show ?case
  proof (rule py_inv_wp, goal_cases)
    case (1 locals w2)
    then have "only_closed os cs (w2\<lparr>nw_errors := []\<rparr>)" by (intro only_closed_refl) simp
    with assms(2) show ?case
      by (auto simp: wp_rules intro!: wp_mono [OF wp_connect_loop] split: option.splits)
  qed (rule only_closed_refl)
qed (rule only_closed_refl)

text \<open>The transport made last owns the socket.\<close>

definition owns :: "bool list \<Rightarrow> net_transport list \<Rightarrow> nat \<Rightarrow> 'x net_world_scheme \<Rightarrow> bool" where
  "owns os cs i w \<longleftrightarrow> opens w = os \<and> (\<exists>c. conns w = cs @ [c] \<and> nt_sock c = i)"

text \<open>The ways in which no transport is made: the factory raises, the TLS protocol refuses, or the
  descriptor belongs to a live transport.\<close>

definition taken :: "nat \<Rightarrow> 'x net_world_scheme \<Rightarrow> bool" where
  "taken i w \<longleftrightarrow> (\<exists>t. map_of (transports (nw w)) (so_fd (ns_obj (socks w ! i))) = Some t \<and> \<not> tr_closing (nw w) t)"

definition refused :: "net_env \<Rightarrow> bool \<Rightarrow> bool \<Rightarrow> bool \<Rightarrow> pyexc \<Rightarrow> bool" where
  "refused E tls server_side tk e \<longleftrightarrow> (tls \<and> tls_reject E server_side = Some e) \<or>
     (tk \<and> e = RuntimeError ''File descriptor is used by transport'')"

definition unmade :: "net_env \<Rightarrow> pyexc + app_protocol \<Rightarrow> ssl_arg \<Rightarrow> bool \<Rightarrow> pyexc \<Rightarrow> bool" where
  "unmade E F ssl server_side e \<longleftrightarrow> F = Inl e \<or> refused E (ssl_on ssl) server_side True e"

lemma owns_on_conn: "py_inv (owns os cs i) (on_conn (length cs) m)"
  by (auto simp: py_inv_def wp_state on_conn_def owns_def split: prod.split)

lemma owns_await_or_close: "py_inv (owns os cs i) (await_or_close E (length cs))"
  unfolding await_or_close_def await_waiter_of_def close_transport_def
  by (intro py_inv_rules owns_on_conn)
    (auto simp: py_inv_rules intro!: py_inv_rules owns_on_conn split: fate.split)

lemma wp_new_transport:
  assumes "same_socks os cs w"
  shows "wp (new_transport tls p waiter srv i) (\<lambda>t w'. t = length cs \<and> owns os cs i w') (\<lambda>e. owns os cs i) w"
proof -
  have c: "conns w = cs" "opens w = os" using assms by simp_all
  show ?thesis unfolding new_transport_def wp_with prod.case wp_seq wp_mod Let_def c
    by (rule py_inv_wp [OF owns_on_conn]) (simp_all add: owns_def c wp_ret)
qed

lemma wp_ensure_sock_no_transport:
  assumes "same_socks os cs w"
  shows "wp (ensure_sock_no_transport i) (\<lambda>_. same_socks os cs)
    (\<lambda>e w'. same_socks os cs w' \<and> taken i w \<and> e = RuntimeError ''File descriptor is used by transport'') w"
  using assms
  by (auto simp: taken_def ensure_sock_no_transport_def ensure_fd_no_transport_def on_nw_def wp_def py_run_defs split: option.split)

lemma wp_no_raise:
  assumes "py_inv I m" and "I w" and "\<exists>x. fst (m w) = Inr x"
  shows "wp m (\<lambda>_. I) X w"
  using assms py_invD [OF assms(1,2)] by (auto simp: wp_def split: prod.split)

lemma wp_make_transport:
  assumes "same_socks os cs w"
  shows "wp (if tls then make_ssl_transport E p server_side srv i else make_socket_transport p waiter srv i)
    (\<lambda>t w'. t = length cs \<and> owns os cs i w')
    (\<lambda>e w'. owns os cs i w' \<or> same_socks os cs w' \<and> refused E tls server_side (taken i w) e) w"
  unfolding make_ssl_transport_def make_socket_transport_def
  by (auto simp: wp_rules refused_def split: option.split
      intro!: wp_mono [OF wp_ensure_sock_no_transport [OF assms]] wp_mono [OF wp_new_transport])

lemma wp_create_connection_transport:
  assumes "same_socks os cs w"
  shows "wp (create_connection_transport E F ssl server_side i) (\<lambda>t w'. t = length cs \<and> owns os cs i w')
    (\<lambda>e w'. owns os cs i w' \<or> same_socks os cs w' \<and> unmade E F ssl server_side e) w"
proof -
  let ?X = "\<lambda>e w'. owns os cs i w' \<or> same_socks os cs w' \<and> unmade E F ssl server_side e"
  have finish: "wp (py_seq (await_or_close E (length cs)) (py_ret (length cs))) (\<lambda>t w'. t = length cs \<and> owns os cs i w') ?X v"
    if "owns os cs i v" for v
    unfolding wp_rules by (rule py_inv_wp [OF owns_await_or_close that]) auto
  have "wp (k_setblocking i) (\<lambda>_. same_socks os cs) ?X w"
    by (rule wp_no_raise [OF sc.keep_k_setblocking assms]) (simp add: k_setblocking_def upd_sock_def py_mod_def)
  then show ?thesis
    unfolding create_connection_transport_def wp_seq [of "k_setblocking i"]
  proof (rule wp_mono, goal_cases)
    case (1 u v)
    show ?case
    proof (cases F)
      case (Inl e)
      with 1 show ?thesis by (simp add: wp_rules unmade_def)
    next
      case (Inr p)
      have rest: "wp (py_bind (if ssl_on ssl then make_ssl_transport E p server_side None i else make_socket_transport p waiter None i)
          (\<lambda>t. py_seq (await_or_close E t) (py_ret t))) (\<lambda>t w'. t = length cs \<and> owns os cs i w') ?X v'"
        if "same_socks os cs v'" for waiter v'
        unfolding wp_bind by (rule wp_mono [OF wp_make_transport [OF that]]) (use finish in \<open>auto simp: unmade_def refused_def\<close>)
      have "wp (on_nw create_future) (\<lambda>waiter. same_socks os cs) ?X v"
        by (rule wp_no_raise [OF sc.keep_on_nw 1]) (simp add: on_nw_def create_future_def py_run_defs py_mod_def)
      then show ?thesis unfolding Inr wp_bind [of "py_check _"] wp_check sum.case wp_bind [of "on_nw _"]
        by (rule wp_mono) (erule rest [unfolded Inr], simp add: Inr)
    qed
  qed
qed

text \<open>What a call left behind: no open socket and no transport; or one open socket, owned by the one
  transport it made; or an open socket that nobody owns, when no transport could be made.\<close>

definition accounted ::
  "net_env \<Rightarrow> pyexc + app_protocol \<Rightarrow> ssl_arg \<Rightarrow> 'x net_world_scheme \<Rightarrow> pyexc + nat \<Rightarrow> 'x net_world_scheme \<Rightarrow> bool" where
  "accounted E F ssl w r w' \<longleftrightarrow>
     (\<exists>k. opens w' = opens w @ replicate k False \<and> conns w' = conns w \<and> (\<exists>e. r = Inl e) \<or>
          opens w' = opens w @ replicate k False @ [True] \<and>
            (\<exists>c. conns w' = conns w @ [c] \<and> nt_sock c = length (opens w) + k \<and> (\<forall>t. r = Inr t \<longrightarrow> t = length (conns w))) \<or>
          opens w' = opens w @ replicate k False @ [True] \<and> conns w' = conns w \<and> (\<exists>e. r = Inl e \<and> unmade E F ssl False e))"

lemma accountedI:
  assumes "wp m (\<lambda>i w'. \<exists>k. i = length (opens w) + k \<and> same_socks (opens w @ replicate k False @ [True]) (conns w) w')
      (\<lambda>e. only_closed (opens w) (conns w)) w"
    and "py_bind m (create_connection_transport E F ssl False) w = (r, w')"
  shows "accounted E F ssl w r w'"
proof -
  obtain x w1 where m: "m w = (x, w1)" by fastforce
  show ?thesis
  proof (cases x)
    case (Inl e)
    with assms m show ?thesis by (auto simp: wp_def py_bind_def only_closed_def accounted_def)
  next
    case (Inr i)
    with assms(1) m obtain k where k: "i = length (opens w) + k" "same_socks (opens w @ replicate k False @ [True]) (conns w) w1"
      by (auto simp: wp_def)
    from assms(2) m Inr have "create_connection_transport E F ssl False i w1 = (r, w')" by (simp add: py_bind_def)
    with wp_create_connection_transport [OF k(2), of E F ssl False i] k(1) show ?thesis
      by (cases r) (fastforce simp: wp_def owns_def accounted_def)+
  qed
qed

lemma wp_unix_socket:
  "wp (py_bind (k_socket 1 1 0) (\<lambda>i. py_seq (py_try (py_seq (k_setblocking i) (await_connect E i p)) (\<lambda>e. py_seq (k_close i) (py_raise e))) (py_ret i)))
     (\<lambda>i w'. \<exists>k. i = length (opens w) + k \<and> same_socks (opens w @ replicate k False @ [True]) (conns w) w')
     (\<lambda>e. only_closed (opens w) (conns w)) w"
proof -
  let ?os = "opens w"
  let ?Q = "\<lambda>i w'. \<exists>k. i = length ?os + k \<and> same_socks (?os @ replicate k False @ [True]) (conns w) w'"
  have body: "wp (py_seq (py_try (py_seq (k_setblocking (length ?os)) (await_connect E (length ?os) p)) (\<lambda>e. py_seq (k_close (length ?os)) (py_raise e)))
      (py_ret (length ?os))) ?Q (\<lambda>e. only_closed ?os (conns w)) v"
    if "same_socks (?os @ [True]) (conns w) v" for v
    unfolding wp_seq [of _ "py_ret _"] wp_try wp_ret_fun wp_seq [of _ "py_raise _"] wp_raise_fun
  proof (rule py_inv_wp [where I = "same_socks (?os @ [True]) (conns w)"], goal_cases)
    case 1
    show ?case by (intro py_inv_rules)
  next
    case 2
    show ?case by (fact that)
  next
    case (3 x w')
    then show ?case by (intro exI [of _ 0]) simp
  next
    case (4 e w')
    then show ?case
      by (intro wp_mono [OF sc.wp_close [where os = ?os and b = True and cs = "conns w"]]) (auto intro: only_closed_snoc [where k = 0])
  qed
  show ?thesis unfolding wp_bind
    by (rule sc.wp_socket [where os = ?os and cs = "conns w"]) (simp, erule only_closed_refl, erule body)
qed

end
