(* ===== verification/Server_Properties.thy ===== *)
theory Server_Properties
  imports Servers Connection_Ownership
begin

text \<open>
  The properties of servers: which connections one readiness event accepts, what happens when the
  system is out of resources, and that an incoming connection's failure stays with its task.
\<close>

section \<open>Accepting\<close>

text \<open>The connections among the answers of \<open>accept\<close>, as sockets and as tasks.\<close>

type_synonym accept_answer = "pyexc + int \<times> pyaddr \<times> sock_plan"

primrec accepted :: "accept_answer list \<Rightarrow> (int \<times> pyaddr \<times> sock_plan) list" where
  "accepted [] = []"
| "accepted (a # as) = (case a of Inl e \<Rightarrow> accepted as | Inr x \<Rightarrow> x # accepted as)"

fun accepted_sock :: "int \<Rightarrow> int \<times> pyaddr \<times> sock_plan \<Rightarrow> net_sock" where
  "accepted_sock fam (fd, peer, p) =
     (let s = new_sock fam 1 0 fd p in s\<lparr>ns_obj := (ns_obj s)\<lparr>so_nonblocking := True\<rparr>, ns_peer := Some peer\<rparr>)"

fun accept_task :: "nat \<Rightarrow> nat \<times> int \<times> pyaddr \<times> sock_plan \<Rightarrow> nat \<times> pyaddr \<times> nat" where
  "accept_task srv (c, fd, peer, p) = (c, peer, srv)"

definition after_accepts :: "nat \<Rightarrow> nat \<Rightarrow> accept_answer list \<Rightarrow> accept_answer list \<Rightarrow> server_world \<Rightarrow> server_world" where
  "after_accepts srv i answers rest w =
     w\<lparr>accept_script := (accept_script w)(i := rest),
       socks := socks w @ map (accepted_sock (ns_family (socks w ! i))) (accepted answers),
       accept_tasks := accept_tasks w @ map (accept_task srv) (enumerate (length (socks w)) (accepted answers))\<rparr>"

text \<open>A connection, or one that was given up before it was accepted.\<close>

definition pending_answer :: "accept_answer \<Rightarrow> bool" where
  "pending_answer a \<longleftrightarrow> (case a of Inl e \<Rightarrow> e = ConnectionAbortedError | Inr x \<Rightarrow> True)"

lemma accept_rounds_run:
  assumes "i < length (socks w)" and "accept_script w i = answers @ rest" and "list_all pending_answer answers"
  shows "accept_rounds (length answers + n) hook srv i w = accept_rounds n hook srv i (after_accepts srv i answers rest w)"
  using assms
proof (induction answers arbitrary: w)
  case Nil
  then show ?case by (simp add: after_accepts_def fun_upd_idem)
next
  case (Cons a answers)
  let ?fam = "ns_family (socks w ! i)"
  show ?case
  proof (cases a)
    case (Inl e)
    let ?w = "w\<lparr>accept_script := (accept_script w)(i := answers @ rest)\<rparr>"
    have "accept_rounds (length (a # answers) + n) hook srv i w = accept_rounds (length answers + n) hook srv i ?w"
      using Cons.prems Inl
      by (simp add: pending_answer_def k_accept_on_def py_try_else_def py_run_defs py_mod_def)
    also have "\<dots> = accept_rounds n hook srv i (after_accepts srv i answers rest ?w)"
      using Cons.prems by (intro Cons.IH) simp_all
    finally show ?thesis using Inl by (simp add: after_accepts_def)
  next
    case (Inr x)
    obtain fd peer p where x: "x = (fd, peer, p)" by (cases x)
    let ?w = "w\<lparr>accept_script := (accept_script w)(i := answers @ rest), socks := socks w @ [accepted_sock ?fam x],
      accept_tasks := accept_tasks w @ [(length (socks w), peer, srv)]\<rparr>"
    have "accept_rounds (length (a # answers) + n) hook srv i w = accept_rounds (length answers + n) hook srv i ?w"
      using Cons.prems Inr x
      by (simp add: k_accept_on_def k_setblocking_def upd_sock_def py_try_else_def py_run_defs py_mod_def new_sock_def Let_def)
    also have "\<dots> = accept_rounds n hook srv i (after_accepts srv i answers rest ?w)"
      using Cons.prems by (intro Cons.IH) simp_all
    finally show ?thesis using Inr x Cons.prems(1)
      by (simp add: after_accepts_def nth_append)
  qed
qed

lemma accept_rounds_blocked:
  assumes "rest = [] \<or> (\<exists>e rest'. rest = Inl e # rest' \<and> is_blocking e)" and "accept_script w i = rest"
  shows "accept_rounds n hook srv i w = (Inr (), if n = 0 then w else w\<lparr>accept_script := (accept_script w)(i := tl rest)\<rparr>)"
proof (cases n)
  case (Suc m)
  have "e \<noteq> ConnectionAbortedError" if "is_blocking e" for e using that by auto
  with Suc assms show ?thesis
    by (auto simp: k_accept_on_def py_try_else_def py_run_defs py_mod_def fun_upd_idem)
qed (simp add: py_ret_def)

definition idle_plan :: sock_plan where
  "idle_plan = \<lparr>sp_bind = [], sp_opts = [], sp_listen = None, sp_connect = [], sp_soerr = [], sp_wait = 0, sp_close = None,
     sp_fate = Settles\<rparr>"

definition no_hook :: handler_call where
  "no_hook ctx cb args v = (Inr (), v)"

definition sample_server_world :: "nat \<Rightarrow> accept_answer list \<Rightarrow> server_world" where
  "sample_server_world backlog answers =
     net_world.extend
       \<lparr>nw = sample_world [] [] [] [] [], socks = [new_sock 2 1 0 5 idle_plan], socket_answers = [], conns = [], nw_errors = [], active_conns = (\<lambda>_. 0)\<rparr>
       \<lparr>accept_script = (\<lambda>_. answers), binding = [],
        servers = [\<lparr>sv_socks = [0], sv_backlog = backlog, sv_ssl = False, sv_serving = True\<rparr>],
        accept_tasks = [], stat_script = [], remove_script = []\<rparr>"

lemmas sample_server_defs = sample_server_world_def net_world.defs new_sock_def



section \<open>Out of resources\<close>

text \<open>A loop that can take a timer, and reports errors itself.\<close>

definition can_retry :: "server_world \<Rightarrow> nat \<Rightarrow> bool" where
  "can_retry w i \<longleftrightarrow> \<not> loop_closed (nw w) \<and> \<not> debug (nw w) \<and> exc_handler (nw w) = None \<and> i32_range (sock_fileno i w)"

abbreviation timer_callbacks :: "server_world \<Rightarrow> scb list" where
  "timer_callbacks w \<equiv> map (\<lambda>t. re_callback (te_entry t)) (timers (nw w))"

lemma out_of_resources_kind:
  "out_of_resources e \<Longrightarrow> \<not> is_blocking e \<and> e \<noteq> ConnectionAbortedError"
  by (cases e) (auto simp: out_of_resources_def)

lemma detach_watcher_simps:
  "timers (snd (detach_watcher fd d v)) = timers v" "loop_closed (snd (detach_watcher fd d v)) = loop_closed v"
  "debug (snd (detach_watcher fd d v)) = debug v" "exc_handler (snd (detach_watcher fd d v)) = exc_handler v"
  "exc_reports (snd (detach_watcher fd d v)) = exc_reports v" "\<exists>b. fst (detach_watcher fd d v) = Inr b"
  by (auto simp: detach_watcher_def detach_slot_def Let_def split: option.split)

lemma accept_round_out_of_resources:
  assumes "can_retry w i" and "accept_script w i = Inl e # rest" and "is_oserror e" and "out_of_resources e"
  shows "\<exists>w'. accept_rounds (Suc n) hook srv i w = accept_rounds n hook srv i w' \<and> can_retry w' i \<and> accept_script w' i = rest \<and>
    timer_callbacks w' = timer_callbacks w @ [retry_cb i] \<and> length (exc_reports (nw w')) = Suc (length (exc_reports (nw w))) \<and>
    watcher (nw w') (sock_fileno i w) True = None \<and> socks w' = socks w \<and> accept_tasks w' = accept_tasks w"
proof -
  let ?fd = "sock_fileno i w"
  let ?msg = "''socket.accept() out of system resource''"
  let ?v1 = "(nw w)\<lparr>exc_reports := exc_reports (nw w) @ [(?msg, Some e)]\<rparr>"
  obtain b v2 where b: "detach_watcher ?fd True ?v1 = (Inr b, v2)"
    using detach_watcher_simps(6) [of ?fd True ?v1] by (metis prod.collapse)
  note same = detach_watcher_simps [of ?fd True ?v1, unfolded b snd_conv]
  have ok: "\<not> loop_closed v2" "\<not> debug v2" "exc_handler v2 = None" "timers v2 = timers (nw w)"
    "exc_reports v2 = exc_reports ?v1"
    using assms(1) by (simp_all add: can_retry_def same)
  obtain v3 h where v3: "call_later (Some (Fin 1)) (retry_cb i) [] None v2 = (Inr h, v3)"
    "timers v3 = timers v2 @ [\<lparr>te_when = f64_add (now v2) (Fin 1), te_seq = seq v2,
        te_entry = \<lparr>re_callback = retry_cb i, re_args = [], re_context = None, re_cancelled = next_flag v2\<rparr>\<rparr>]"
    "exc_reports v3 = exc_reports v2" "fds v3 = fds v2" "loop_closed v3 = loop_closed v2" "debug v3 = debug v2"
    "exc_handler v3 = exc_handler v2"
    using ok by (simp add: call_later_def call_at_impl_def new_flag_def push_timer_def heap_push_def py_run_defs py_mod_def
        check_closed_state_def)
  let ?w1 = "w\<lparr>accept_script := (accept_script w)(i := rest)\<rparr>"
  let ?w' = "?w1\<lparr>nw := v3\<rparr>"
  have "accept_rounds (Suc n) hook srv i w = accept_rounds n hook srv i ?w'"
    using assms b v3(1) out_of_resources_kind [OF assms(4)]
    by (simp add: k_accept_on_def report_error_def dispatch_exception_handler_def on_nw_def remove_reader_def can_retry_def
        sock_fileno_def py_try_else_def py_run_defs py_mod_def)
  moreover have "watcher v3 ?fd True = None"
    using detach_watcher_gone [of ?fd True ?v1] b v3(4) by (simp add: watcher_def)
  moreover have "can_retry ?w' i" using assms(1) ok v3 by (simp add: can_retry_def sock_fileno_def)
  ultimately show ?thesis using v3 ok by (intro exI [of _ ?w']) simp
qed

lemma accept_rounds_out_of_resources:
  assumes "can_retry w i" and "accept_script w i = replicate k (Inl e) @ rest" and "is_oserror e" and "out_of_resources e"
    and "0 < k"
  shows "\<exists>w'. accept_rounds k hook srv i w = (Inr (), w') \<and> accept_script w' i = rest \<and>
    timer_callbacks w' = timer_callbacks w @ replicate k (retry_cb i) \<and>
    length (exc_reports (nw w')) = length (exc_reports (nw w)) + k \<and> watcher (nw w') (sock_fileno i w) True = None \<and>
    socks w' = socks w \<and> accept_tasks w' = accept_tasks w"
  using assms(1,2,5)
proof (induction k arbitrary: w)
  case (Suc k)
  from accept_round_out_of_resources [of w i e "replicate k (Inl e) @ rest" k hook srv] Suc.prems assms(3,4) obtain w1 where w1:
    "accept_rounds (Suc k) hook srv i w = accept_rounds k hook srv i w1" "can_retry w1 i"
    "accept_script w1 i = replicate k (Inl e) @ rest" "timer_callbacks w1 = timer_callbacks w @ [retry_cb i]"
    "length (exc_reports (nw w1)) = Suc (length (exc_reports (nw w)))" "watcher (nw w1) (sock_fileno i w) True = None"
    "socks w1 = socks w" "accept_tasks w1 = accept_tasks w" by auto
  show ?case
  proof (cases k)
    case 0
    with w1 show ?thesis by (intro exI [of _ w1]) (simp add: py_ret_def)
  next
    case (Suc m)
    with Suc.IH [OF w1(2,3)] obtain w' where w': "accept_rounds k hook srv i w1 = (Inr (), w')" "accept_script w' i = rest"
      "timer_callbacks w' = timer_callbacks w1 @ replicate k (retry_cb i)"
      "length (exc_reports (nw w')) = length (exc_reports (nw w1)) + k" "watcher (nw w') (sock_fileno i w1) True = None"
      "socks w' = socks w1" "accept_tasks w' = accept_tasks w1" by auto
    have "sock_fileno i w1 = sock_fileno i w" using w1(7) by (simp add: sock_fileno_def)
    with w1 w' show ?thesis by (intro exI [of _ w']) (simp only: append.assoc, simp)
  qed
qed simp

text \<open>
  C28. When \<open>accept\<close> fails because the system is out of resources, the listening socket is taken out
  of the loop and a retry is scheduled, but the rounds go on: a system that stays out of resources
  gives, for one readiness event, \<open>backlog + 1\<close> reports to the exception handler and
  \<open>backlog + 1\<close> timers that will all restart the same listener.
\<close>

theorem accept_retries_once_per_round:
  assumes "can_retry w i" and "accept_script w i = replicate (sv_backlog (servers w ! srv) + 1) (Inl e) @ rest"
    and "is_oserror e" and "out_of_resources e"
  shows "\<exists>w'. accept_connection hook srv i w = (Inr (), w') \<and>
    timer_callbacks w' = timer_callbacks w @ replicate (sv_backlog (servers w ! srv) + 1) (retry_cb i) \<and>
    length (exc_reports (nw w')) = length (exc_reports (nw w)) + sv_backlog (servers w ! srv) + 1 \<and>
    watcher (nw w') (sock_fileno i w) True = None \<and> accept_tasks w' = accept_tasks w"
  using accept_rounds_out_of_resources [OF assms, of hook srv] by (auto simp: accept_connection_def py_with_def)

theorem accept_retries_once_per_round_witness:
  "\<exists>w'. accept_connection no_hook 0 0 (sample_server_world 2 (replicate 3 (Inl (OSError 24 ''Too many open files'')))) = (Inr (), w') \<and>
     timer_callbacks w' = replicate 3 (retry_cb 0)"
proof -
  let ?w = "sample_server_world 2 (replicate 3 (Inl (OSError 24 ''Too many open files'')))"
  have "can_retry ?w 0" "timer_callbacks ?w = []"
    by (simp_all add: can_retry_def sample_server_defs sock_fileno_def i32_range_def sample_world_def new_rust_loop_def
        tokioop_new_def loop_state.defs tokioop_loop.defs rust_loop.defs sock_world.defs)
  with accept_retries_once_per_round [of ?w 0 0 "OSError 24 ''Too many open files''" "[]" no_hook] show ?thesis
    by (auto simp: sample_server_defs out_of_resources_def numeral_3_eq_3)
qed

section \<open>Incoming connections\<close>

lemma owns_on_nw [py_inv_rules]: "py_inv (owns os cs i) (on_nw m)"
  by (auto simp: py_inv_def wp_state on_nw_def owns_def split: prod.split)

text \<open>Why no transport is made for an accepted connection.\<close>

definition not_served :: "net_env \<Rightarrow> pyexc + app_protocol \<Rightarrow> nat \<Rightarrow> nat \<Rightarrow> server_world \<Rightarrow> bool" where
  "not_served E F conn srv w \<longleftrightarrow> (\<exists>e. F = Inl e) \<or> (sv_ssl (servers w ! srv) \<and> tls_reject E True \<noteq> None) \<or> taken conn w"

lemma wp_accept_body:
  assumes "same_socks os cs w"
  shows "wp (accept_body E F conn srv) (\<lambda>_. owns os cs conn)
    (\<lambda>e w'. owns os cs conn w' \<or> same_socks os cs w' \<and> not_served E F conn srv w) w"
proof (cases F)
  case (Inl e)
  with assms show ?thesis by (simp add: accept_body_def wp_rules not_served_def)
next
  case (Inr p)
  let ?X = "\<lambda>e w'. owns os cs conn w' \<or> same_socks os cs w' \<and> not_served E F conn srv w"
  obtain f v where v: "on_nw create_future w = (Inr f, w\<lparr>nw := v\<rparr>)" "transports v = transports (nw w)" "tr_closing v = tr_closing (nw w)"
    by (simp add: on_nw_def create_future_def py_run_defs py_mod_def)
  have s: "same_socks os cs (w\<lparr>nw := v\<rparr>)" using assms by simp
  let ?tls = "sv_ssl (servers w ! srv)"
  have "refused E ?tls True (taken conn (w\<lparr>nw := v\<rparr>)) e \<Longrightarrow> not_served E F conn srv w" for e
    using v(2,3) by (auto simp: refused_def taken_def not_served_def)
  then have "wp (py_bind (if ?tls then make_ssl_transport E p True (Some srv) conn else make_socket_transport p f (Some srv) conn)
      (await_or_close E)) (\<lambda>_. owns os cs conn) ?X (w\<lparr>nw := v\<rparr>)"
    unfolding wp_bind
    by (intro wp_mono [OF wp_make_transport [OF s]]) (auto intro: py_inv_wp [OF owns_await_or_close])
  with Inr v(1) show ?thesis by (simp add: accept_body_def wp_def py_run_defs)
qed

text \<open>
  C24. Whatever goes wrong while the transport of an accepted connection is set up stays with that
  connection: its task ends normally unless the exception is \<open>SystemExit\<close> or
  \<open>KeyboardInterrupt\<close>, and no other socket and no other transport is touched. The socket belongs to
  the new transport afterwards, or no transport was made (the protocol factory raised, TLS was
  refused, the descriptor is taken), in which case the accepted socket stays open.
\<close>

theorem incoming_failure_contained:
  "(\<forall>e. fst (accept_connection2 E hook F conn srv w) = Inl e \<longrightarrow> is_exit e) \<and>
   (owns (opens w) (conns w) conn (snd (accept_connection2 E hook F conn srv w)) \<or>
    same_socks (opens w) (conns w) (snd (accept_connection2 E hook F conn srv w)) \<and> not_served E F conn srv w)"
proof -
  let ?I = "\<lambda>w'. owns (opens w) (conns w) conn w' \<or> same_socks (opens w) (conns w) w' \<and> not_served E F conn srv w"
  have report: "wp (report_error hook msg e) (\<lambda>_. ?I) (\<lambda>e w'. is_exit e \<and> ?I w') v" if "?I v" for msg e v
    using that by (auto simp: report_error_def on_nw_def wp_def py_mod_def owns_def)
  have "wp (accept_connection2 E hook F conn srv) (\<lambda>_. ?I) (\<lambda>e w'. is_exit e \<and> ?I w') w"
    unfolding accept_connection2_def wp_try
  proof (rule wp_mono [OF wp_accept_body [of w "opens w" "conns w"]], goal_cases)
    case (3 e w')
    then have I: "?I w'" by blast
    show ?case
    proof (cases "is_exit e")
      case True
      with I show ?thesis by (simp add: on_error_def wp_rules)
    next
      case False
      with I report [OF I] show ?thesis by (simp only: on_error_def wp_when if_False split: if_split) blast
    qed
  qed simp_all
  then show ?thesis by (auto simp: wp_def split: prod.splits sum.splits)
qed

text \<open>The protocol factory raises: the task ends normally and no transport is made.\<close>

theorem incoming_failure_contained_witness:
  "\<forall>E. fst (accept_connection2 E no_hook (Inl (AppException 1)) 0 0 (sample_server_world 1 [])) \<noteq> Inl (AppException 1) \<and>
     length (opens (snd (accept_connection2 E no_hook (Inl (AppException 1)) 0 0 (sample_server_world 1 [])))) = 1"
proof
  fix E
  let ?w = "sample_server_world 1 []"
  have "length (opens ?w) = 1" by (simp add: sample_server_defs opens_def)
  with incoming_failure_contained [of E no_hook "Inl (AppException 1)" 0 0 ?w]
  show "fst (accept_connection2 E no_hook (Inl (AppException 1)) 0 0 ?w) \<noteq> Inl (AppException 1) \<and>
     length (opens (snd (accept_connection2 E no_hook (Inl (AppException 1)) 0 0 ?w))) = 1"
    by (auto simp: owns_def)
qed

end
