(* ===== verification/Connection_Search.thy ===== *)
theory Connection_Search
  imports Connections
begin

text \<open>
  What connecting amounts to. The reference of an attempt is a function of the socket's plan alone,
  the reference of \<open>create_connection\<close>'s loop is the search for the first address that answers;
  \<open>connect_loop_run\<close> says that the loop, with all its awaits, is that search.
\<close>

section \<open>Awaiting sock_connect\<close>

text \<open>The reference: the answer of \<open>connect\<close>, or the values of \<open>SO_ERROR\<close> read until one is not
  transient; the caller gives up after \<open>k\<close> of them.\<close>

fun so_error_answer :: "pyexc + int \<Rightarrow> pyexc + unit" where
  "so_error_answer (Inl e) = Inl e"
| "so_error_answer (Inr n) = (if n = 0 then Inr () else Inl (os_error n ''Connect call failed''))"

fun so_error_wait :: "nat \<Rightarrow> (pyexc + int) list \<Rightarrow> pyexc + unit" where
  "so_error_wait 0 es = Inl CancelledError"
| "so_error_wait (Suc k) [] = Inr ()"
| "so_error_wait (Suc k) (x # xs) =
     (case so_error_answer x of
        Inl e \<Rightarrow> if is_blocking e then so_error_wait k xs else Inl e
      | Inr _ \<Rightarrow> Inr ())"

definition dial :: "sock_plan \<Rightarrow> pyexc + unit" where
  "dial p =
     (case sp_connect p of
        [] \<Rightarrow> so_error_wait (sp_wait p) (sp_soerr p)
      | None # _ \<Rightarrow> Inr ()
      | Some e # _ \<Rightarrow> if is_blocking e then so_error_wait (sp_wait p) (sp_soerr p) else Inl e)"

abbreviation forget :: "pyexc + 'a \<Rightarrow> pyexc + unit" where
  "forget r \<equiv> map_sum id (\<lambda>_. ()) r"

definition give_up :: "(pyexc + 'a) option \<Rightarrow> pyexc + unit" where
  "give_up r = (case r of None \<Rightarrow> Inl CancelledError | Some x \<Rightarrow> forget x)"

lemma connect_attempts_dial: "give_up (fst (attempts connect_attempt k w)) = so_error_wait k (so_errors w)"
proof (induction k arbitrary: w)
  case (Suc k)
  show ?case
  proof (cases "so_errors w")
    case Nil
    then show ?thesis
      by (simp add: connect_attempt_def k_so_error_def py_run_defs give_up_def)
  next
    case (Cons x xs)
    from Suc.IH [of "w\<lparr>so_errors := xs\<rparr>"] Cons show ?thesis
      by (cases x) (auto simp: connect_attempt_def k_so_error_def py_run_defs py_mod_def give_up_def)
  qed
qed (simp add: give_up_def)

lemma usable_update:
  assumes "usable w" and "set cs \<subseteq> set (connect_answers w)"
  shows "usable (w\<lparr>connect_answers := cs, futs := a, fut_callbacks := b, next_fut := c\<rparr>)"
proof -
  let ?w = "w\<lparr>connect_answers := cs, futs := a, fut_callbacks := b, next_fut := c\<rparr>"
  from assms(1) have w: "open_for w" "registry_inv w" by (simp_all add: usable_def open_for_def)
  have "registry_inv ?w" using w(2) by (rule registry_inv_mono [rotated -1]) simp_all
  with w(1) have "open_for ?w" by (rule open_for_mono) simp_all
  then show ?thesis using assms by (auto simp: usable_def no_exit_def view_def)
qed

lemma settled_usable: "settled d w \<Longrightarrow> no_exit (view w) \<Longrightarrow> usable w"
  by (simp add: settled_def usable_def)

lemma await_task_env:
  assumes "\<And>b. py_inv (same_env b) start"
  shows "loop_env (snd (await_task d start k w)) = loop_env w"
proof -
  have "loop_env (snd (start w)) = loop_env w" using assms by (rule py_invD) simp
  moreover have "loop_env (snd (fut_cancel f v)) = loop_env v" for f v
  proof (rule py_invD [of "same_env (loop_env v)"])
    show "py_inv (same_env b) (fut_cancel f)" for b
      unfolding fut_cancel_def fut_finish_def by (intro py_inv_rules py_inv_mod) simp
  qed simp
  ultimately show ?thesis
    by (auto simp: await_task_def Let_def split: prod.splits sum.splits coro.splits option.splits)
qed

lemma await_pending:
  assumes "waiting False f (ScConnectCb f addr) w2" and "no_exit (view w2)"
    and "start w = (Inr (Awaiting f), w2)"
  shows "\<exists>r w'. await_task False start k w = (r, w') \<and> forget r = so_error_wait k (so_errors w2) \<and>
    usable w' \<and> sk w' = sk w2"
proof -
  let ?w3 = "turns False f k w2" and ?A = "attempts connect_attempt k w2"
  note T = connecting.turns_follow_attempts [OF assms(1,2), of k]
  have ne: "no_exit (view ?w3)" using T connecting.attempts_no_exit [OF assms(2), of k] by simp
  have so: "give_up (fst ?A) = so_error_wait k (so_errors w2)" by (rule connect_attempts_dial)
  show ?thesis
  proof (cases "fst ?A")
    case None
    with T have wt: "waiting False f (ScConnectCb f addr) ?w3" by simp
    note F = fut_finish_waiting [OF wt, of FCancelled, simplified]
    have "fut_cancel f ?w3 = (Inr True, snd (fut_finish f FCancelled ?w3))"
      using wt by (auto simp: fut_cancel_def fut_done_def waiting_def fut_finish_def call_soon_def push_ready_def
          py_run_defs check_defs open_for_def py_mod_def)
    with assms(3) None T F ne so show ?thesis
      by (auto simp: await_task_def give_up_def intro!: settled_usable)
  next
    case (Some r)
    with assms(3) T ne so show ?thesis by (auto simp: await_task_def give_up_def intro!: settled_usable)
  qed
qed

lemma await_sock_connect:
  assumes "usable w" and "connect_target resolve a w = Inr addr" and "connect_answers w = r # cs"
  shows "\<exists>x w'. await_task False (sock_connect resolve a) k w = (x, w') \<and>
    forget x = (case r of None \<Rightarrow> Inr () | Some e \<Rightarrow> if is_blocking e then so_error_wait k (so_errors w) else Inl e) \<and>
    usable w' \<and> sk w' = sk w"
proof (cases "\<exists>e. r = Some e \<and> is_blocking e")
  case True
  then obtain e where e: "r = Some e" "is_blocking e" by blast
  from sock_connect_pending [OF assms(1,2) assms(3) [unfolded e(1)] e(2)] obtain w2 where w2:
    "sock_connect resolve a w = (Inr (Awaiting (next_fut w)), w2)"
    "waiting False (next_fut w) (ScConnectCb (next_fut w) addr) w2"
    "view w2 = view (w\<lparr>connect_answers := cs\<rparr>)" "sk w2 = sk w" "no_exit (view w2)" by blast
  moreover have "so_errors w2 = so_errors w" using w2(3) by (simp add: view_def)
  ultimately show ?thesis using await_pending [OF w2(2,5), of "sock_connect resolve a" w k] e by auto
next
  case False
  have ne: "\<not> is_exit e" if "r = Some e" for e
    using assms(1,3) that by (auto simp: usable_def no_exit_def view_def)
  let ?w = "w\<lparr>connect_answers := cs, futs := (futs w)(next_fut w := (case r of None \<Rightarrow> FValue VNone | Some e \<Rightarrow> FExc e)),
    fut_callbacks := (fut_callbacks w)(next_fut w := []), next_fut := Suc (next_fut w)\<rparr>"
  have "await_task False (sock_connect resolve a) k w = (case r of None \<Rightarrow> Inr VNone | Some e \<Rightarrow> Inl e, ?w)"
    using assms(3) False ne
    by (auto simp: await_task_def sock_connect_start_run [OF assms(1,2)] create_future_def sock_connect_start_def k_connect_def
        py_run_defs py_mod_def py_try_else_def set_result_def set_exception_def fut_finish_def fut_done_def on_error_def
        turns_done outcome_def connect_update_commutes split: option.splits)
  moreover have "usable ?w" using assms(3) by (intro usable_update assms(1)) auto
  ultimately show ?thesis using False by (auto split: option.splits)
qed

section \<open>A loop ready for the next socket\<close>

definition loop_ready :: "sock_world \<Rightarrow> bool" where
  "loop_ready v \<longleftrightarrow> \<not> loop_closed v \<and> \<not> debug v \<and> registry_inv v \<and> ready v = [] \<and> no_exit (view v)"

text \<open>A descriptor the loop can watch and that no live transport uses.\<close>

definition fd_free :: "sock_world \<Rightarrow> int \<Rightarrow> bool" where
  "fd_free v fd \<longleftrightarrow> 0 \<le> fd \<and> i32_range fd \<and> (\<forall>n. os_reg v n fd = None) \<and>
     (case map_of (transports v) fd of None \<Rightarrow> True | Some t \<Rightarrow> tr_closing v t)"

text \<open>The system answers \<open>connect\<close>, raises no exit exception, and \<open>close\<close> raises nothing but
  \<open>OSError\<close>.\<close>

definition good_plan :: "sock_plan \<Rightarrow> bool" where
  "good_plan p \<longleftrightarrow> sp_connect p \<noteq> [] \<and>
     list_all (\<lambda>r. case r of None \<Rightarrow> True | Some e \<Rightarrow> \<not> is_exit e) (sp_connect p) \<and>
     list_all (\<lambda>r. case r of Inl e \<Rightarrow> \<not> is_exit e | Inr n \<Rightarrow> True) (sp_soerr p) \<and>
     (case sp_close p of None \<Rightarrow> True | Some e \<Rightarrow> is_oserror e)"

lemma fd_free_env: "loop_env v' = loop_env v \<Longrightarrow> fd_free v' fd = fd_free v fd"
  by (simp add: loop_env_def fd_free_def split: option.split)

lemma loop_ready_usable: "usable v \<Longrightarrow> loop_ready v"
  by (simp add: loop_ready_def usable_def open_for_def)

lemma usable_focus:
  assumes "loop_ready v" and "fd_free v (so_fd (ns_obj s))" and "\<not> so_ssl (ns_obj s)" and "good_plan (ns_plan s)"
  shows "usable (focus s v)"
proof -
  have "registry_inv (focus s v)" using assms(1)
    by (intro registry_inv_mono [of "focus s v" v]) (simp_all add: focus_def loop_ready_def)
  moreover have "no_exit (view (focus s v))"
    using assms(1,4) by (fastforce simp: loop_ready_def no_exit_def view_def focus_def good_plan_def list_all_iff)
  ultimately show ?thesis using assms
    by (simp add: usable_def open_for_def focus_def loop_ready_def fd_free_def split: option.splits)
qed

text \<open>An address the resolver gave is numeric, so resolving it again gives itself.\<close>

definition numeric :: "net_env \<Rightarrow> addr_info \<Rightarrow> bool" where
  "numeric E ai \<longleftrightarrow> map_option ai_addr (ipaddr_info E (ByAddr (ai_addr ai)) (ai_family ai) (ai_type ai) (ai_proto ai)) = Some (ai_addr ai)"

lemma await_connect_run:
  assumes "i < length (socks w)" and "loop_ready (nw w)" and "fd_free (nw w) (so_fd (ns_obj (socks w ! i)))"
    and "\<not> so_ssl (ns_obj (socks w ! i))" and "good_plan (ns_plan (socks w ! i))"
    and "resolve_first E (socks w ! i) addr = Inr addr"
  shows "\<exists>v. loop_ready v \<and> loop_env v = loop_env (nw w) \<and>
    await_connect E i addr w =
      (dial (ns_plan (socks w ! i)),
       if dial (ns_plan (socks w ! i)) = Inr ()
       then w\<lparr>nw := v, socks := (socks w)[i := (socks w ! i)\<lparr>ns_peer := Some addr\<rparr>]\<rparr> else w\<lparr>nw := v\<rparr>)"
proof -
  let ?s = "socks w ! i" and ?p = "ns_plan (socks w ! i)"
  let ?v = "focus ?s (nw w)"
  from assms(5) obtain r cs where r: "sp_connect ?p = r # cs" by (cases "sp_connect ?p") (auto simp: good_plan_def)
  have u: "usable ?v" by (rule usable_focus [OF assms(2-5)])
  moreover have t: "connect_target (resolve_first E ?s) addr ?v = Inr addr"
    using assms(6) by (simp add: connect_target_def)
  ultimately obtain x v' where x: "await_task False (sock_connect (resolve_first E ?s) addr) (sp_wait ?p) ?v = (x, v')"
    "forget x = dial ?p" "usable v'"
    using await_sock_connect [OF u t, of r cs "sp_wait ?p"] r by (auto simp: focus_def dial_def split: option.splits)
  have "loop_env v' = loop_env (nw w)"
    using await_task_env [OF env_connect, of False "resolve_first E ?s" addr "sp_wait ?p" ?v] x(1) by (simp add: focus_def)
  with loop_ready_usable [OF x(3)] x assms(1) show ?thesis
    by (intro exI [of _ v'], cases x)
      (auto simp: await_connect_def on_nw_def upd_sock_def py_run_defs py_mod_def split: prod.splits sum.splits)
qed

section \<open>One attempt\<close>

text \<open>The reference of an attempt: what it adds to the list of exceptions, and its result, from the
  answers of the system alone.\<close>

fun bind_ref :: "net_env \<Rightarrow> int \<Rightarrow> addr_info list \<Rightarrow> pyexc option list \<Rightarrow> pyexc list \<Rightarrow> pyexc list \<times> (pyexc + unit)" where
  "bind_ref E fam [] bs es =
     (if es = [] then ([], Inl (OSError 0 (''no matching local address with family='' @ show_int fam @ '' found'')))
      else (butlast es, Inl (last es)))"
| "bind_ref E fam (l # ls) bs es =
     (if ai_family l \<noteq> fam then bind_ref E fam ls bs es
      else
        (case bs of
           Some e # bs' \<Rightarrow>
             if is_oserror e then bind_ref E fam ls bs' (es @ [bind_error E (ai_addr l) e]) else (es, Inl e)
         | _ \<Rightarrow> (es, Inr ())))"

definition noting :: "pyexc list \<Rightarrow> pyexc + unit \<Rightarrow> pyexc list \<times> (pyexc + unit)" where
  "noting es r = (case r of Inl e \<Rightarrow> (if is_oserror e then es @ [e] else es, r) | Inr _ \<Rightarrow> (es, r))"

definition bind_dial_ref :: "net_env \<Rightarrow> addr_info list option \<Rightarrow> addr_info \<Rightarrow> sock_plan \<Rightarrow> pyexc list \<times> (pyexc + unit)" where
  "bind_dial_ref E locals ai p =
     (case (case locals of None \<Rightarrow> ([], Inr ()) | Some ls \<Rightarrow> bind_ref E (ai_family ai) ls (sp_bind p) []) of
        (es, Inl e) \<Rightarrow> (es, Inl e)
      | (es, Inr _) \<Rightarrow> (es, dial p))"

fun attempt_ref :: "net_env \<Rightarrow> addr_info list option \<Rightarrow> addr_info \<Rightarrow> pyexc + int \<times> sock_plan \<Rightarrow> pyexc list \<times> (pyexc + unit)" where
  "attempt_ref E locals ai (Inl e) = noting [] (Inl e)"
| "attempt_ref E locals ai (Inr (fd, p)) = (case bind_dial_ref E locals ai p of (es, r) \<Rightarrow> noting es r)"

definition rebound :: "net_sock \<Rightarrow> net_sock \<Rightarrow> bool" where
  "rebound s s' \<longleftrightarrow> ns_obj s' = ns_obj s \<and> ns_family s' = ns_family s \<and> ns_type s' = ns_type s \<and>
     ns_proto s' = ns_proto s \<and> ns_open s' = ns_open s \<and> (\<exists>b. ns_plan s' = (ns_plan s)\<lparr>sp_bind := b\<rparr>)"

lemma rebound_refl: "rebound s s"
  unfolding rebound_def by (simp add: exI [of _ "sp_bind (ns_plan s)"])

lemma rebound_step: "rebound (s\<lparr>ns_plan := (ns_plan s)\<lparr>sp_bind := b\<rparr>\<rparr>) s' \<Longrightarrow> rebound s s'"
  by (auto simp: rebound_def)

lemma bind_local_run:
  assumes "nw_errors w = ess @ [es]" and "socks w = ss @ [s]"
  shows "\<exists>s'. rebound s s' \<and> bind_local E (length ess) (length ss) fam ls w =
    (snd (bind_ref E fam ls (sp_bind (ns_plan s)) es),
     w\<lparr>nw_errors := ess @ [fst (bind_ref E fam ls (sp_bind (ns_plan s)) es)], socks := ss @ [s']\<rparr>)"
  using assms
proof (induction ls arbitrary: w es s)
  case Nil
  have "w = w\<lparr>socks := ss @ [s], nw_errors := ess @ [es]\<rparr>" using Nil by simp
  then show ?case using Nil rebound_refl [of s]
    by (intro exI [of _ s]) (auto simp: py_run_defs py_mod_def)
next
  case (Cons l ls)
  show ?case
  proof (cases "ai_family l = fam")
    case False
    with Cons.IH [OF Cons.prems] show ?thesis by simp
  next
    case True
    let ?s1 = "s\<lparr>ns_plan := (ns_plan s)\<lparr>sp_bind := tl (sp_bind (ns_plan s))\<rparr>\<rparr>"
    consider e bs where "sp_bind (ns_plan s) = Some e # bs" "is_oserror e"
      | e bs where "sp_bind (ns_plan s) = Some e # bs" "\<not> is_oserror e"
      | "\<forall>e bs. sp_bind (ns_plan s) \<noteq> Some e # bs"
      by (metis option.exhaust list.exhaust)
    then show ?thesis
    proof cases
      case 1
      let ?w1 = "w\<lparr>socks := ss @ [?s1], nw_errors := ess @ [es @ [bind_error E (ai_addr l) e]]\<rparr>"
      have "bind_local E (length ess) (length ss) fam (l # ls) w = bind_local E (length ess) (length ss) fam ls ?w1"
        using True 1 Cons.prems
        by (simp add: k_bind_def upd_sock_def my_append_def py_run_defs py_mod_def py_try_else_def)
      moreover obtain s' where "rebound ?s1 s'" "bind_local E (length ess) (length ss) fam ls ?w1 =
          (snd (bind_ref E fam ls (sp_bind (ns_plan ?s1)) (es @ [bind_error E (ai_addr l) e])),
           ?w1\<lparr>nw_errors := ess @ [fst (bind_ref E fam ls (sp_bind (ns_plan ?s1)) (es @ [bind_error E (ai_addr l) e]))],
             socks := ss @ [s']\<rparr>)"
        using Cons.IH [of ?w1 "es @ [bind_error E (ai_addr l) e]" ?s1] by auto
      ultimately show ?thesis using True 1 by (intro exI [of _ s']) (auto dest: rebound_step)
    next
      case 2
      have "w = w\<lparr>nw_errors := ess @ [es]\<rparr>" using Cons.prems by simp
      with True 2 Cons.prems rebound_step [OF rebound_refl] show ?thesis
        by (intro exI [of _ ?s1])
          (auto simp: k_bind_def upd_sock_def py_run_defs py_mod_def py_try_else_def)
    next
      case 3
      have "w = w\<lparr>nw_errors := ess @ [es]\<rparr>" using Cons.prems by simp
      moreover have "rebound s (?s1\<lparr>ns_local := Some (ai_addr l)\<rparr>)" by (auto simp: rebound_def)
      ultimately show ?thesis using True 3 Cons.prems
        by (intro exI [of _ "?s1\<lparr>ns_local := Some (ai_addr l)\<rparr>"], cases "sp_bind (ns_plan s)")
          (auto simp: k_bind_def upd_sock_def py_run_defs py_mod_def py_try_else_def split: option.splits)
    qed
  qed
qed

abbreviation nonblocking :: "net_sock \<Rightarrow> net_sock" where
  "nonblocking s \<equiv> s\<lparr>ns_obj := (ns_obj s)\<lparr>so_nonblocking := True\<rparr>\<rparr>"

lemma rebound_peer: "rebound s s' \<Longrightarrow> rebound s (s'\<lparr>ns_peer := p\<rparr>)"
  by (simp add: rebound_def)

lemma resolve_first_numeric:
  "numeric E ai \<Longrightarrow> ns_family s = ai_family ai \<Longrightarrow> ns_type s = ai_type ai \<Longrightarrow> ns_proto s = ai_proto ai \<Longrightarrow>
   resolve_first E s (ai_addr ai) = Inr (ai_addr ai)"
  by (auto simp: numeric_def resolve_first_def)

lemma dial_rebind [simp]: "dial (p\<lparr>sp_bind := b\<rparr>) = dial p"
  by (simp add: dial_def split: list.split option.split)

lemma good_plan_rebind [simp]: "good_plan (p\<lparr>sp_bind := b\<rparr>) = good_plan p"
  by (simp add: good_plan_def)

lemma bind_and_connect_run:
  assumes "nw_errors w = ess @ [[]]" and "socks w = ss @ [s]" and "loop_ready (nw w)"
    and "fd_free (nw w) (so_fd (ns_obj s))" and "\<not> so_ssl (ns_obj s)" and "good_plan (ns_plan s)"
    and "numeric E ai" and "ns_family s = ai_family ai" "ns_type s = ai_type ai" "ns_proto s = ai_proto ai"
  shows "\<exists>v s'. loop_ready v \<and> loop_env v = loop_env (nw w) \<and> rebound (nonblocking s) s' \<and>
    (snd (bind_dial_ref E locals ai (ns_plan s)) = Inr () \<longrightarrow> ns_peer s' = Some (ai_addr ai)) \<and>
    bind_and_connect E (length ess) (length ss) ai locals w =
      (snd (bind_dial_ref E locals ai (ns_plan s)),
       w\<lparr>nw := v, nw_errors := ess @ [fst (bind_dial_ref E locals ai (ns_plan s))], socks := ss @ [s']\<rparr>)"
proof -
  let ?s1 = "nonblocking s"
  let ?w1 = "w\<lparr>socks := ss @ [?s1]\<rparr>"
  let ?b = "case locals of None \<Rightarrow> ([], Inr ()) | Some ls \<Rightarrow> bind_ref E (ai_family ai) ls (sp_bind (ns_plan s)) []"
  let ?bind = "case locals of None \<Rightarrow> py_ret () | Some ls \<Rightarrow> bind_local E (length ess) (length ss) (ai_family ai) ls"
  have run: "bind_and_connect E (length ess) (length ss) ai locals w =
      py_seq ?bind (await_connect E (length ss) (ai_addr ai)) ?w1"
    using assms(2) by (simp add: bind_and_connect_def k_setblocking_def upd_sock_def py_run_defs py_mod_def)
  have "\<exists>s2. rebound ?s1 s2 \<and> ?bind ?w1 = (snd ?b, ?w1\<lparr>nw_errors := ess @ [fst ?b], socks := ss @ [s2]\<rparr>)"
  proof (cases locals)
    case None
    have "?w1 = ?w1\<lparr>nw_errors := ess @ [[]]\<rparr>" using assms(1) by simp
    with None show ?thesis by (intro exI [of _ ?s1]) (auto simp: rebound_refl py_ret_def)
  next
    case (Some ls)
    with bind_local_run [of ?w1 ess "[]" ss ?s1 E "ai_family ai" ls] assms(1) show ?thesis by simp
  qed
  then obtain s2 where s2: "rebound ?s1 s2" "?bind ?w1 = (snd ?b, ?w1\<lparr>nw_errors := ess @ [fst ?b], socks := ss @ [s2]\<rparr>)"
    by blast
  show ?thesis
  proof (cases "snd ?b")
    case (Inl e)
    then have "bind_dial_ref E locals ai (ns_plan s) = (fst ?b, Inl e)"
      by (auto simp: bind_dial_ref_def split: prod.splits)
    with Inl run s2 s2(1) assms(3) show ?thesis
      by (intro exI [of _ "nw w"] exI [of _ s2]) (simp add: py_seq_def py_bind_def)
  next
    case (Inr u)
    then have ref: "bind_dial_ref E locals ai (ns_plan s) = (fst ?b, dial (ns_plan s))"
      by (auto simp: bind_dial_ref_def split: prod.splits)
    let ?w2 = "?w1\<lparr>nw_errors := ess @ [fst ?b], socks := ss @ [s2]\<rparr>"
    from s2(1) have eqs: "ns_obj s2 = ns_obj ?s1" "dial (ns_plan s2) = dial (ns_plan s)" "good_plan (ns_plan s2)"
      "ns_family s2 = ai_family ai" "ns_type s2 = ai_type ai" "ns_proto s2 = ai_proto ai"
      using assms(6,8-10) by (auto simp: rebound_def)
    with assms(7) have "resolve_first E s2 (ai_addr ai) = Inr (ai_addr ai)" by (intro resolve_first_numeric) simp_all
    with await_connect_run [of "length ss" ?w2 E "ai_addr ai"] eqs assms(3-5) obtain v where v:
      "loop_ready v" "loop_env v = loop_env (nw w)"
      "await_connect E (length ss) (ai_addr ai) ?w2 =
        (dial (ns_plan s), if dial (ns_plan s) = Inr ()
           then ?w2\<lparr>nw := v, socks := ss @ [s2\<lparr>ns_peer := Some (ai_addr ai)\<rparr>]\<rparr> else ?w2\<lparr>nw := v\<rparr>)"
      by auto
    let ?s' = "if dial (ns_plan s) = Inr () then s2\<lparr>ns_peer := Some (ai_addr ai)\<rparr> else s2"
    from run s2(2) Inr v(3) have "bind_and_connect E (length ess) (length ss) ai locals w =
        (dial (ns_plan s), w\<lparr>nw := v, nw_errors := ess @ [fst ?b], socks := ss @ [?s']\<rparr>)"
      by (simp add: py_seq_def py_bind_def)
    with v ref s2(1) rebound_peer show ?thesis
      by (intro exI [of _ v] exI [of _ ?s']) simp
  qed
qed

text \<open>A socket connected by an attempt.\<close>

definition connected_sock :: "addr_info \<Rightarrow> int \<Rightarrow> sock_plan \<Rightarrow> net_sock \<Rightarrow> bool" where
  "connected_sock ai fd p s \<longleftrightarrow> ns_open s \<and> ns_peer s = Some (ai_addr ai) \<and> ns_family s = ai_family ai \<and>
     ns_type s = ai_type ai \<and> so_fd (ns_obj s) = fd \<and> sp_fate (ns_plan s) = sp_fate p"

text \<open>The answers of the system to the next \<open>socket()\<close> calls are fit for use.\<close>

definition good_answer :: "sock_world \<Rightarrow> pyexc + int \<times> sock_plan \<Rightarrow> bool" where
  "good_answer v ans \<longleftrightarrow> (case ans of Inl e \<Rightarrow> True | Inr (fd, p) \<Rightarrow> fd_free v fd \<and> good_plan p)"

lemma connect_sock_socket:
  "socket_answers w = Inr (fd, p) # rest \<Longrightarrow> connect_sock E ai locals w =
     py_try (py_try (py_seq (bind_and_connect E (length (nw_errors w)) (length (socks w)) ai locals) (py_ret (length (socks w))))
         (record_oserror (length (nw_errors w))))
       (\<lambda>e. py_seq (close_quietly (length (socks w))) (py_raise e))
       (w\<lparr>nw_errors := nw_errors w @ [[]], socket_answers := rest,
          socks := socks w @ [new_sock (ai_family ai) (ai_type ai) (ai_proto ai) fd p]\<rparr>)"
  by (simp add: connect_sock_def k_socket_def py_run_defs py_mod_def py_try_else_def)

lemma connect_sock_run:
  assumes "socket_answers w = ans # rest" and "loop_ready (nw w)" and "good_answer (nw w) ans" and "numeric E ai"
  shows "\<exists>v ss. loop_ready v \<and> loop_env v = loop_env (nw w) \<and>
    connect_sock E ai locals w =
      (map_sum id (\<lambda>_. length (socks w)) (snd (attempt_ref E locals ai ans)),
       w\<lparr>nw := v, socket_answers := rest, nw_errors := nw_errors w @ [fst (attempt_ref E locals ai ans)],
         socks := socks w @ ss\<rparr>) \<and>
    (case snd (attempt_ref E locals ai ans) of
       Inl e \<Rightarrow> list_all (\<lambda>s. \<not> ns_open s) ss
     | Inr _ \<Rightarrow> (\<exists>s fd p. ans = Inr (fd, p) \<and> ss = [s] \<and> connected_sock ai fd p s))"
proof (cases ans)
  case (Inl e)
  with assms(1,2) show ?thesis
    by (intro exI [of _ "nw w"] exI [of _ "[]"])
      (auto simp: connect_sock_def k_socket_def record_oserror_def my_append_def noting_def py_run_defs py_mod_def py_try_else_def)
next
  case (Inr q)
  obtain fd p where q: "q = (fd, p)" by fastforce
  let ?s = "new_sock (ai_family ai) (ai_type ai) (ai_proto ai) fd p"
  let ?w1 = "w\<lparr>nw_errors := nw_errors w @ [[]], socket_answers := rest, socks := socks w @ [?s]\<rparr>"
  let ?m = "length (nw_errors w)" and ?i = "length (socks w)"
  have ok: "fd_free (nw w) fd" "good_plan p" using assms(3) Inr q by (simp_all add: good_answer_def)
  obtain es r where ref: "bind_dial_ref E locals ai p = (es, r)" by fastforce
  from bind_and_connect_run [of ?w1 "nw_errors w" "socks w" ?s E ai locals] ok assms(2,4) ref obtain v s' where v:
    "loop_ready v" "loop_env v = loop_env (nw w)" "rebound (nonblocking ?s) s'" "r = Inr () \<longrightarrow> ns_peer s' = Some (ai_addr ai)"
    "bind_and_connect E ?m ?i ai locals ?w1 = (r, ?w1\<lparr>nw := v, nw_errors := nw_errors w @ [es], socks := socks w @ [s']\<rparr>)"
    by (auto simp: new_sock_def)
  have close: "sp_close (ns_plan s') = sp_close p" using v(3) by (auto simp: rebound_def new_sock_def)
  note run = connect_sock_socket [OF assms(1) [unfolded Inr q], of E ai locals]
  show ?thesis
  proof (cases r)
    case (Inl e)
    let ?s2 = "s'\<lparr>ns_open := False\<rparr>"
    have "connect_sock E ai locals w = (Inl e, w\<lparr>nw := v, socket_answers := rest,
        nw_errors := nw_errors w @ [fst (noting es (Inl e))], socks := socks w @ [?s2]\<rparr>)"
      unfolding run using v(5) Inl close ok(2)
      by (auto simp: py_try_def py_try_else_def py_seq_def py_bind_def py_raise_def py_ret_def record_oserror_def my_append_def
          py_mod_def close_quietly_def k_close_def upd_sock_def py_with_def noting_def good_plan_def split: option.splits)
    with v \<open>ans = Inr q\<close> q ref Inl show ?thesis
      by (intro exI [of _ v] exI [of _ "[?s2]"]) (simp add: noting_def)
  next
    case (Inr u)
    have "connect_sock E ai locals w = (Inr ?i, w\<lparr>nw := v, socket_answers := rest,
        nw_errors := nw_errors w @ [es], socks := socks w @ [s']\<rparr>)"
      unfolding run using v(5) Inr
      by (simp add: py_try_def py_try_else_def py_seq_def py_bind_def py_ret_def)
    moreover have "connected_sock ai fd p s'"
      using v(3,4) Inr by (auto simp: rebound_def connected_sock_def new_sock_def)
    ultimately show ?thesis using v \<open>ans = Inr q\<close> q ref Inr
      by (intro exI [of _ v] exI [of _ "[s']"]) (simp add: noting_def)
  qed
qed

section \<open>Addresses in order\<close>

text \<open>The reference of the loop: the first attempt that succeeds, unless one before it fails with
  something else than an \<open>OSError\<close>; and the number of attempts made.\<close>

type_synonym attempt_result = "pyexc list \<times> (pyexc + unit)"

fun first_reachable :: "attempt_result list \<Rightarrow> pyexc + nat option" where
  "first_reachable [] = Inr None"
| "first_reachable ((es, Inr _) # xs) = Inr (Some 0)"
| "first_reachable ((es, Inl e) # xs) =
     (if is_oserror e then map_sum id (map_option Suc) (first_reachable xs) else Inl e)"

fun tried :: "attempt_result list \<Rightarrow> nat" where
  "tried [] = 0"
| "tried ((es, Inr _) # xs) = 1"
| "tried ((es, Inl e) # xs) = (if is_oserror e then Suc (tried xs) else 1)"

abbreviation attempts_ref :: "net_env \<Rightarrow> addr_info list option \<Rightarrow> addr_info list \<Rightarrow> (pyexc + int \<times> sock_plan) list \<Rightarrow> attempt_result list" where
  "attempts_ref E locals infos answers \<equiv> map2 (attempt_ref E locals) infos answers"

lemma first_reachable_Some:
  "first_reachable xs = Inr (Some n) \<longleftrightarrow>
     n < length xs \<and> snd (xs ! n) = Inr () \<and> (\<forall>j<n. \<exists>e. snd (xs ! j) = Inl e \<and> is_oserror e)"
proof (induction xs arbitrary: n rule: first_reachable.induct)
  case (3 es e xs)
  show ?case
  proof (cases n)
    case 0
    then show ?thesis by (cases "first_reachable xs") auto
  next
    case (Suc k)
    have "(\<exists>e. Inl a = Inl e \<and> is_oserror e) = is_oserror (a :: pyexc)" for a by simp
    with 3 Suc show ?thesis by (cases "first_reachable xs") (auto simp: All_less_Suc2)
  qed
qed (auto simp: nth_Cons split: nat.splits)

lemma first_reachable_None:
  "first_reachable xs = Inr None \<longleftrightarrow> (\<forall>x\<in>set xs. \<exists>e. snd x = Inl e \<and> is_oserror e)"
proof (induction xs rule: first_reachable.induct)
  case (3 es e xs)
  then show ?case by (cases "first_reachable xs") auto
qed auto

lemma tried_None: "first_reachable xs = Inr None \<Longrightarrow> tried xs = length xs"
proof (induction xs rule: first_reachable.induct)
  case (3 es e xs)
  then show ?case by (cases "first_reachable xs") (auto split: if_splits)
qed auto

lemma good_answer_env: "loop_env v' = loop_env v \<Longrightarrow> good_answer v' = good_answer v"
  using fd_free_env [of v' v] by (auto simp: good_answer_def fun_eq_iff split: sum.split)

text \<open>What the loop leaves behind: the sockets that were tried and given up, and the connected one.\<close>

fun loop_sockets :: "(pyexc + nat option) \<Rightarrow> addr_info list \<Rightarrow> (pyexc + int \<times> sock_plan) list \<Rightarrow> net_sock list \<Rightarrow> bool" where
  "loop_sockets (Inr (Some n)) infos answers ss \<longleftrightarrow>
     (\<exists>s fd p. ss \<noteq> [] \<and> s = last ss \<and> list_all (\<lambda>s. \<not> ns_open s) (butlast ss) \<and> answers ! n = Inr (fd, p) \<and> connected_sock (infos ! n) fd p s)"
| "loop_sockets _ infos answers ss \<longleftrightarrow> list_all (\<lambda>s. \<not> ns_open s) ss"

lemma loop_sockets_Cons:
  assumes "loop_sockets r infos answers ss" and "list_all (\<lambda>s. \<not> ns_open s) ss1"
  shows "loop_sockets (map_sum id (map_option Suc) r) (ai # infos) (ans # answers) (ss1 @ ss)"
  using assms by (induction r infos answers ss rule: loop_sockets.induct) (auto simp: butlast_append)

lemma connect_loop_run:
  assumes "length answers = length infos" and "socket_answers w = answers @ rest" and "loop_ready (nw w)"
    and "list_all (good_answer (nw w)) answers" and "list_all (numeric E) infos"
  shows "\<exists>v ss. loop_ready v \<and> loop_env v = loop_env (nw w) \<and>
    connect_loop E locals infos w =
      (map_sum id (map_option (\<lambda>_. length (socks w) + length ss - 1)) (first_reachable (attempts_ref E locals infos answers)),
       w\<lparr>nw := v, socket_answers := drop (tried (attempts_ref E locals infos answers)) (socket_answers w),
         nw_errors := nw_errors w @ map fst (take (tried (attempts_ref E locals infos answers)) (attempts_ref E locals infos answers)),
         socks := socks w @ ss\<rparr>) \<and>
    loop_sockets (first_reachable (attempts_ref E locals infos answers)) infos answers ss"
  using assms
proof (induction answers infos arbitrary: w rule: list_induct2)
  case Nil
  then show ?case by (intro exI [of _ "nw w"] exI [of _ "[]"]) (simp add: py_ret_def)
next
  case (Cons ans answers ai infos)
  obtain es r where ref: "attempt_ref E locals ai ans = (es, r)" by fastforce
  from connect_sock_run [of w ans "answers @ rest" E ai locals] Cons.prems ref obtain v ss where run:
    "loop_ready v" "loop_env v = loop_env (nw w)"
    "connect_sock E ai locals w = (map_sum id (\<lambda>_. length (socks w)) r,
       w\<lparr>nw := v, socket_answers := answers @ rest, nw_errors := nw_errors w @ [es], socks := socks w @ ss\<rparr>)"
    "case r of Inl e \<Rightarrow> list_all (\<lambda>s. \<not> ns_open s) ss
       | Inr _ \<Rightarrow> \<exists>s fd p. ans = Inr (fd, p) \<and> ss = [s] \<and> connected_sock ai fd p s"
    by auto
  let ?atts = "attempts_ref E locals infos answers"
  let ?w1 = "w\<lparr>nw := v, socket_answers := answers @ rest, nw_errors := nw_errors w @ [es], socks := socks w @ ss\<rparr>"
  show ?case
  proof (cases "\<exists>e. r = Inl e \<and> is_oserror e")
    case False
    with run ref Cons.prems(1) show ?thesis
      by (intro exI [of _ v] exI [of _ ss], cases r) (auto simp: py_try_else_def py_raise_def py_ret_def)
  next
    case True
    then obtain e where e: "r = Inl e" "is_oserror e" by blast
    have "\<exists>v' ss'. loop_ready v' \<and> loop_env v' = loop_env (nw ?w1) \<and>
      connect_loop E locals infos ?w1 =
        (map_sum id (map_option (\<lambda>_. length (socks ?w1) + length ss' - 1)) (first_reachable ?atts),
         ?w1\<lparr>nw := v', socket_answers := drop (tried ?atts) (socket_answers ?w1),
           nw_errors := nw_errors ?w1 @ map fst (take (tried ?atts) ?atts),
           socks := socks ?w1 @ ss'\<rparr>) \<and>
      loop_sockets (first_reachable ?atts) infos answers ss'"
      using Cons.prems run(1,2) by (intro Cons.IH) (simp_all add: good_answer_env [OF run(2)])
    then obtain v' ss' where IH: "loop_ready v'" "loop_env v' = loop_env (nw w)"
      "connect_loop E locals infos ?w1 =
        (map_sum id (map_option (\<lambda>_. length (socks w) + length (ss @ ss') - 1)) (first_reachable ?atts),
         w\<lparr>nw := v', socket_answers := drop (tried ?atts) (answers @ rest),
           nw_errors := nw_errors w @ es # map fst (take (tried ?atts) ?atts),
           socks := socks w @ ss @ ss'\<rparr>)"
      "loop_sockets (first_reachable ?atts) infos answers ss'"
      using run(2) by (auto simp: add.assoc)
    have "loop_sockets (map_sum id (map_option Suc) (first_reachable ?atts)) (ai # infos) (ans # answers) (ss @ ss')"
      using IH(4) run(4) e(1) by (intro loop_sockets_Cons) simp_all
    moreover have "connect_loop E locals (ai # infos) w = connect_loop E locals infos ?w1"
      using run(3) e by (simp add: py_try_else_def)
    ultimately show ?thesis using IH(1-3) ref e Cons.prems(1)
      by (intro exI [of _ v'] exI [of _ "ss @ ss'"])
        (simp add: sum.map_comp option.map_comp comp_def id_def)
  qed
qed

end
