(* ===== verification/Connection_Properties.thy ===== *)
theory Connection_Properties
  imports Connection_Search Connection_Ownership
begin

text \<open>
  The properties of client connections, from the search of theory \<open>Connection_Search\<close> and the
  ownership triples of theory \<open>Connection_Ownership\<close>.
\<close>

section \<open>Ownership\<close>

lemma accounted_raise: "accounted E F ssl w (Inl e) w"
  by (auto simp: accounted_def intro: exI [of _ 0])

lemma wp_raise_closed: "wp (py_raise e) Q (\<lambda>e. only_closed (opens w) (conns w)) w"
  by (simp add: wp_rules only_closed_refl)

lemma create_connection_accounted:
  assumes "ca_sock a = None" and "ca_delay a = None"
  shows "accounted E F (ca_ssl a) w (fst (create_connection E race F a w)) (snd (create_connection E race F a w))"
proof (cases "connection_checks a")
  case (Inl e)
  then show ?thesis by (simp add: create_connection_def py_run_defs accounted_raise)
next
  case (Inr u)
  let ?m = "if ca_host a \<noteq> None \<or> ca_port a \<noteq> None then resolve_and_connect E race a else given_socket a"
  have acc: "wp ?m (\<lambda>i w'. \<exists>k. i = length (opens w) + k \<and> same_socks (opens w @ replicate k False @ [True]) (conns w) w')
      (\<lambda>e. only_closed (opens w) (conns w)) w"
    using wp_resolve_and_connect [of w "opens w" "conns w" a E race] assms
    by (simp add: given_socket_def wp_raise_closed)
  have "create_connection E race F a w = py_bind ?m (create_connection_transport E F (ca_ssl a) False) w"
    using Inr assms(1)
    by (simp add: create_connection_def check_ssl_socket_def py_seq_def py_bind_def [of "py_check _"] py_bind_def [of "py_ret _"]
        py_check_def py_ret_def)
  then show ?thesis by (simp only: accountedI [OF acc surjective_pairing])
qed

lemma create_unix_connection_accounted:
  "accounted E F ssl w (fst (create_unix_connection E F (Some p) ssl None hostname hs sd w))
     (snd (create_unix_connection E F (Some p) ssl None hostname hs sd w))"
proof (cases "unix_checks ssl hostname hs sd")
  case (Inl e)
  then show ?thesis by (simp add: create_unix_connection_def py_run_defs accounted_raise)
next
  case (Inr u)
  then have "create_unix_connection E F (Some p) ssl None hostname hs sd w =
      py_bind (py_bind (k_socket 1 1 0) (\<lambda>i. py_seq (py_try (py_seq (k_setblocking i) (await_connect E i p))
        (\<lambda>e. py_seq (k_close i) (py_raise e))) (py_ret i))) (create_connection_transport E F ssl False) w"
    by (simp add: create_unix_connection_def py_seq_def py_bind_def [of "py_check _"] py_check_def)
  then show ?thesis by (simp only: accountedI [OF wp_unix_socket surjective_pairing])
qed

text \<open>
  C20. A client connection leaks no socket, whatever the system, the resolver and the protocol do:
  when \<open>create_connection\<close> (without happy eyeballs) or \<open>create_unix_connection\<close> with a path ends,
  every socket it opened is closed, but for at most one, which belongs to the one transport the
  call made. The only exception is a call for which no transport could be made after the
  connection stood, because the protocol factory raised, the TLS protocol refused its arguments or
  the descriptor belongs to a live transport: that socket stays open with no owner.
\<close>

theorem connections_leak_no_socket:
  assumes "ca_sock a = None" and "ca_delay a = None"
  shows "accounted E F (ca_ssl a) w (fst (create_connection E race F a w)) (snd (create_connection E race F a w)) \<and>
    accounted E F ssl w (fst (create_unix_connection E F (Some p) ssl None hostname hs sd w))
      (snd (create_unix_connection E F (Some p) ssl None hostname hs sd w))"
  using create_connection_accounted [OF assms] create_unix_connection_accounted by blast

section \<open>The first reachable address\<close>

definition lookup_all :: "net_env \<Rightarrow> target \<Rightarrow> conn_args \<Rightarrow> pyexc + addr_info list" where
  "lookup_all E t a =
     (case ipaddr_info E t (ca_family a) 1 (ca_proto a) of
        Some i \<Rightarrow> Inr [i]
      | None \<Rightarrow> lookup E t (ca_family a) 1 (ca_proto a) (ca_flags a))"

text \<open>A loop that can resolve names and connect.\<close>

definition online :: "sock_world \<Rightarrow> bool" where
  "online v \<longleftrightarrow> loop_ready v \<and> \<not> executor_shutdown_called v"

lemma online_executor: "online v \<Longrightarrow> online (v\<lparr>default_executor := x\<rparr>)"
proof -
  assume a: "online v"
  then have "registry_inv v" by (simp add: online_def loop_ready_def)
  then have "registry_inv (v\<lparr>default_executor := x\<rparr>)" by (rule registry_inv_mono [rotated -1]) simp_all
  then show ?thesis using a by (simp add: online_def loop_ready_def view_def)
qed

lemma resolve_nonempty_run:
  assumes "online (nw w)" and "lookup_all E t a = Inr infos" and "infos \<noteq> []"
  shows "\<exists>v. online v \<and> fd_free v = fd_free (nw w) \<and> resolve_nonempty E t a w = (Inr infos, w\<lparr>nw := v\<rparr>)"
proof -
  have free: "fd_free (v\<lparr>default_executor := x\<rparr>) = fd_free v" for v x
    by (simp add: fd_free_def fun_eq_iff split: option.split)
  let ?v = "(nw w)\<lparr>default_executor := Some (ThreadPool (fresh_pool E))\<rparr>"
  note defs = resolve_nonempty_def ensure_resolved_def lookup_all_def getaddrinfo_def run_in_executor_def
    check_default_executor_def check_closed_state_def on_nw_def py_run_defs py_mod_def
  have o: "\<not> loop_closed (nw w)" "\<not> debug (nw w)" "\<not> executor_shutdown_called (nw w)"
    using assms(1) by (simp_all add: online_def loop_ready_def)
  show ?thesis
  proof (cases "ipaddr_info E t (ca_family a) 1 (ca_proto a) = None \<and> default_executor (nw w) = None")
    case True
    with assms(2,3) o have "resolve_nonempty E t a w = (Inr infos, w\<lparr>nw := ?v\<rparr>)" by (simp add: defs)
    with online_executor [OF assms(1)] show ?thesis by (intro exI [of _ ?v]) (simp add: free)
  next
    case False
    then consider i where "ipaddr_info E t (ca_family a) 1 (ca_proto a) = Some i"
      | d where "ipaddr_info E t (ca_family a) 1 (ca_proto a) = None" "default_executor (nw w) = Some d" by auto
    then have "resolve_nonempty E t a w = (Inr infos, w\<lparr>nw := nw w\<rparr>)"
      using assms(2,3) o by cases (simp_all add: defs)
    with assms(1) show ?thesis by blast
  qed
qed

text \<open>The addresses to try, and the local addresses to bind to.\<close>

definition resolves :: "net_env \<Rightarrow> conn_args \<Rightarrow> addr_info list \<Rightarrow> addr_info list option \<Rightarrow> bool" where
  "resolves E a infos locals \<longleftrightarrow>
     lookup_all E (ByName (ca_host a) (ca_port a)) a = Inr infos \<and> infos \<noteq> [] \<and>
     (case ca_local a of
        None \<Rightarrow> locals = None
      | Some l \<Rightarrow> locals \<noteq> None \<and> lookup_all E l a = Inr (the locals) \<and> the locals \<noteq> [])"

text \<open>The system has a fit answer for the socket of every address, and the addresses are numeric.\<close>

definition answers_fit :: "net_env \<Rightarrow> addr_info list \<Rightarrow> (pyexc + int \<times> sock_plan) list \<Rightarrow> sock_world \<Rightarrow> bool" where
  "answers_fit E infos answers v \<longleftrightarrow> length answers = length infos \<and> list_all (good_answer v) answers \<and> list_all (numeric E) infos"

fun search_result :: "bool \<Rightarrow> nat \<Rightarrow> attempt_result list \<Rightarrow> pyexc + nat" where
  "search_result all_errors i atts =
     (case first_reachable atts of
        Inl e \<Rightarrow> Inl e
      | Inr None \<Rightarrow> Inl (connect_failure all_errors (concat (map fst atts)))
      | Inr (Some n) \<Rightarrow> Inr i)"

lemma locals_run:
  assumes "online (nw w)" and "resolves E a infos locals"
  shows "\<exists>v. online v \<and> fd_free v = fd_free (nw w) \<and>
    (case ca_local a of None \<Rightarrow> py_ret None | Some l \<Rightarrow> py_bind (resolve_nonempty E l a) (\<lambda>ls. py_ret (Some ls))) w =
      (Inr locals, w\<lparr>nw := v\<rparr>)"
proof (cases "ca_local a")
  case None
  with assms show ?thesis by (intro exI [of _ "nw w"]) (simp add: resolves_def py_ret_def)
next
  case (Some l)
  with resolve_nonempty_run [OF assms(1), of E l a "the locals"] assms(2) show ?thesis
    by (auto simp: resolves_def py_bind_def py_ret_def)
qed

lemma resolve_and_connect_run:
  assumes "ca_delay a = None" and "ca_interleave a = None" and "online (nw w)" and "resolves E a infos locals"
    and "answers_fit E infos answers (nw w)" and "socket_answers w = answers @ rest"
  shows "\<exists>v ss. loop_ready v \<and> fd_free v = fd_free (nw w) \<and>
    resolve_and_connect E race a w =
      (search_result (ca_all_errors a) (length (socks w) + length ss - 1) (attempts_ref E locals infos answers),
       w\<lparr>nw := v, socket_answers := drop (tried (attempts_ref E locals infos answers)) (socket_answers w),
         nw_errors := map fst (take (tried (attempts_ref E locals infos answers)) (attempts_ref E locals infos answers)),
         socks := socks w @ ss\<rparr>) \<and>
    loop_sockets (first_reachable (attempts_ref E locals infos answers)) infos answers ss"
proof -
  let ?atts = "attempts_ref E locals infos answers"
  from resolve_nonempty_run [OF assms(3), of E "ByName (ca_host a) (ca_port a)" a infos] assms(4) obtain v1 where v1:
    "online v1" "fd_free v1 = fd_free (nw w)"
    "resolve_nonempty E (ByName (ca_host a) (ca_port a)) a w = (Inr infos, w\<lparr>nw := v1\<rparr>)"
    by (auto simp: resolves_def)
  from locals_run [of "w\<lparr>nw := v1\<rparr>" E a infos locals] v1 assms(4) obtain v2 where v2:
    "online v2" "fd_free v2 = fd_free (nw w)"
    "(case ca_local a of None \<Rightarrow> py_ret None | Some l \<Rightarrow> py_bind (resolve_nonempty E l a) (\<lambda>ls. py_ret (Some ls))) (w\<lparr>nw := v1\<rparr>) =
      (Inr locals, w\<lparr>nw := v2\<rparr>)" by auto
  let ?w = "w\<lparr>nw := v2, nw_errors := []\<rparr>"
  have "good_answer v2 = good_answer (nw w)" by (rule ext) (simp add: good_answer_def v2(2) split: sum.split prod.split)
  with connect_loop_run [of answers infos ?w rest E locals] assms(5,6) v2(1) obtain v ss where run:
    "loop_ready v" "loop_env v = loop_env v2"
    "connect_loop E locals infos ?w =
      (map_sum id (map_option (\<lambda>_. length (socks w) + length ss - 1)) (first_reachable ?atts),
       w\<lparr>nw := v, socket_answers := drop (tried ?atts) (socket_answers w),
         nw_errors := map fst (take (tried ?atts) ?atts), socks := socks w @ ss\<rparr>)"
    "loop_sockets (first_reachable ?atts) infos answers ss"
    by (auto simp: answers_fit_def online_def)
  have free: "fd_free v = fd_free (nw w)" using fd_free_env [OF run(2)] v2(2) by (simp add: fun_eq_iff)
  have "resolve_and_connect E race a w =
      py_bind (connect_loop E locals infos) (\<lambda>so. case so of
         Some i \<Rightarrow> py_ret i
       | None \<Rightarrow> py_with (\<lambda>w. concat (nw_errors w)) (\<lambda>es. py_raise (connect_failure (ca_all_errors a) es))) ?w"
    using v1(3) v2(3) assms(1,2)
    by (simp add: resolve_and_connect_def Let_def py_seq_def py_bind_def [of "resolve_nonempty _ _ _"] py_bind_def [of "case_option _ _ _"]
        py_bind_def [of "py_mod _"] py_mod_def)
  also have "\<dots> = (search_result (ca_all_errors a) (length (socks w) + length ss - 1) ?atts,
       w\<lparr>nw := v, socket_answers := drop (tried ?atts) (socket_answers w),
         nw_errors := map fst (take (tried ?atts) ?atts), socks := socks w @ ss\<rparr>)"
    using run(3) tried_None [of ?atts]
    by (simp add: py_bind_def py_ret_def py_with_def py_raise_def split: sum.split option.split)
  finally show ?thesis using run(1,4) free by (intro exI [of _ v] exI [of _ ss]) simp
qed

text \<open>A fresh transport has scheduled \<open>connection_made\<close>, the start of reading, and the wake-up of the
  task that waits for it, in this order.\<close>

definition first_calls :: "nat \<Rightarrow> (tcb \<times> pyarg list) list" where
  "first_calls f = [(CbConnectionMade, []), (CbRegisterReader, []), (CbSetWaiter f, [ANone])]"

definition fresh_transport :: "proto_kind \<Rightarrow> nat \<Rightarrow> int \<Rightarrow> sock_transport \<Rightarrow> bool" where
  "fresh_transport k f fd t \<longleftrightarrow> map (\<lambda>e. (re_callback e, re_args e)) (ready (loop t)) = first_calls f \<and>
     sock_fd t = fd \<and> protocol t = Some k \<and> log t = [] \<and> buffer t = [] \<and> \<not> closing t \<and> conn_lost t = 0 \<and>
     has_loop t \<and> has_sock t"

lemma sock_init_fresh:
  assumes "\<not> loop_closed v" and "\<not> debug v"
  shows "\<exists>t. sock_init k WriteSendmsg (Some f) (new_sock_transport (transport_loop v) fd peer srv act iov ss rs) = (Inr (), t) \<and>
    fresh_transport k f fd t"
  using assms
  by (cases k)
    (simp_all add: sock_init_def sock_set_protocol_def Let_def new_sock_transport_def init_transport_def transport_loop_def
      tokioop_new_def selector_transport.defs set_protocol_def call_soon_of_def on_loop_def call_soon_def push_ready_def
      is_polling_def py_run_defs py_mod_def check_defs fresh_transport_def first_calls_def)

lemma create_connection_transport_run:
  assumes "i < length (socks w)" and "loop_ready (nw w)" and "fd_free (nw w) (so_fd (ns_obj (socks w ! i)))"
    and "sp_fate (ns_plan (socks w ! i)) = Settles"
  shows "\<exists>w' c t. create_connection_transport E (Inr p) NoSsl server_side i w = (Inr (length (conns w)), w') \<and>
    conns w' = conns w @ [c] \<and> nt_sock c = i \<and> nt_proto c = snd p \<and> nt_obj c = run_scheduled (snd p) t \<and>
    fresh_transport (fst p) (next_fut (nw w)) (so_fd (ns_obj (socks w ! i))) t \<and>
    map_of (transports (nw w')) (so_fd (ns_obj (socks w ! i))) = Some (stream_id (length (conns w))) \<and>
    socks w' = (socks w)[i := nonblocking (socks w ! i)]"
proof -
  let ?s = "nonblocking (socks w ! i)" and ?fd = "so_fd (ns_obj (socks w ! i))" and ?f = "next_fut (nw w)" and ?t = "length (conns w)"
  let ?v = "(nw w)\<lparr>futs := (futs (nw w))(?f := FPending), fut_callbacks := (fut_callbacks (nw w))(?f := []), next_fut := Suc ?f\<rparr>"
  let ?w1 = "w\<lparr>socks := (socks w)[i := ?s], nw := ?v\<rparr>"
  have o: "\<not> loop_closed ?v" "\<not> debug ?v" using assms(2) by (simp_all add: loop_ready_def)
  from sock_init_fresh [OF o, of "fst p" ?f ?fd "ns_peer ?s" None 0 1024 "[]" "[]"] obtain t where t:
    "sock_init (fst p) WriteSendmsg (Some ?f) (new_sock_transport (transport_loop ?v) ?fd (ns_peer ?s) None 0 1024 [] []) = (Inr (), t)"
    "fresh_transport (fst p) ?f ?fd t" by blast
  have free: "(case map_of (transports (nw w)) ?fd of None \<Rightarrow> py_ret () | Some tr \<Rightarrow> if tr_closing (nw w) tr then py_ret ()
      else py_raise (RuntimeError ''File descriptor is used by transport'')) ?v = (Inr (), ?v)"
    using assms(3) by (simp add: fd_free_def py_ret_def split: option.splits)
  let ?c = "\<lparr>nt_sock = i, nt_tls = False, nt_proto = snd p, nt_obj = t\<rparr>"
  let ?w2 = "?w1\<lparr>nw := ?v\<lparr>transports := AList.update ?fd (stream_id ?t) (transports (nw w))\<rparr>, conns := conns w @ [?c]\<rparr>"
  have make: "make_socket_transport p ?f None i ?w1 = (Inr ?t, ?w2)"
    using assms(1) t(1) free
    by (simp add: make_socket_transport_def ensure_sock_no_transport_def ensure_fd_no_transport_def new_transport_def on_conn_def
        on_nw_def py_run_defs py_mod_def Let_def)
  have "create_connection_transport E (Inr p) NoSsl server_side i w =
      py_bind (make_socket_transport p ?f None i) (\<lambda>t. py_seq (await_or_close E t) (py_ret t)) ?w1"
    by (simp add: create_connection_transport_def k_setblocking_def upd_sock_def on_nw_def create_future_def py_run_defs py_mod_def)
  also have "\<dots> = (Inr ?t, ?w2\<lparr>conns := conns w @ [?c\<lparr>nt_obj := run_scheduled (snd p) t\<rparr>]\<rparr>)"
    using make assms(1,4)
    by (simp add: await_or_close_def await_waiter_of_def on_conn_def py_try_def py_try_else_def py_run_defs py_mod_def)
  finally show ?thesis using t(2)
    by (intro exI [of _ "?w2\<lparr>conns := conns w @ [?c\<lparr>nt_obj := run_scheduled (snd p) t\<rparr>]\<rparr>"]
        exI [of _ "?c\<lparr>nt_obj := run_scheduled (snd p) t\<rparr>"] exI [of _ t]) (simp add: update_Some_unfold update_conv')
qed

text \<open>A request for a plain connection to a host, tried address by address.\<close>

definition plain_request :: "conn_args \<Rightarrow> bool" where
  "plain_request a \<longleftrightarrow> (ca_host a \<noteq> None \<or> ca_port a \<noteq> None) \<and> ca_sock a = None \<and> ca_delay a = None \<and>
     ca_interleave a = None \<and> ca_ssl a = NoSsl \<and> connection_checks a = Inr ()"

definition settles :: "pyexc + int \<times> sock_plan \<Rightarrow> bool" where
  "settles ans \<longleftrightarrow> (case ans of Inl e \<Rightarrow> True | Inr (fd, p) \<Rightarrow> sp_fate p = Settles)"

lemma create_connection_plain:
  assumes "plain_request a"
  shows "create_connection E race F a w = py_bind (resolve_and_connect E race a) (create_connection_transport E F NoSsl False) w"
  using assms
  by (auto simp: plain_request_def create_connection_def check_ssl_socket_def py_seq_def py_bind_def [of "py_check _"]
      py_bind_def [of "py_ret _"] py_check_def py_ret_def)

lemma create_connection_found:
  assumes "plain_request a" and "online (nw w)" and "resolves E a infos locals"
    and "answers_fit E infos answers (nw w)" and "socket_answers w = answers @ rest" and "list_all settles answers"
    and found: "first_reachable (attempts_ref E locals infos answers) = Inr (Some n)"
  shows "\<exists>w' c t fd pl f. create_connection E race (Inr p) a w = (Inr (length (conns w)), w') \<and> conns w' = conns w @ [c] \<and>
    answers ! n = Inr (fd, pl) \<and> nt_proto c = snd p \<and> nt_obj c = run_scheduled (snd p) t \<and> fresh_transport (fst p) f fd t \<and>
    map_of (transports (nw w')) fd = Some (stream_id (length (conns w))) \<and> connected_sock (infos ! n) fd pl (socks w' ! nt_sock c)"
proof -
  let ?atts = "attempts_ref E locals infos answers"
  from resolve_and_connect_run [of a w E infos locals answers rest race] assms(1-5) obtain v ss where run:
    "loop_ready v" "fd_free v = fd_free (nw w)"
    "resolve_and_connect E race a w =
      (search_result (ca_all_errors a) (length (socks w) + length ss - 1) ?atts,
       w\<lparr>nw := v, socket_answers := drop (tried ?atts) (socket_answers w),
         nw_errors := map fst (take (tried ?atts) ?atts), socks := socks w @ ss\<rparr>)"
    "loop_sockets (first_reachable ?atts) infos answers ss"
    by (auto simp: plain_request_def)
  let ?w1 = "w\<lparr>nw := v, socket_answers := drop (tried ?atts) (socket_answers w),
         nw_errors := map fst (take (tried ?atts) ?atts), socks := socks w @ ss\<rparr>"
  from run(4) found obtain fd pl where s: "ss \<noteq> []" "answers ! n = Inr (fd, pl)" "connected_sock (infos ! n) fd pl (last ss)"
    by auto
  let ?i = "length (socks w) + length ss - 1"
  have nth: "socks ?w1 ! ?i = last ss" using s(1) by (cases ss rule: rev_cases) (simp_all add: nth_append)
  have n: "n < length infos" using found assms(4) by (auto simp: first_reachable_Some answers_fit_def)
  then have "good_answer (nw w) (answers ! n)" "settles (answers ! n)"
    using assms(4,6) by (auto simp: answers_fit_def list_all_length)
  then have "fd_free v fd" "sp_fate pl = Settles" using s(2) run(2) by (simp_all add: good_answer_def settles_def)
  with s(3) have "fd_free (nw ?w1) (so_fd (ns_obj (socks ?w1 ! ?i)))" "sp_fate (ns_plan (socks ?w1 ! ?i)) = Settles"
    unfolding nth by (simp_all add: connected_sock_def)
  moreover have "?i < length (socks ?w1)" using s(1) by (cases ss) simp_all
  moreover have "loop_ready (nw ?w1)" using run(1) by simp
  ultimately obtain w' c t where made:
    "create_connection_transport E (Inr p) NoSsl False ?i ?w1 = (Inr (length (conns w)), w')" "conns w' = conns w @ [c]"
    "nt_sock c = ?i" "nt_proto c = snd p" "nt_obj c = run_scheduled (snd p) t"
    "fresh_transport (fst p) (next_fut v) (so_fd (ns_obj (socks ?w1 ! ?i))) t"
    "map_of (transports (nw w')) (so_fd (ns_obj (socks ?w1 ! ?i))) = Some (stream_id (length (conns w)))"
    "socks w' = (socks ?w1)[?i := nonblocking (socks ?w1 ! ?i)]"
    using create_connection_transport_run [of ?i ?w1 E p False] by auto
  have "socks w' ! nt_sock c = nonblocking (last ss)"
    using made(3,8) nth \<open>?i < length (socks ?w1)\<close> by simp
  moreover have "so_fd (ns_obj (last ss)) = fd" using s(3) by (simp add: connected_sock_def)
  moreover have "create_connection E race (Inr p) a w = (Inr (length (conns w)), w')"
    using run(3) found made(1) by (simp add: create_connection_plain [OF assms(1)] py_bind_def)
  ultimately show ?thesis using s made nth
    by (intro exI [of _ w'] exI [of _ c] exI [of _ t] exI [of _ fd] exI [of _ pl] exI [of _ "next_fut v"])
      (simp add: connected_sock_def)
qed

lemma create_connection_unreachable:
  assumes "plain_request a" and "online (nw w)" and "resolves E a infos locals"
    and "answers_fit E infos answers (nw w)" and "socket_answers w = answers @ rest"
    and "first_reachable (attempts_ref E locals infos answers) = Inr None"
  shows "fst (create_connection E race F a w) =
    Inl (connect_failure (ca_all_errors a) (concat (map fst (attempts_ref E locals infos answers))))"
proof -
  from resolve_and_connect_run [of a w E infos locals answers rest race] assms(1-5) obtain w1 i where
    "resolve_and_connect E race a w = (search_result (ca_all_errors a) i (attempts_ref E locals infos answers), w1)"
    by (auto simp: plain_request_def)
  with assms(6) show ?thesis by (simp add: create_connection_plain [OF assms(1)] py_bind_def)
qed

text \<open>Two addresses for a host: the first refuses, the second accepts at once.\<close>

definition inet_info :: "16 word \<Rightarrow> addr_info" where
  "inet_info port = \<lparr>ai_family = 2, ai_type = 1, ai_proto = 6, ai_canon = '''', ai_addr = InetV4 0 port\<rparr>"

definition sample_env :: net_env where
  "sample_env =
     \<lparr>ipaddr_info = (\<lambda>t fam ty prot. case t of
         ByAddr a \<Rightarrow> Some \<lparr>ai_family = fam, ai_type = ty, ai_proto = prot, ai_canon = '''', ai_addr = a\<rparr>
       | ByName h p \<Rightarrow> None),
      lookup = (\<lambda>t fam ty prot flgs. Inr [inet_info 1, inet_info 2]),
      fresh_pool = 0, interleave_addrinfos = (\<lambda>infos n. infos), repr_addr = (\<lambda>_. ''addr''),
      tls_reject = (\<lambda>_. None), ssl_protocol = snd, tls_close = sock_close\<rparr>"

definition sample_plan :: "pyexc option \<Rightarrow> sock_plan" where
  "sample_plan c = \<lparr>sp_bind = [], sp_opts = [], sp_listen = None, sp_connect = [c], sp_soerr = [], sp_wait = 0, sp_close = None, sp_fate = Settles\<rparr>"

definition sample_net :: "(pyexc + int \<times> sock_plan) list \<Rightarrow> net_world" where
  "sample_net answers =
     \<lparr>nw = sample_world [] [] [] [] [], socks = [], socket_answers = answers, conns = [], nw_errors = [], active_conns = (\<lambda>_. 0)\<rparr>"

definition sample_args :: conn_args where
  "sample_args =
     \<lparr>ca_host = Some ''host'', ca_port = Some 80, ca_ssl = NoSsl, ca_family = 0, ca_proto = 0, ca_flags = 0, ca_sock = None,
      ca_local = None, ca_server_hostname = None, ca_handshake_timeout = None, ca_shutdown_timeout = None, ca_delay = None,
      ca_interleave = None, ca_all_errors = False\<rparr>"

definition sample_protocol :: app_protocol where
  "sample_protocol = (PlainProtocol, \<lambda>ev. py_ret 0)"

definition no_race :: "(addr_info \<Rightarrow> ('x, nat) net_m) \<Rightarrow> addr_info list \<Rightarrow> nat \<Rightarrow> ('x, nat option) net_m" where
  "no_race f infos d = py_ret None"

lemma sample_online: "online (sample_world [] [] [] [] [])"
proof -
  have "usable (sample_world [] [] [] [] [])" by (rule sample_world_usable) (simp add: no_exit_def view_def)
  moreover have "\<not> executor_shutdown_called (sample_world [] [] [] [] [])"
    by (simp add: sample_world_def new_rust_loop_def tokioop_new_def loop_state.defs tokioop_loop.defs rust_loop.defs sock_world.defs)
  ultimately show ?thesis by (simp add: online_def loop_ready_usable)
qed

lemma sample_request:
  "plain_request sample_args" "resolves sample_env sample_args [inet_info 1, inet_info 2] None"
  by (simp_all add: plain_request_def sample_args_def connection_checks_def check_ssl_timeouts_def resolves_def lookup_all_def
      sample_env_def)

lemma sample_fits:
  "answers_fit sample_env [inet_info 1, inet_info 2]
     [Inr (7, sample_plan (Some (OSError 111 ''refused''))), Inr (8, sample_plan c)] (sample_world [] [] [] [] [])"
  if "\<And>e. c = Some e \<Longrightarrow> \<not> is_exit e"
  using that
  by (auto simp: answers_fit_def good_answer_def fd_free_def good_plan_def sample_plan_def numeric_def inet_info_def sample_env_def
      i32_range_def split: option.split)

theorem connections_leak_no_socket_witness:
  "accounted sample_env (Inr sample_protocol) NoSsl (sample_net [Inl (OSError 24 ''Too many open files'')])
     (fst (create_connection sample_env no_race (Inr sample_protocol) sample_args (sample_net [Inl (OSError 24 ''Too many open files'')])))
     (snd (create_connection sample_env no_race (Inr sample_protocol) sample_args (sample_net [Inl (OSError 24 ''Too many open files'')])))"
  using connections_leak_no_socket [of sample_args sample_env "Inr sample_protocol"
      "sample_net [Inl (OSError 24 ''Too many open files'')]" no_race]
  by (simp add: sample_args_def)

text \<open>
  C19. \<open>create_connection\<close> refines a search over the answers of the system. With the addresses the
  resolver gave, tried in their order (bound first to a local address of the same family if one was
  asked for), it connects to the first that can be reached and passes over those that fail with an
  \<open>OSError\<close>: the result is one new transport, registered under that socket's descriptor, over a
  socket connected to that very address, whose protocol got \<open>connection_made\<close>, then the start of
  reading, then the wake-up of the caller. When every address fails it raises the report of all
  their errors.
\<close>

theorem create_connection_first_reachable:
  assumes "plain_request a" and "online (nw w)" and "resolves E a infos locals"
    and "answers_fit E infos answers (nw w)" and "socket_answers w = answers @ rest" and "list_all settles answers"
  shows "(n < length infos \<and> snd (attempts_ref E locals infos answers ! n) = Inr () \<and>
      (\<forall>j<n. \<exists>e. snd (attempts_ref E locals infos answers ! j) = Inl e \<and> is_oserror e) \<longrightarrow>
      (\<exists>w' c t fd pl f. create_connection E race (Inr p) a w = (Inr (length (conns w)), w') \<and> conns w' = conns w @ [c] \<and>
        answers ! n = Inr (fd, pl) \<and> nt_obj c = run_scheduled (snd p) t \<and> fresh_transport (fst p) f fd t \<and>
        map_of (transports (nw w')) fd = Some (stream_id (length (conns w))) \<and> connected_sock (infos ! n) fd pl (socks w' ! nt_sock c))) \<and>
    ((\<forall>x\<in>set (attempts_ref E locals infos answers). \<exists>e. snd x = Inl e \<and> is_oserror e) \<longrightarrow>
      fst (create_connection E race (Inr p) a w) =
        Inl (connect_failure (ca_all_errors a) (concat (map fst (attempts_ref E locals infos answers)))))"
proof (intro conjI impI)
  assume "n < length infos \<and> snd (attempts_ref E locals infos answers ! n) = Inr () \<and>
    (\<forall>j<n. \<exists>e. snd (attempts_ref E locals infos answers ! j) = Inl e \<and> is_oserror e)"
  moreover have len: "length (attempts_ref E locals infos answers) = length infos" using assms(4) by (simp add: answers_fit_def)
  ultimately have "first_reachable (attempts_ref E locals infos answers) = Inr (Some n)"
    unfolding first_reachable_Some len by blast
  from create_connection_found [OF assms this, of race p] show "\<exists>w' c t fd pl f.
      create_connection E race (Inr p) a w = (Inr (length (conns w)), w') \<and> conns w' = conns w @ [c] \<and>
      answers ! n = Inr (fd, pl) \<and> nt_obj c = run_scheduled (snd p) t \<and> fresh_transport (fst p) f fd t \<and>
      map_of (transports (nw w')) fd = Some (stream_id (length (conns w))) \<and> connected_sock (infos ! n) fd pl (socks w' ! nt_sock c)"
    by blast
next
  assume "\<forall>x\<in>set (attempts_ref E locals infos answers). \<exists>e. snd x = Inl e \<and> is_oserror e"
  then show "fst (create_connection E race (Inr p) a w) =
      Inl (connect_failure (ca_all_errors a) (concat (map fst (attempts_ref E locals infos answers))))"
    using create_connection_unreachable [OF assms(1-5)] by (simp only: first_reachable_None)
qed

theorem create_connection_first_reachable_witness:
  "\<exists>w' c. create_connection sample_env no_race (Inr sample_protocol) sample_args
       (sample_net [Inr (7, sample_plan (Some (OSError 111 ''refused''))), Inr (8, sample_plan None)]) = (Inr 0, w') \<and>
     conns w' = [c] \<and> ns_peer (socks w' ! nt_sock c) = Some (InetV4 0 2)"
proof -
  let ?ans = "[Inr (7, sample_plan (Some (OSError 111 ''refused''))), Inr (8, sample_plan None)]"
  have "list_all settles ?ans" by (simp add: settles_def sample_plan_def)
  moreover have "snd (attempts_ref sample_env None [inet_info 1, inet_info 2] ?ans ! 1) = Inr ()"
    "snd (attempts_ref sample_env None [inet_info 1, inet_info 2] ?ans ! 0) = Inl (OSError 111 ''refused'')"
    by (simp_all add: bind_dial_ref_def dial_def sample_plan_def noting_def)
  ultimately show ?thesis
    using create_connection_first_reachable [OF sample_request(1), of "sample_net ?ans" sample_env "[inet_info 1, inet_info 2]" None ?ans "[]" 1
        no_race sample_protocol] sample_online sample_request(2) sample_fits [of None]
    by (fastforce simp: sample_net_def connected_sock_def inet_info_def)
qed

section \<open>The report of the errors\<close>

lemma os_error_is_oserror [simp]: "is_oserror (os_error n m)"
  by (simp add: os_error_def)

lemma bind_ref_oserrors: "list_all is_oserror es \<Longrightarrow> list_all is_oserror (fst (bind_ref E fam ls bs es))"
proof (induction E fam ls bs es rule: bind_ref.induct)
  case (1 E fam bs es)
  then show ?case by (auto simp: list_all_iff dest: in_set_butlastD)
next
  case (2 E fam l ls bs es)
  then show ?case by (auto simp: bind_error_def split: list.split option.split)
qed

lemma noting_oserrors:
  "list_all is_oserror es \<Longrightarrow> list_all is_oserror (fst (noting es r))"
  "snd (noting es r) = Inl e \<Longrightarrow> is_oserror e \<Longrightarrow> e \<in> set (fst (noting es r))"
  by (auto simp: noting_def split: sum.splits)

lemma attempt_ref_oserrors:
  "list_all is_oserror (fst (attempt_ref E locals ai ans))"
  "snd (attempt_ref E locals ai ans) = Inl e \<Longrightarrow> is_oserror e \<Longrightarrow> e \<in> set (fst (attempt_ref E locals ai ans))"
proof -
  have bind: "list_all is_oserror (fst (bind_dial_ref E locals ai p))" for p
  proof (cases locals)
    case None
    then show ?thesis by (simp add: bind_dial_ref_def)
  next
    case (Some ls)
    obtain es r where "bind_ref E (ai_family ai) ls (sp_bind p) [] = (es, r)" by fastforce
    with Some bind_ref_oserrors [of "[]" E "ai_family ai" ls "sp_bind p"] show ?thesis
      by (simp add: bind_dial_ref_def split: sum.split)
  qed
  show "list_all is_oserror (fst (attempt_ref E locals ai ans))"
    "snd (attempt_ref E locals ai ans) = Inl e \<Longrightarrow> is_oserror e \<Longrightarrow> e \<in> set (fst (attempt_ref E locals ai ans))"
  proof -
    have "\<exists>es r. attempt_ref E locals ai ans = noting es r \<and> list_all is_oserror es"
    proof (cases ans)
      case (Inr q)
      obtain fd p where "q = (fd, p)" by fastforce
      with Inr bind [of p] show ?thesis by (auto split: prod.split)
    qed auto
    then obtain es r where "attempt_ref E locals ai ans = noting es r" "list_all is_oserror es" by blast
    then show "list_all is_oserror (fst (attempt_ref E locals ai ans))"
      "snd (attempt_ref E locals ai ans) = Inl e \<Longrightarrow> is_oserror e \<Longrightarrow> e \<in> set (fst (attempt_ref E locals ai ans))"
      using noting_oserrors by simp_all
  qed
qed

text \<open>One text occurs in another.\<close>

definition mentions :: "string \<Rightarrow> string \<Rightarrow> bool" where
  "mentions s t \<longleftrightarrow> (\<exists>pre post. s = pre @ t @ post)"

lemma mentions_refl: "mentions s s"
  by (auto simp: mentions_def intro: exI [of _ "[]"])

lemma mentions_append: "mentions s t \<Longrightarrow> mentions (u @ s) t" "mentions s t \<Longrightarrow> mentions (s @ u) t"
  by (auto simp: mentions_def) (metis append.assoc)+

lemma mentions_Cons: "mentions s t \<Longrightarrow> mentions (c # s) t"
  using mentions_append(1) [of s t "[c]"] by simp

lemma join_comma_mentions: "t \<in> set ss \<Longrightarrow> mentions (join_comma ss) t"
proof (induction ss rule: join_comma.induct)
  case (3 s u ss)
  then show ?case by (auto intro: mentions_append mentions_Cons mentions_refl)
qed (simp_all add: mentions_refl)

lemma connect_failure_group: "es \<noteq> [] \<Longrightarrow> connect_failure True es = ExceptionGroup ''create_connection failed'' es"
  by (simp add: connect_failure_def)

lemma connect_failure_report:
  assumes "es \<noteq> []" and "list_all is_oserror es" and "x \<in> set es"
  shows "is_oserror (connect_failure False es) \<and> mentions (exc_str (connect_failure False es)) (exc_str x)"
proof -
  from assms(1) obtain e es' where es: "es = e # es'" by (cases es) auto
  show ?thesis
  proof (cases "list_all (\<lambda>x. exc_str x = exc_str e) es")
    case True
    then have "connect_failure False es = e" using es by (auto simp: connect_failure_def split: list.split)
    moreover have "exc_str x = exc_str e" using True assms(3) by (auto simp: list_all_iff)
    ultimately show ?thesis using assms(2) es by (simp add: mentions_refl)
  next
    case False
    then have "connect_failure False es = OSError 0 (''Multiple exceptions: '' @ join_comma (map exc_str es))"
      using es by (auto simp: connect_failure_def split: list.split)
    moreover have "mentions (join_comma (map exc_str es)) (exc_str x)" using assms(3) by (intro join_comma_mentions) simp
    ultimately show ?thesis by (simp add: exc_str_def mentions_append(1) del: append.simps)
  qed
qed



end
