(* ===== verification/Server_Sockets.thy ===== *)
theory Server_Sockets
  imports Server_Properties Connection_Properties
begin

text \<open>
  The sockets of \<open>create_server\<close> and \<open>create_unix_server\<close>. While \<open>create_server\<close> binds, the list
  \<open>sockets\<close> holds exactly the sockets opened so far that are still open; this makes the clean-up of a
  failed call complete.
\<close>

section \<open>The invariant of the binding loop\<close>

text \<open>The indices, from \<open>n\<close> on, at which a list of flags is true.\<close>

fun idx :: "nat \<Rightarrow> bool list \<Rightarrow> nat list" where
  "idx n [] = []"
| "idx n (b # bs) = (if b then n # idx (Suc n) bs else idx (Suc n) bs)"

lemma idx_append: "idx n (bs @ cs) = idx n bs @ idx (n + length bs) cs"
  by (induction bs arbitrary: n) simp_all

lemma idx_false: "idx n (replicate k False) = []"
  by (induction k arbitrary: n) simp_all

lemma idx_filter: "idx n bs = filter (\<lambda>i. bs ! (i - n)) [n..<n + length bs]"
proof (induction bs arbitrary: n)
  case (Cons b bs)
  have "filter (\<lambda>i. (b # bs) ! (i - n)) [Suc n..<Suc n + length bs] = filter (\<lambda>i. bs ! (i - Suc n)) [Suc n..<Suc n + length bs]"
    by (rule filter_cong) (auto simp: nth_Cons')
  moreover have "[n..<n + length (b # bs)] = n # [Suc n..<Suc n + length bs]" by (simp add: upt_conv_Cons del: upt_Suc)
  ultimately show ?case using Cons.IH [of "Suc n"] by (cases b) (simp_all del: upt_Suc)
qed simp

text \<open>Closing a socket that the call opens does not fail.\<close>

definition closable :: "pyexc + int \<times> sock_plan \<Rightarrow> bool" where
  "closable a \<longleftrightarrow> (case a of Inl e \<Rightarrow> True | Inr (fd, p) \<Rightarrow> sp_close p = None)"

definition close_succeeds :: "nat \<Rightarrow> 'x net_world_scheme \<Rightarrow> bool" where
  "close_succeeds n w \<longleftrightarrow> list_all (\<lambda>c. c = None) (drop n (closes w)) \<and> list_all closable (socket_answers w)"

definition keeps_open :: "nat \<Rightarrow> bool list \<Rightarrow> bool list \<Rightarrow> nat list \<Rightarrow> server list \<Rightarrow> server_world \<Rightarrow> bool" where
  "keeps_open n os fl bs svs w \<longleftrightarrow>
     opens w = os @ fl \<and> n = length os \<and> binding w = bs \<and> servers w = svs \<and> close_succeeds n w"

lemma opens_update: "opens (w\<lparr>socks := (socks w)[i := s]\<rparr>) = (opens w)[i := ns_open s]"
  by (simp add: opens_def map_update)

lemma closes_touch:
  "sp_close (ns_plan s) = sp_close (ns_plan (socks w ! i)) \<Longrightarrow> closes (w\<lparr>socks := (socks w)[i := s]\<rparr>) = closes w"
  by (simp add: closes_def map_touch)

interpretation kp: sock_frame "keeps_open n os fl bs svs" for n os fl bs svs
  by unfold_locales (auto simp: keeps_open_def close_succeeds_def)

lemmas keeps_calls [py_inv_rules] = kp.keep_calls

lemma keeps_set_options [py_inv_rules]: "py_inv (keeps_open n os fl bs svs) (set_options a af i)"
  unfolding set_options_def set_reuseport_def by (intro py_inv_rules)

lemma keeps_setblocking_all [py_inv_rules]: "py_inv (keeps_open n os fl bs svs) (setblocking_all is)"
  by (induction "is") (auto intro: py_inv_rules)

lemma keeps_gather_infos [py_inv_rules]: "py_inv (keeps_open n os fl bs svs) (gather_infos E hs a)"
  by (induction hs) (auto simp: create_server_getaddrinfo_def intro!: py_inv_rules)

lemma keeps_open_length: "keeps_open n os fl bs svs w \<Longrightarrow> length (socks w) = n + length fl"
  by (metis keeps_open_def length_append length_map opens_def)

lemma wp_k_socket_keeps:
  assumes "keeps_open n os fl bs svs w" and "\<And>e w'. keeps_open n os fl bs svs w' \<Longrightarrow> X e w'"
    and "\<And>w'. keeps_open n os (fl @ [True]) bs svs w' \<Longrightarrow> Q (n + length fl) w'"
  shows "wp (k_socket fam ty prot) Q X w"
proof -
  note len = keeps_open_length [OF assms(1)]
  have ok: "Q (n + length fl) (w\<lparr>socket_answers := rest, socks := socks w @ [new_sock fam ty prot fd p]\<rparr>)"
    if "socket_answers w = Inr (fd, p) # rest" for rest fd p
    using assms(1) that len
    by (intro assms(3)) (auto simp: keeps_open_def opens_def close_succeeds_def closes_def new_sock_def closable_def)
  have bad: "X e (w\<lparr>socket_answers := rest\<rparr>)" if "socket_answers w = Inl e # rest" for e rest
    using assms(1) that by (intro assms(2)) (auto simp: keeps_open_def close_succeeds_def)
  show ?thesis using ok bad assms(1,2) len
    by (auto simp: k_socket_def wp_rules split: list.split sum.split)
qed

text \<open>Closing the socket at position \<open>n + length fl\<close>.\<close>

lemma wp_k_close_keeps:
  assumes "keeps_open n os (fl @ b # gl) bs svs w" and "\<And>w'. keeps_open n os (fl @ False # gl) bs svs w' \<Longrightarrow> Q () w'"
  shows "wp (k_close (n + length fl)) Q X w"
proof -
  let ?i = "n + length fl"
  let ?w = "w\<lparr>socks := (socks w)[?i := (socks w ! ?i)\<lparr>ns_open := False\<rparr>]\<rparr>"
  have len: "?i < length (socks w)" using keeps_open_length [OF assms(1)] by simp
  have "keeps_open n os (fl @ False # gl) bs svs ?w"
    using assms(1) by (auto simp: keeps_open_def close_succeeds_def opens_update closes_touch list_update_append)
  moreover have "sp_close (ns_plan (socks w ! ?i)) = None"
    using assms(1) len by (auto simp: keeps_open_def close_succeeds_def closes_def list_all_length)
  ultimately show ?thesis using len assms(2) by (simp add: k_close_def upd_sock_def wp_rules)
qed

lemma wp_close_all:
  assumes "keeps_open n os (replicate k False @ fl) bs svs w"
    and "\<And>w'. keeps_open n os (replicate (k + length fl) False) bs svs w' \<Longrightarrow> Q () w'"
  shows "wp (close_all (idx (n + k) fl)) Q X w"
  using assms
proof (induction fl arbitrary: k w)
  case Nil
  then show ?case by (simp add: wp_rules)
next
  case (Cons b fl)
  have next_step: "wp (close_all (idx (n + Suc k) fl)) Q X v" if "keeps_open n os (replicate k False @ False # fl) bs svs v" for v
    using that Cons.prems(2) by (intro Cons.IH [of "Suc k"]) (simp_all add: replicate_app_Cons_same)
  show ?case
  proof (cases b)
    case True
    have "wp (k_close (n + length (replicate k False))) (\<lambda>_. wp (close_all (idx (n + Suc k) fl)) Q X) X w"
      using Cons.prems(1) by (rule wp_k_close_keeps) (rule next_step)
    with True show ?thesis by (simp add: wp_rules)
  next
    case False
    with Cons.prems(1) next_step [of w] show ?thesis by simp
  qed
qed

text \<open>While the addresses are bound, the list \<open>sockets\<close> is the list of the open new sockets.\<close>

definition tidy :: "bool list \<Rightarrow> server list \<Rightarrow> server_world \<Rightarrow> bool" where
  "tidy os svs w \<longleftrightarrow> (\<exists>fl. keeps_open (length os) os fl (idx (length os) fl) svs w)"

lemma keeps_binding: "keeps_open n os fl bs svs w \<Longrightarrow> keeps_open n os fl bs' svs (w\<lparr>binding := bs'\<rparr>)"
  by (auto simp: keeps_open_def close_succeeds_def opens_def closes_def)

lemma tidyI: "keeps_open (length os) os fl (idx (length os) fl) svs w \<Longrightarrow> tidy os svs w"
  by (auto simp: tidy_def)

lemma tidy_bind_all [py_inv_rules]: "py_inv (tidy os svs) (bind_all E a infos)"
proof (induction infos)
  case (Cons res rest)
  let ?n = "length os" and ?I = "tidy os svs"
  have rest: "wp (bind_all E a rest) (\<lambda>_. ?I) (\<lambda>_. ?I) v"
    if "keeps_open ?n os fl (idx ?n fl) svs v" for fl v
    using Cons.IH tidyI [OF that] by (simp add: py_inv_def)
  show ?case
  proof (rule py_invI)
    fix w assume "?I w"
    then obtain fl where fl: "keeps_open ?n os fl (idx ?n fl) svs w" by (auto simp: tidy_def)
    let ?i = "?n + length fl" and ?K = "keeps_open ?n os (fl @ [True]) (idx ?n (fl @ [True])) svs"
    have drop_sock: "wp (k_close ?i) (\<lambda>_. wp (bind_all E a rest) (\<lambda>_. ?I) (\<lambda>_. ?I)) (\<lambda>_. ?I) (v\<lparr>binding := butlast (binding v)\<rparr>)"
      if "?K v" for v
    proof (rule wp_k_close_keeps [where gl = "[]"])
      show "keeps_open ?n os (fl @ [True]) (idx ?n fl) svs (v\<lparr>binding := butlast (binding v)\<rparr>)"
        using that by (simp add: keeps_open_def close_succeeds_def opens_def closes_def idx_append)
      show "wp (bind_all E a rest) (\<lambda>_. ?I) (\<lambda>_. ?I) v'" if "keeps_open ?n os (fl @ [False]) (idx ?n fl) svs v'" for v'
        using that by (intro rest [of "fl @ [False]"]) (simp add: idx_append)
    qed
    have bound: "wp (k_bind ?i (ai_addr res)) (\<lambda>_. wp (bind_all E a rest) (\<lambda>_. ?I) (\<lambda>_. ?I))
        (\<lambda>e. wp (if \<not> is_oserror e then py_raise e
              else if os_errno e = 99
              then py_seq (py_mod (\<lambda>w. w\<lparr>binding := butlast (binding w)\<rparr>)) (py_seq (k_close ?i) (bind_all E a rest))
              else py_raise (bind_error E (ai_addr res) e)) (\<lambda>_. ?I) (\<lambda>_. ?I)) v" if "?K v" for v
      by (rule py_inv_wp [OF kp.keep_k_bind that]) (auto simp: wp_rules intro!: rest drop_sock tidyI)
    have added: "?K (v\<lparr>binding := binding v @ [?i]\<rparr>)" if "keeps_open ?n os (fl @ [True]) (idx ?n fl) svs v" for v
      using keeps_binding [OF that] that by (simp add: idx_append keeps_open_def)
    show "wp (bind_all E a (res # rest)) (\<lambda>_. ?I) (\<lambda>_. ?I) w"
      unfolding bind_all.simps wp_try_else wp_seq wp_mod
    proof (rule wp_k_socket_keeps [OF fl], goal_cases)
      case (1 e w')
      then show ?case by (auto simp: wp_rules intro: rest tidyI)
    next
      case (2 w')
      show ?case by (rule py_inv_wp [OF keeps_set_options added [OF 2]]) (erule bound, erule tidyI)
    qed
  qed
qed (simp add: py_inv_rules)

lemma wp_bind_or_close:
  assumes "tidy os svs w"
  shows "wp (bind_or_close E a infos)
    (\<lambda>sks w'. sks \<noteq> [] \<and> (\<exists>fl. sks = idx (length os) fl \<and> keeps_open (length os) os fl sks svs w'))
    (\<lambda>e w'. \<exists>k bs. keeps_open (length os) os (replicate k False) bs svs w') w"
proof -
  have clean: "wp (close_all (binding v)) (\<lambda>_. wp (py_raise e) Q X) X v"
    if v: "tidy os svs v" and X: "\<And>w' k bs. keeps_open (length os) os (replicate k False) bs svs w' \<Longrightarrow> X e w'" for e Q X v
  proof -
    from v obtain fl where fl: "keeps_open (length os) os fl (idx (length os) fl) svs v" by (auto simp: tidy_def)
    then have b: "binding v = idx (length os + 0) fl" by (simp add: keeps_open_def)
    show ?thesis unfolding b wp_raise
      by (rule wp_close_all [where bs = "idx (length os) fl"]) (use fl X in auto)
  qed
  show ?thesis unfolding bind_or_close_def wp_try wp_seq
  proof (rule py_inv_wp [OF tidy_bind_all assms], goal_cases)
    case (1 u v)
    then obtain fl where fl: "keeps_open (length os) os fl (idx (length os) fl) svs v" by (auto simp: tidy_def)
    then have b: "binding v = idx (length os) fl" by (simp add: keeps_open_def)
    show ?case unfolding wp_with wp_if_val wp_seq b
      by (simp add: wp_raise wp_ret) (use fl 1 in \<open>auto intro!: clean\<close>)
  next
    case (2 e v)
    then show ?case unfolding wp_with by (rule clean) blast
  qed
qed

section \<open>create_server\<close>

lemma keeps_listen_all [py_inv_rules]: "py_inv (keeps_open n os fl bs svs) (listen_all is)"
  by (induction "is") (auto simp: k_listen_def start_serving_def intro!: py_inv_rules)

lemma keeps_check_ssl_socket [py_inv_rules]: "py_inv (keeps_open n os fl bs svs) (check_ssl_socket s)"
  unfolding check_ssl_socket_def by (intro py_inv_rules)

lemma wp_setblocking_all:
  "keeps_open n os fl bs svs w \<Longrightarrow> wp (setblocking_all is) (\<lambda>_. keeps_open n os fl bs svs) X w"
proof (induction "is" arbitrary: w)
  case (Cons i js)
  show ?case unfolding setblocking_all.simps wp_seq
    using wp_no_raise [OF kp.keep_k_setblocking Cons.prems, of i X]
    by (rule wp_mono) (auto simp: k_setblocking_def upd_sock_def py_mod_def intro: Cons.IH)
qed (simp add: wp_rules)

lemma keeps_none: "keeps_open n os [] bs svs w \<Longrightarrow> \<exists>k bs. keeps_open n os (replicate k False) bs svs w"
  by (intro exI [of _ 0] exI [of _ bs]) simp

lemma wp_server_sockets:
  assumes "keeps_open (length os) os [] bs svs w" and "sa_sock a = None"
  shows "wp (server_sockets E order a)
    (\<lambda>sks w'. sks \<noteq> [] \<and> (\<exists>fl. sks = idx (length os) fl \<and> keeps_open (length os) os fl sks svs w'))
    (\<lambda>e w'. \<exists>k bs. keeps_open (length os) os (replicate k False) bs svs w') w"
proof -
  have none: "\<exists>k bs. keeps_open (length os) os (replicate k False) bs svs v" if "keeps_open (length os) os [] bs svs v" for v
    using that by (rule keeps_none)
  have "tidy os svs (v\<lparr>binding := []\<rparr>)" if "keeps_open (length os) os [] bs svs v" for v
    using keeps_binding [OF that, of "[]"] by (intro tidyI [of os "[]"]) simp
  then show ?thesis unfolding server_sockets_def assms(2)
    by (auto simp: wp_rules none assms(1) intro!: py_inv_wp [OF keeps_gather_infos assms(1)] wp_bind_or_close)
qed

text \<open>The server that a call makes and the state it leaves the sockets in.\<close>

definition one_server :: "bool \<Rightarrow> nat \<Rightarrow> bool \<Rightarrow> bool list \<Rightarrow> server list \<Rightarrow> pyexc + nat \<Rightarrow> server_world \<Rightarrow> bool" where
  "one_server tls backlog start os svs r w' \<longleftrightarrow>
     (\<exists>fl. opens w' = os @ fl \<and> idx (length os) fl \<noteq> [] \<and>
        servers w' = svs @ [\<lparr>sv_socks = idx (length os) fl, sv_backlog = backlog, sv_ssl = tls, sv_serving = start\<rparr>]) \<and>
     (case r of Inl e \<Rightarrow> start | Inr n \<Rightarrow> n = length svs)"

lemma keeps_servers: "keeps_open n os fl bs svs w \<Longrightarrow> keeps_open n os fl bs svs' (w\<lparr>servers := svs'\<rparr>)"
  by (auto simp: keeps_open_def close_succeeds_def opens_def closes_def)

lemma wp_serve:
  assumes "keeps_open (length os) os fl bs svs w" and "idx (length os) fl \<noteq> []"
  shows "wp (serve (idx (length os) fl) tls backlog start)
    (\<lambda>n. one_server tls backlog start os svs (Inr n)) (\<lambda>e. one_server tls backlog start os svs (Inl e)) w"
proof -
  let ?sv = "\<lparr>sv_socks = idx (length os) fl, sv_backlog = backlog, sv_ssl = tls, sv_serving = False\<rparr>"
  let ?K = "\<lambda>b. keeps_open (length os) os fl bs (svs @ [?sv\<lparr>sv_serving := b\<rparr>])"
  let ?one = "one_server tls backlog start os svs"
  have svs: "servers w = svs" using assms(1) by (simp add: keeps_open_def)
  have settled: "?one r v" if "?K start v" "case r of Inl e \<Rightarrow> start | Inr n \<Rightarrow> n = length svs" for r v
    using that assms(2) by (auto simp: one_server_def keeps_open_def)
  have listening: "wp (listen_all is) (\<lambda>_. wp (py_ret (length svs)) (\<lambda>n. ?one (Inr n)) (\<lambda>e. ?one (Inl e))) (\<lambda>e. ?one (Inl e)) v"
    if "?K True v" "start" for v "is"
    unfolding wp_ret by (rule py_inv_wp [OF keeps_listen_all that(1)]) (use that(2) settled in auto)
  have 1: "?K False (w\<lparr>servers := svs @ [?sv]\<rparr>)" and 2: "?K True (w\<lparr>servers := svs @ [?sv\<lparr>sv_serving := True\<rparr>]\<rparr>)"
    using keeps_servers [OF assms(1), of "svs @ [?sv]"] keeps_servers [OF assms(1), of "svs @ [?sv\<lparr>sv_serving := True\<rparr>]"] by simp_all
  show ?thesis
  proof (cases start)
    case True
    then show ?thesis using listening [OF 2 True]
      by (simp add: wp_rules serve_def new_server_def server_start_serving_def svs)
  next
    case False
    then show ?thesis using settled [of "w\<lparr>servers := svs @ [?sv]\<rparr>" "Inr (length svs)"] 1
      by (simp add: wp_rules serve_def new_server_def svs)
  qed
qed

lemma wp_create_server:
  assumes "keeps_open (length os) os [] bs svs w" and "sa_sock a = None"
  shows "wp (create_server E order a)
    (\<lambda>n. one_server (sa_ssl a \<noteq> NoSsl) (sa_backlog a) (sa_start_serving a) os svs (Inr n))
    (\<lambda>e w'. one_server (sa_ssl a \<noteq> NoSsl) (sa_backlog a) (sa_start_serving a) os svs (Inl e) w' \<or>
       (\<exists>k bs. keeps_open (length os) os (replicate k False) bs svs w')) w"
proof -
  let ?one = "one_server (sa_ssl a \<noteq> NoSsl) (sa_backlog a) (sa_start_serving a) os svs"
  let ?X = "\<lambda>e w'. ?one (Inl e) w' \<or> (\<exists>k bs. keeps_open (length os) os (replicate k False) bs svs w')"
  let ?serve = "\<lambda>sks. serve sks (sa_ssl a \<noteq> NoSsl) (sa_backlog a) (sa_start_serving a)"
  have rest: "wp (py_seq (setblocking_all sks) (?serve sks)) (\<lambda>n. ?one (Inr n)) ?X v"
    if "sks \<noteq> []" "sks = idx (length os) fl" "keeps_open (length os) os fl sks svs v" for sks fl v
    unfolding wp_seq
  proof (rule wp_mono [OF wp_setblocking_all [OF that(3)]], goal_cases)
    case (1 u v')
    with that have "idx (length os) fl \<noteq> []" by simp
    from wp_serve [OF 1 this] show ?case unfolding that(2) by (rule wp_mono) auto
  qed auto
  have main: "wp (py_bind (server_sockets E order a) (\<lambda>sks. py_seq (setblocking_all sks) (?serve sks))) (\<lambda>n. ?one (Inr n)) ?X w"
    unfolding wp_bind by (rule wp_mono [OF wp_server_sockets [OF assms]]) (blast intro: rest, blast)
  show ?thesis unfolding create_server_def wp_seq wp_check assms(2) check_ssl_socket_def
    using main keeps_none [OF assms(1)] by (auto simp: wp_rules split: sum.split)
qed

text \<open>The new sockets that are open.\<close>

definition new_open :: "'x net_world_scheme \<Rightarrow> 'x net_world_scheme \<Rightarrow> nat list" where
  "new_open w w' = filter (\<lambda>i. ns_open (socks w' ! i)) [length (socks w)..<length (socks w')]"

lemma idx_new_open:
  assumes "opens w' = opens w @ fl"
  shows "idx (length (opens w)) fl = new_open w w'"
proof -
  have len: "length (socks w') = length (socks w) + length fl"
    using arg_cong [OF assms, of length] by (simp add: opens_def)
  have "ns_open (socks w' ! i) \<longleftrightarrow> fl ! (i - length (socks w))" if "length (socks w) \<le> i" "i < length (socks w')" for i
    using arg_cong [OF assms, of "\<lambda>xs. xs ! i"] that by (simp add: opens_def nth_append)
  then show ?thesis unfolding idx_filter new_open_def opens_def length_map len
    using len by (intro filter_cong) auto
qed

text \<open>
  C22. \<open>create_server\<close> on a host and a port accounts for every socket it opens, whatever the
  resolver, \<open>socket\<close>, \<open>setsockopt\<close>, \<open>bind\<close> and \<open>listen\<close> answer (closing a new socket must
  not fail). Either it raises, all the sockets it opened are closed and there is no new server; or
  there is one new server, which has at least one socket and whose sockets are exactly the new
  sockets that are open. In the second case the call returns that server, unless it was asked to
  start serving and that failed: then it raises and the server keeps its open sockets.
\<close>

theorem create_server_accounts_sockets:
  assumes "sa_sock a = None" and "close_succeeds (length (socks w)) w" and "create_server E order a w = (r, w')"
  shows "take (length (opens w)) (opens w') = opens w \<and>
    ((\<exists>e. r = Inl e) \<and> new_open w w' = [] \<and> servers w' = servers w \<or>
     (\<exists>sv. servers w' = servers w @ [sv] \<and> sv_socks sv = new_open w w' \<and> new_open w w' \<noteq> [] \<and>
        sv_serving sv = sa_start_serving a \<and>
        (case r of Inl e \<Rightarrow> sa_start_serving a | Inr n \<Rightarrow> n = length (servers w))))"
proof -
  let ?one = "one_server (sa_ssl a \<noteq> NoSsl) (sa_backlog a) (sa_start_serving a) (opens w) (servers w)"
  have "keeps_open (length (opens w)) (opens w) [] (binding w) (servers w) w"
    using assms(2) by (simp add: keeps_open_def opens_def)
  from wp_create_server [OF this assms(1), of E order] assms(3)
  have "?one r w' \<or>
      (\<exists>e k bs. r = Inl e \<and> keeps_open (length (opens w)) (opens w) (replicate k False) bs (servers w) w')"
    by (cases r) (auto simp: wp_def)
  then show ?thesis
  proof
    assume "?one r w'"
    then obtain fl where fl: "opens w' = opens w @ fl" "idx (length (opens w)) fl \<noteq> []"
      "servers w' = servers w @ [\<lparr>sv_socks = idx (length (opens w)) fl, sv_backlog = sa_backlog a,
         sv_ssl = (sa_ssl a \<noteq> NoSsl), sv_serving = sa_start_serving a\<rparr>]"
      "case r of Inl e \<Rightarrow> sa_start_serving a | Inr n \<Rightarrow> n = length (servers w)"
      by (auto simp: one_server_def)
    with idx_new_open [OF fl(1)] show ?thesis by simp
  next
    assume "\<exists>e k bs. r = Inl e \<and> keeps_open (length (opens w)) (opens w) (replicate k False) bs (servers w) w'"
    then obtain e k where "r = Inl e" "opens w' = opens w @ replicate k False" "servers w' = servers w"
      by (auto simp: keeps_open_def)
    with idx_new_open [of w' w "replicate k False"] idx_false show ?thesis by simp
  qed
qed

definition sample_server_args :: server_args where
  "sample_server_args =
     \<lparr>sa_host = OneHost (Some ''host''), sa_port = Some 80, sa_family = 0, sa_flags = 1, sa_sock = None, sa_backlog = 100,
      sa_ssl = NoSsl, sa_reuse_address = None, sa_reuse_port = False, sa_keep_alive = False, sa_handshake_timeout = None,
      sa_shutdown_timeout = None, sa_start_serving = False\<rparr>"

definition binding_world :: server_world where
  "binding_world = (sample_server_world 1 [])
     \<lparr>socket_answers := [Inr (8, idle_plan), Inr (9, idle_plan\<lparr>sp_bind := [Some (OSError 99 ''Cannot assign requested address'')]\<rparr>)]\<rparr>"

theorem create_server_accounts_sockets_witness:
  "\<exists>r w'. create_server sample_env (\<lambda>infos. infos) sample_server_args binding_world = (r, w') \<and>
    ((\<exists>e. r = Inl e) \<and> new_open binding_world w' = [] \<and> servers w' = servers binding_world \<or>
     (\<exists>sv. servers w' = servers binding_world @ [sv] \<and> sv_socks sv = new_open binding_world w' \<and> r = Inr 1))"
proof -
  obtain r w' where r: "create_server sample_env (\<lambda>infos. infos) sample_server_args binding_world = (r, w')" by fastforce
  have "close_succeeds (length (socks binding_world)) binding_world" "length (servers binding_world) = 1"
    by (simp_all add: close_succeeds_def closes_def closable_def binding_world_def sample_server_defs idle_plan_def)
  with create_server_accounts_sockets [OF _ _ r] r show ?thesis
    by (cases r) (auto simp: sample_server_args_def)
qed

section \<open>create_unix_server\<close>

lemma keeps_stat [py_inv_rules]: "py_inv (keeps_open n os fl bs svs) k_stat"
  unfolding k_stat_def
  by (intro py_inv_rules py_inv_mod) (auto simp: keeps_open_def close_succeeds_def opens_def closes_def)

lemma keeps_remove [py_inv_rules]: "py_inv (keeps_open n os fl bs svs) k_remove"
  unfolding k_remove_def
  by (intro py_inv_rules py_inv_mod) (auto simp: keeps_open_def close_succeeds_def opens_def closes_def)

lemma wp_remove_stale:
  assumes "keeps_open n os fl bs svs w"
  shows "wp remove_stale (\<lambda>_. keeps_open n os fl bs svs) (\<lambda>e w'. keeps_open n os fl bs svs w' \<and> \<not> is_oserror e) w"
proof -
  have "py_inv (keeps_open n os fl bs svs) (py_bind k_stat (\<lambda>(issock, ino). if issock then k_remove else py_ret ()))"
    by (intro py_inv_rules)
  then show ?thesis unfolding remove_stale_def wp_try using assms
    by (rule py_inv_wp) (auto simp: wp_rules)
qed

lemma on_filesystem_error: "on_filesystem p = Inl e \<Longrightarrow> e = IndexError ''string index out of range''"
  by (cases p rule: on_filesystem.cases) auto

lemma wp_note_inode:
  assumes "keeps_open n os fl bs svs w"
  shows "wp (note_inode i) (\<lambda>_. keeps_open n os fl bs svs) (\<lambda>e w'. keeps_open n os fl bs svs w' \<and> e \<noteq> FileNotFoundError) w"
proof -
  have "py_inv (keeps_open n os fl bs svs) (py_bind k_stat (\<lambda>(issock, ino).
      on_nw (py_mod (\<lambda>v. v\<lparr>unix_server_sockets := AList.update i ino (unix_server_sockets v)\<rparr>))))"
    by (intro py_inv_rules)
  then have "wp (py_try (py_bind k_stat (\<lambda>(issock, ino).
        on_nw (py_mod (\<lambda>v. v\<lparr>unix_server_sockets := AList.update i ino (unix_server_sockets v)\<rparr>))))
      (\<lambda>e. if e = FileNotFoundError then py_ret () else py_raise e))
      (\<lambda>_. keeps_open n os fl bs svs) (\<lambda>e w'. keeps_open n os fl bs svs w' \<and> e \<noteq> FileNotFoundError) w"
    unfolding wp_try using assms by (rule py_inv_wp) (auto simp: wp_rules)
  with assms show ?thesis unfolding note_inode_def wp_with wp_bind wp_check
    by (auto simp: wp_if_val wp_ret dest: on_filesystem_error split: sum.split)
qed

text \<open>A socket that nobody owns is left only by an exception between \<open>socket\<close> and \<open>bind\<close>, or by
  one of \<open>note_inode\<close> after it.\<close>

lemma wp_bind_unix:
  assumes "keeps_open (length os) os [True] bs svs w"
  shows "wp (bind_unix E (length os) path) (\<lambda>_. keeps_open (length os) os [True] bs svs)
    (\<lambda>e. keeps_open (length os) os [False] bs svs) w"
proof -
  let ?K = "keeps_open (length os) os"
  have closed: "wp (k_close (length os)) (\<lambda>_. wp (if is_oserror e \<and> os_errno e = 98
          then py_raise (os_error 98 (''Address '' @ repr_addr E path @ '' is already in use'')) else py_raise e)
        (\<lambda>_. ?K [True] bs svs) (\<lambda>e. ?K [False] bs svs)) (\<lambda>e. ?K [False] bs svs) v" if "?K [True] bs svs v" for e v
    using wp_k_close_keeps [of "length os" os "[]" True "[]" bs svs v] that by (simp add: wp_rules)
  show ?thesis unfolding bind_unix_def wp_try wp_seq
    by (rule py_inv_wp [OF kp.keep_k_bind assms]) (assumption, erule closed)
qed

text \<open>Why the socket of a unix server may be left without an owner.\<close>

definition unix_leak :: "unix_args \<Rightarrow> pyexc \<Rightarrow> bool" where
  "unix_leak a e \<longleftrightarrow> (\<exists>p. ua_path a = Some p \<and> on_filesystem p = Inl e) \<or>
     ua_cleanup_socket a \<and> e \<noteq> FileNotFoundError \<or> \<not> is_oserror e"

lemma wp_unix_server_socket:
  assumes "keeps_open (length os) os [] bs svs w" and "ua_sock a = None"
  shows "wp (unix_server_socket E a) (\<lambda>i w'. i = length os \<and> keeps_open (length os) os [True] bs svs w')
    (\<lambda>e w'. (\<exists>k. keeps_open (length os) os (replicate k False) bs svs w') \<or>
       keeps_open (length os) os [True] bs svs w' \<and> unix_leak a e) w"
proof -
  let ?K = "\<lambda>fl. keeps_open (length os) os fl bs svs" and ?n = "length os"
  let ?Q = "\<lambda>i w'. i = ?n \<and> ?K [True] w'" and ?X = "\<lambda>e w'. (\<exists>k. ?K (replicate k False) w') \<or> ?K [True] w' \<and> unix_leak a e"
  have zero: "\<exists>k. ?K (replicate k False) v" if "?K [] v" for v using that by (intro exI [of _ 0]) simp
  have bound: "wp (py_seq (bind_unix E ?n p) (py_ret ?n)) ?Q ?X v" if "?K [True] v" for p v
    unfolding wp_seq wp_ret
    by (rule wp_mono [OF wp_bind_unix [OF that]]) (auto intro: exI [of _ "Suc 0"])
  have stale: "wp (py_seq (if fs then remove_stale else py_ret ()) (py_seq (bind_unix E ?n p) (py_ret ?n))) ?Q ?X v"
    if "?K [True] v" for fs p v
    unfolding wp_seq [of "if fs then remove_stale else py_ret ()"] wp_if_val wp_ret
    using wp_mono [OF wp_remove_stale [OF that], of "\<lambda>_. wp (py_seq (bind_unix E ?n p) (py_ret ?n)) ?Q ?X" ?X] bound that
    by (auto simp: unix_leak_def)
  show ?thesis
  proof (cases "ua_path a")
    case None
    with zero [OF assms(1)] show ?thesis by (simp add: unix_server_socket_def assms(2) wp_rules)
  next
    case (Some p)
    have eq: "unix_server_socket E a = py_bind (k_socket 1 1 0) (\<lambda>i. py_bind (py_check (\<lambda>_. on_filesystem p)) (\<lambda>fs.
        py_seq (if fs then remove_stale else py_ret ()) (py_seq (bind_unix E i p) (py_ret i))))"
      by (simp add: unix_server_socket_def Some assms(2))
    show ?thesis unfolding eq wp_bind wp_check
    proof (rule wp_k_socket_keeps [OF assms(1)], goal_cases)
      case (1 e w')
      with zero show ?case by blast
    next
      case (2 w')
      then have K: "?K [True] w'" by simp
      show ?case
      proof (cases "on_filesystem p")
        case (Inl e)
        with K show ?thesis by (auto simp: unix_leak_def Some)
      next
        case (Inr fs)
        show ?thesis unfolding Inr sum.case list.size add_0_right by (rule stale [OF K])
      qed
    qed
  qed
qed

lemma opens_on_nw: "py_inv (\<lambda>w. opens w = os) (on_nw m)"
  by (auto simp: py_inv_def wp_state on_nw_def split: prod.split)

lemma opens_listen_all: "py_inv (\<lambda>w. opens w = os) (listen_all is)"
  by (induction "is") (auto simp: k_listen_def start_serving_def intro!: py_inv_rules opens_on_nw)

lemma opens_servers [simp]: "opens (w\<lparr>servers := svs\<rparr>) = opens w"
  by (simp add: opens_def)

lemma wp_create_unix_server:
  assumes "keeps_open (length os) os [] bs svs w" and "ua_sock a = None"
  shows "wp (create_unix_server E a)
    (\<lambda>n w'. opens w' = os @ [True] \<and> one_server (ua_ssl a \<noteq> NoSsl) (ua_backlog a) (ua_start_serving a) os svs (Inr n) w')
    (\<lambda>e w'. (\<exists>k. keeps_open (length os) os (replicate k False) bs svs w') \<or>
       keeps_open (length os) os [True] bs svs w' \<and> unix_leak a e \<or>
       opens w' = os @ [True] \<and> one_server (ua_ssl a \<noteq> NoSsl) (ua_backlog a) (ua_start_serving a) os svs (Inl e) w') w"
proof -
  let ?K = "\<lambda>fl. keeps_open (length os) os fl bs svs" and ?n = "length os"
  let ?one = "one_server (ua_ssl a \<noteq> NoSsl) (ua_backlog a) (ua_start_serving a) os svs"
  let ?Q = "\<lambda>n w'. opens w' = os @ [True] \<and> ?one (Inr n) w'"
  let ?X = "\<lambda>e w'. (\<exists>k. ?K (replicate k False) w') \<or> ?K [True] w' \<and> unix_leak a e \<or> opens w' = os @ [True] \<and> ?one (Inl e) w'"
  let ?serve = "serve [?n] (ua_ssl a \<noteq> NoSsl) (ua_backlog a) (ua_start_serving a)"
  have served: "wp ?serve ?Q ?X v" if "?K [True] v" for v
  proof -
    have "wp ?serve (\<lambda>n w'. ?one (Inr n) w') (\<lambda>e w'. ?one (Inl e) w') v"
      using wp_serve [OF that, of "ua_ssl a \<noteq> NoSsl" "ua_backlog a" "ua_start_serving a"] by simp
    moreover have "py_inv (\<lambda>w. opens w = os @ [True]) ?serve"
      by (auto simp: serve_def new_server_def server_start_serving_def intro!: py_inv_rules py_inv_mod opens_listen_all)
    then have "wp ?serve (\<lambda>_ w. opens w = os @ [True]) (\<lambda>_ w. opens w = os @ [True]) v"
      using that by (simp add: py_inv_def keeps_open_def)
    ultimately show ?thesis by (rule wp_mono [OF wp_conj]) auto
  qed
  have blocked: "wp (py_seq (k_setblocking ?n) ?serve) ?Q ?X v" if "?K [True] v" for v
    unfolding wp_seq using wp_no_raise [OF kp.keep_k_setblocking that, of ?n ?X]
    by (rule wp_mono) (auto simp: k_setblocking_def upd_sock_def py_mod_def intro: served)
  have noted: "wp (py_seq (if ua_cleanup_socket a then note_inode ?n else py_ret ()) (py_seq (k_setblocking ?n) ?serve)) ?Q ?X v"
    if "?K [True] v" for v
  proof (cases "ua_cleanup_socket a")
    case True
    have "wp (note_inode ?n) (\<lambda>_. wp (py_seq (k_setblocking ?n) ?serve) ?Q ?X) ?X v"
      by (rule wp_mono [OF wp_note_inode [OF that]]) (erule blocked, simp add: unix_leak_def True)
    with True show ?thesis by (simp only: if_True wp_seq [of "note_inode ?n"])
  next
    case False
    with blocked [OF that] show ?thesis by (simp only: if_False wp_seq [of "py_ret ()"] wp_ret)
  qed
  have main: "wp (py_bind (unix_server_socket E a) (\<lambda>i. py_seq (if ua_cleanup_socket a then note_inode i else py_ret ())
      (py_seq (k_setblocking i) (serve [i] (ua_ssl a \<noteq> NoSsl) (ua_backlog a) (ua_start_serving a))))) ?Q ?X w"
    unfolding wp_bind by (rule wp_mono [OF wp_unix_server_socket [OF assms]]) (use noted in blast)+
  have "\<exists>k. ?K (replicate k False) w" using assms(1) by (intro exI [of _ 0]) simp
  then show ?thesis unfolding create_unix_server_def wp_seq [of "py_check _"] wp_check
    using main by (auto split: sum.split)
qed


definition sample_unix_args :: "bytes \<Rightarrow> unix_args" where
  "sample_unix_args path =
     \<lparr>ua_path = Some (PathAddr path), ua_sock = None, ua_backlog = 100, ua_ssl = NoSsl, ua_handshake_timeout = None,
      ua_shutdown_timeout = None, ua_start_serving = False, ua_cleanup_socket = True\<rparr>"


end
