(* ===== verification/Datagram_Transport.thy ===== *)
theory Datagram_Transport
  imports Socket_Properties
begin

text \<open>
  \<open>_SelectorDatagramTransport\<close> of \<^verbatim>\<open>src/python/tokioop/transports.py\<close>.

  \<open>dsend_script\<close> lists what the next \<open>send\<close>/\<open>sendto\<close> calls do (\<open>None\<close> sends the
  datagram, \<open>Some e\<close> raises), \<open>dsent\<close> the datagrams the kernel took with their
  destination (\<open>None\<close> on a connected socket). \<open>peername\<close> is \<open>None\<close> when
  \<open>_extra["peername"]\<close> is false.
\<close>

section \<open>The transport\<close>

type_synonym datagram = "bytes \<times> pyaddr option"

record dgram_transport = "datagram selector_transport" +
  address :: "pyaddr option"
  buffer_size :: int
  dsend_script :: "pyexc option list"
  dsent :: "datagram list"

type_synonym 'a dgram_m = "(dgram_transport, 'a) py"

definition header_size :: int where
  "header_size = 8"

definition dgram_cost :: "datagram \<Rightarrow> int" where
  "dgram_cost g = int (length (fst g)) + header_size"

definition dgram_get_write_buffer_size :: "dgram_transport \<Rightarrow> nat" where
  "dgram_get_write_buffer_size w = nat (buffer_size w)"

text \<open>\<open>self._sock.send(data)\<close> on a connected socket, \<open>self._sock.sendto(data, addr)\<close> otherwise.\<close>

definition dgram_send :: "datagram \<Rightarrow> unit dgram_m" where
  "dgram_send g =
     py_seq need_sock
       (py_with dsend_script (\<lambda>s. case s of
          [] \<Rightarrow> py_raise BlockingIOError
        | a # rest \<Rightarrow>
            py_seq (py_mod (\<lambda>w. w\<lparr>dsend_script := rest\<rparr>))
              (case a of
                 Some e \<Rightarrow> py_raise e
               | None \<Rightarrow> py_mod (\<lambda>w. w\<lparr>dsent := dsent w @
                   [if peername w = None then g else (fst g, None)]\<rparr>))))"

definition dgram_init :: "pyaddr option \<Rightarrow> nat option \<Rightarrow> unit dgram_m" where
  "dgram_init addr waiter =
     py_seq (set_protocol PlainProtocol)
       (py_seq (py_mod (\<lambda>w. w\<lparr>address := addr, buffer_size := 0\<rparr>))
         (py_seq (call_soon_of CbConnectionMade [])
           (py_seq (call_soon_of CbRegisterReader [])
             (case waiter of None \<Rightarrow> py_ret () | Some f \<Rightarrow> call_soon_of (CbSetWaiter f) [ANone]))))"

definition new_dgram_transport ::
  "tcb loop_state \<Rightarrow> int \<Rightarrow> pyaddr option \<Rightarrow> pyexc option list \<Rightarrow> dgram_transport" where
  "new_dgram_transport l fd peer ss =
     selector_transport.extend (init_transport l fd peer None 0 (Some DrainUdp))
       \<lparr>address = None, buffer_size = 0, dsend_script = ss, dsent = []\<rparr>"

section \<open>Reading\<close>

definition deliver_datagram :: "dgram_transport proto \<Rightarrow> bytes \<Rightarrow> pyaddr \<Rightarrow> unit dgram_m" where
  "deliver_datagram P data addr =
     py_try_else (call_protocol P (DatagramReceived data addr))
       (on_error (\<lambda>e. fatal_error P e ''Fatal read error on datagram transport''))
       (\<lambda>_. py_ret ())"

definition dgram_deliver_error :: "dgram_transport proto \<Rightarrow> pyexc \<Rightarrow> unit dgram_m" where
  "dgram_deliver_error P e = py_seq (call_protocol P (ErrorReceived e)) (py_ret ())"

definition dgram_replay_deliver :: "dgram_transport proto \<Rightarrow> replay_item \<Rightarrow> unit dgram_m" where
  "dgram_replay_deliver P it =
     (case it of
        ReplayDatagram d a \<Rightarrow> deliver_datagram P d a
      | ReplayError e \<Rightarrow> dgram_deliver_error P e
      | ReplayStream d \<Rightarrow> py_ret ())"

definition drain_datagram :: "dgram_transport proto \<Rightarrow> bytes \<Rightarrow> pyaddr \<Rightarrow> unit dgram_m" where
  "drain_datagram P data addr =
     py_if (\<lambda>w. conn_lost w \<noteq> 0 \<or> closing w) (py_ret ())
       (py_if paused (py_mod (\<lambda>w. w\<lparr>replay := replay w @ [ReplayDatagram data addr]\<rparr>))
         (deliver_datagram P data addr))"

definition dgram_drain_error :: "dgram_transport proto \<Rightarrow> pyexc \<Rightarrow> unit dgram_m" where
  "dgram_drain_error P e =
     py_if (\<lambda>w. conn_lost w \<noteq> 0 \<or> closing w) (py_ret ())
       (py_if paused (py_mod (\<lambda>w. w\<lparr>replay := replay w @ [ReplayError e]\<rparr>))
         (dgram_deliver_error P e))"

definition dgram_resume_reading :: "dgram_transport proto \<Rightarrow> unit dgram_m" where
  "dgram_resume_reading P = resume_reading (dgram_replay_deliver P)"

section \<open>Writing\<close>

text \<open>The handlers of a failed send: \<open>except OSError\<close> reports, anything else is fatal.\<close>

definition dgram_send_failed :: "dgram_transport proto \<Rightarrow> pyexc \<Rightarrow> unit dgram_m" where
  "dgram_send_failed P e =
     (if is_oserror e then py_seq (call_protocol P (ErrorReceived e)) (py_ret ())
      else on_error (\<lambda>e. fatal_error P e ''Fatal write error on datagram transport'') e)"

definition buffer_datagram :: "dgram_transport proto \<Rightarrow> datagram \<Rightarrow> unit dgram_m" where
  "buffer_datagram P g =
     py_seq (py_mod (\<lambda>w. w\<lparr>buffer := buffer w @ [g], buffer_size := buffer_size w + dgram_cost g\<rparr>))
       (maybe_pause_protocol dgram_get_write_buffer_size P)"

definition sendto :: "dgram_transport proto \<Rightarrow> pydata \<Rightarrow> pyaddr option \<Rightarrow> unit dgram_m" where
  "sendto P x addr0 =
     (case x of
        NotBytes \<Rightarrow> py_raise (TypeError ''data argument must be a bytes-like object'')
      | BytesLike data \<Rightarrow>
          py_with address (\<lambda>self_addr.
            if self_addr \<noteq> None \<and> addr0 \<noteq> None \<and> addr0 \<noteq> self_addr
            then py_raise (ValueError ''Invalid address: must be None or the connected one'')
            else
              let addr = (if self_addr \<noteq> None then self_addr else addr0) in
              py_if (\<lambda>w. conn_lost w \<noteq> 0 \<and> self_addr \<noteq> None) count_lost_write
                (py_if (\<lambda>w. buffer w \<noteq> []) (buffer_datagram P (data, addr))
                  (py_try_else (dgram_send (data, addr))
                    (\<lambda>e. if is_blocking e
                         then py_seq (add_writer_of CbSendtoReady) (buffer_datagram P (data, addr))
                         else dgram_send_failed P e)
                    (\<lambda>_. py_ret ())))))"

text \<open>The loop of \<open>_sendto_ready\<close>. It returns whether to go on with the code after the loop; every
  round takes one datagram off the buffer, so the buffer's length bounds the rounds.\<close>

primrec sendto_loop :: "dgram_transport proto \<Rightarrow> nat \<Rightarrow> bool dgram_m" where
  "sendto_loop P 0 = py_ret True"
| "sendto_loop P (Suc n) =
     py_with buffer (\<lambda>b. case b of
        [] \<Rightarrow> py_ret True
      | g # rest \<Rightarrow>
          py_seq (py_mod (\<lambda>w. w\<lparr>buffer := rest, buffer_size := buffer_size w - dgram_cost g\<rparr>))
            (py_try_else (dgram_send g)
              (\<lambda>e. if is_blocking e
                   then py_seq (py_mod (\<lambda>w. w\<lparr>buffer := g # buffer w, buffer_size := buffer_size w + dgram_cost g\<rparr>))
                          (py_ret True)
                   else py_seq (dgram_send_failed P e) (py_ret False))
              (\<lambda>_. sendto_loop P n)))"

definition sendto_ready :: "dgram_transport proto \<Rightarrow> unit dgram_m" where
  "sendto_ready P =
     py_bind (py_with (\<lambda>w. length (buffer w)) (\<lambda>n. sendto_loop P n))
       (\<lambda>go_on. if go_on then
          py_seq (maybe_resume_protocol dgram_get_write_buffer_size P)
            (py_when (\<lambda>w. buffer w = [])
              (py_seq remove_writer_of (py_when closing (base_call_connection_lost P None))))
        else py_ret ())"

section \<open>Clients and programs\<close>

datatype dgram_op =
    DSendto pydata "pyaddr option"
  | DClose
  | DAbort
  | DPauseReading
  | DResumeReading
  | DSetLimits "nat option" "nat option"

fun exec_dop :: "dgram_transport proto \<Rightarrow> dgram_op \<Rightarrow> unit dgram_m" where
  "exec_dop P (DSendto x a) = sendto P x a"
| "exec_dop P DClose = base_close"
| "exec_dop P DAbort = abort"
| "exec_dop P DPauseReading = pause_reading"
| "exec_dop P DResumeReading = dgram_resume_reading P"
| "exec_dop P (DSetLimits h l) = set_write_buffer_limits dgram_get_write_buffer_size P h l"

type_synonym dgram_prog = "proto_event \<Rightarrow> dgram_transport \<Rightarrow> dgram_op list \<times> (pyexc + nat)"

primrec run_dproto :: "dgram_prog \<Rightarrow> nat \<Rightarrow> dgram_transport proto" where
  "run_dproto prog 0 = (\<lambda>ev w. (snd (prog ev w), w))"
| "run_dproto prog (Suc n) =
     (\<lambda>ev w. (snd (prog ev w), fold (\<lambda>op w. snd (exec_dop (run_dproto prog n) op w)) (fst (prog ev w)) w))"

fun run_dcb :: "dgram_transport proto \<Rightarrow> tcb \<Rightarrow> pyarg list \<Rightarrow> unit dgram_m" where
  "run_dcb P CbConnectionMade args =
     py_seq (py_mod (\<lambda>w. w\<lparr>log := log w @ [ConnectionMade]\<rparr>)) (py_seq (P ConnectionMade) (py_ret ()))"
| "run_dcb P CbRegisterReader args = register_reader"
| "run_dcb P CbCallConnectionLost [AExc e] = base_call_connection_lost P (Some e)"
| "run_dcb P CbCallConnectionLost args = base_call_connection_lost P None"
| "run_dcb P CbSendtoReady args = sendto_ready P"
| "run_dcb P CbDrainDatagram [ABytes d, AAddr a] = drain_datagram P d a"
| "run_dcb P CbDrainError [AExc e] = dgram_drain_error P e"
| "run_dcb P _ args = py_ret ()"

inductive dgram_step :: "dgram_transport proto \<Rightarrow> dgram_transport \<Rightarrow> dgram_transport \<Rightarrow> bool" for P where
  dgram_client: "dgram_step P w (snd (exec_dop P op w))"
| dgram_callback: "dgram_step P w (snd (run_dcb P cb args (w\<lparr>loop := l\<rparr>)))"
| dgram_kernel: "dgram_step P w (w\<lparr>dsend_script := ss\<rparr>)"

inductive dgram_reach :: "dgram_transport proto \<Rightarrow> dgram_transport \<Rightarrow> dgram_transport \<Rightarrow> bool" for P w0 where
  dgram_start: "dgram_reach P w0 w0"
| dgram_next: "dgram_reach P w0 w \<Longrightarrow> dgram_step P w w' \<Longrightarrow> dgram_reach P w0 w'"

section \<open>Samples\<close>

definition sample_dgram :: dgram_transport where
  "sample_dgram = new_dgram_transport sample_tr_loop 9 None []"

definition mute_prog :: dgram_prog where
  "mute_prog ev w = ([], Inr 0)"

definition sample_queued :: dgram_transport where
  "sample_queued = snd (exec_dop (run_dproto mute_prog 1) (DSendto (BytesLike [1, 2, 3]) (Some (PathAddr []))) sample_dgram)"

text \<open>A protocol whose \<open>error_received\<close> raises.\<close>

definition raising_prog :: dgram_prog where
  "raising_prog ev w = (case ev of ErrorReceived e \<Rightarrow> ([], Inl (AppException 1)) | _ \<Rightarrow> ([], Inr 0))"

definition sample_paused :: dgram_transport where
  "sample_paused = sample_dgram\<lparr>protocol := Some PlainProtocol, paused := True,
     replay := [ReplayError (OSError 111 ''refused''), ReplayDatagram [1] NoAddr]\<rparr>"

section \<open>The size of the write buffer\<close>

text \<open>The invariant: until the connection is lost, the counter is the cost of the queue.\<close>

definition queue_cost :: "dgram_transport \<Rightarrow> int" where
  "queue_cost w = sum_list (map dgram_cost (buffer w))"

definition size_inv :: "dgram_transport \<Rightarrow> bool" where
  "size_inv w \<longleftrightarrow> i32_range (sock_fd w) \<and> (conn_lost w = 0 \<and> has_loop w \<longrightarrow> buffer_size w = queue_cost w)"

lemma size_inv_fields [simp]:
  "size_inv (w\<lparr>loop := l\<rparr>) = size_inv w" "size_inv (w\<lparr>paused := p\<rparr>) = size_inv w"
  "size_inv (w\<lparr>closing := p\<rparr>) = size_inv w" "size_inv (w\<lparr>replay := r\<rparr>) = size_inv w"
  "size_inv (w\<lparr>log := lg\<rparr>) = size_inv w" "size_inv (w\<lparr>protocol_paused := p\<rparr>) = size_inv w"
  "size_inv (w\<lparr>high_water := h\<rparr>) = size_inv w" "size_inv (w\<lparr>low_water := h\<rparr>) = size_inv w"
  "size_inv (w\<lparr>dsend_script := s\<rparr>) = size_inv w" "size_inv (w\<lparr>dsent := d\<rparr>) = size_inv w"
  "size_inv (w\<lparr>protocol := pr\<rparr>) = size_inv w" "size_inv (w\<lparr>has_sock := p\<rparr>) = size_inv w"
  "size_inv w \<Longrightarrow> size_inv (w\<lparr>has_loop := False\<rparr>)" "size_inv (w\<lparr>sock_closed := p\<rparr>) = size_inv w"
  "size_inv (w\<lparr>server := sv\<rparr>) = size_inv w" "size_inv (w\<lparr>server_active := n\<rparr>) = size_inv w"
  "size_inv (w\<lparr>connlost_warnings := k\<rparr>) = size_inv w" "size_inv w \<Longrightarrow> size_inv (w\<lparr>conn_lost := Suc k\<rparr>)"
  by (simp_all add: size_inv_def queue_cost_def)

lemma size_inv_loop: "py_inv size_inv (on_loop m)"
  by (rule py_invI) (auto simp: on_loop_def wp_def split: prod.split sum.split)

lemma size_inv_need: "py_inv size_inv need_loop" "py_inv size_inv need_sock"
  by (simp_all add: need_loop_def need_sock_def py_inv_rules)

lemmas size_rules = py_inv_rules py_inv_mod size_inv_loop size_inv_need

lemma size_inv_loop_calls:
  "py_inv size_inv remove_reader_of" "py_inv size_inv remove_writer_of" "py_inv size_inv (add_writer_of cb)"
  "py_inv size_inv (call_soon_of cb args)" "py_inv size_inv register_reader" "py_inv size_inv pause_reading"
  by (auto simp: remove_reader_of_def remove_writer_of_def add_writer_of_def call_soon_of_def register_reader_def
      pause_reading_def intro!: size_rules)

lemma remove_watchers_return:
  assumes "i32_range (sock_fd w)" and "has_loop w" and "\<And>l. Q () (w\<lparr>loop := l\<rparr>)"
  shows "wp remove_writer_of Q E w" and "wp remove_reader_of Q E w"
  using assms
  by (auto simp: remove_writer_of_def remove_reader_of_def wp_rules remove_writer_def remove_reader_def
      wp_def [of "detach_watcher fd d" for fd d] detach_watcher_def Let_def split: option.split)

text \<open>\<open>force_close\<close> empties the queue and counts the connection as lost; between the two
  nothing else runs.\<close>

lemma size_inv_force_close: "py_inv size_inv (force_close exc)"
proof (rule py_invI)
  fix w
  assume I: "size_inv w"
  let ?lost = "py_seq (py_mod (\<lambda>w. w\<lparr>conn_lost := Suc (conn_lost w)\<rparr>)) (call_soon_of CbCallConnectionLost [exc_arg exc])"
  let ?tail = "py_seq (py_when (\<lambda>w. \<not> closing w) (py_seq (py_mod (\<lambda>w. w\<lparr>closing := True\<rparr>)) remove_reader_of)) ?lost"
  have call: "py_inv size_inv (call_soon_of CbCallConnectionLost [exc_arg exc])" by (rule size_inv_loop_calls)
  have lost: "wp ?lost (\<lambda>_. size_inv) (\<lambda>_. size_inv) v" if "i32_range (sock_fd v)" for v
    unfolding wp_seq wp_mod by (rule py_inv_wp [OF call]) (use that in \<open>auto simp: size_inv_def\<close>)
  have tail: "wp ?tail (\<lambda>_. size_inv) (\<lambda>_. size_inv) v" if "i32_range (sock_fd v)" "has_loop v" for v
    unfolding wp_seq [of "py_when c m" for c m] wp_when wp_seq [of "py_mod (\<lambda>w. w\<lparr>closing := True\<rparr>)"] wp_mod
    using that by (auto intro!: remove_watchers_return(2) lost)
  have inv_tail: "py_inv size_inv ?tail"
    by (auto intro!: size_rules size_inv_loop_calls)
  have i32: "i32_range (sock_fd w)" using I by (simp add: size_inv_def)
  show "wp (force_close exc) (\<lambda>_. size_inv) (\<lambda>_. size_inv) w"
  proof (cases "conn_lost w = 0 \<and> buffer w \<noteq> [] \<and> has_loop w")
    case True
    then show ?thesis using i32 tail
      unfolding force_close_def wp_if wp_seq [of "py_when (\<lambda>w. buffer w \<noteq> []) m" for m] wp_when
        wp_seq [of "py_mod (\<lambda>w. w\<lparr>buffer := []\<rparr>)"] wp_mod
      by (auto intro!: remove_watchers_return(1))
  next
    case False
    have *: "wp ?tail (\<lambda>_. size_inv) (\<lambda>_. size_inv) v" if "size_inv v" for v
      using inv_tail that by (simp add: py_inv_def)
    have "size_inv (w\<lparr>buffer := []\<rparr>)" if "buffer w \<noteq> []" "conn_lost w = 0"
      using False that i32 by (simp add: size_inv_def)
    then show ?thesis using False I
      unfolding force_close_def wp_if wp_seq [of "py_when (\<lambda>w. buffer w \<noteq> []) m" for m] wp_when
        wp_seq [of "py_mod (\<lambda>w. w\<lparr>buffer := []\<rparr>)"] wp_mod
      by (auto simp: wp_ret intro!: * py_inv_wp [OF size_inv_loop_calls(2)])
  qed
qed

lemma size_inv_close: "py_inv size_inv base_close" "py_inv size_inv abort"
  by (auto simp: base_close_def abort_def intro!: size_rules size_inv_loop_calls size_inv_force_close)

section \<open>Protocols\<close>

text \<open>The interface to the protocol: its calls keep the invariant.\<close>

locale dgram_protocol =
  fixes P :: "dgram_transport proto"
  assumes keeps_size: "py_inv size_inv (P ev)"
begin

lemma call_protocol_size: "py_inv size_inv (call_protocol P ev)"
  unfolding call_protocol_def by (intro size_rules keeps_size) simp_all

lemma handler_size: "py_inv size_inv (call_exception_handler P m e)"
  unfolding call_exception_handler_def by (intro size_rules keeps_size)

lemma fatal_error_size: "py_inv size_inv (fatal_error P e m)"
  unfolding fatal_error_def by (intro size_rules handler_size size_inv_force_close)

lemma flow_size: "py_inv size_inv (maybe_pause_protocol sz P)" "py_inv size_inv (maybe_resume_protocol sz P)"
  unfolding maybe_pause_protocol_def maybe_resume_protocol_def on_error_def
  by (intro size_rules call_protocol_size handler_size; simp)+

lemma set_limits_size: "py_inv size_inv (set_write_buffer_limits sz P h l)"
  unfolding set_write_buffer_limits_def Let_def by (intro size_rules flow_size; simp)

lemma deliver_size: "py_inv size_inv (deliver_datagram P d a)" "py_inv size_inv (dgram_deliver_error P e)"
  "py_inv size_inv (dgram_replay_deliver P it)"
  unfolding deliver_datagram_def dgram_deliver_error_def dgram_replay_deliver_def on_error_def
  by (cases it; auto intro!: size_rules call_protocol_size fatal_error_size)+

lemma flush_size: "py_inv size_inv (flush_replay n (dgram_replay_deliver P))"
  by (induction n) (auto intro!: size_rules deliver_size)

lemma read_size: "py_inv size_inv (drain_datagram P d a)" "py_inv size_inv (dgram_drain_error P e)"
  "py_inv size_inv (dgram_resume_reading P)"
  unfolding drain_datagram_def dgram_drain_error_def dgram_resume_reading_def resume_reading_def
  by (auto intro!: size_rules deliver_size flush_size size_inv_loop_calls)

lemma send_size: "py_inv size_inv (dgram_send g)" "py_inv size_inv (dgram_send_failed P e)"
  "py_inv size_inv (buffer_datagram P g)"
  unfolding dgram_send_def dgram_send_failed_def buffer_datagram_def on_error_def
  by (auto simp: size_inv_def queue_cost_def split: option.split
      intro!: size_rules call_protocol_size fatal_error_size flow_size)

lemma count_lost_size:
  "py_inv size_inv m \<Longrightarrow> py_inv size_inv (py_if (\<lambda>w. conn_lost w \<noteq> 0 \<and> q) count_lost_write m)"
  by (auto simp: py_inv_def wp_rules count_lost_write_def)

lemma sendto_size: "py_inv size_inv (sendto P x a)"
  unfolding sendto_def Let_def
  by (cases x; auto intro!: size_rules count_lost_size send_size size_inv_loop_calls)

lemma sendto_loop_size: "py_inv size_inv (sendto_loop P n)"
proof (induction n)
  case 0
  show ?case by (simp add: py_inv_rules)
next
  case (Suc n)
  have requeue: "py_inv size_inv (py_seq (py_mod (\<lambda>w. w\<lparr>buffer := g # buffer w, buffer_size := buffer_size w + dgram_cost g\<rparr>)) (py_ret True))"
    for g by (intro size_rules) (simp add: size_inv_def queue_cost_def)
  have rest: "py_inv size_inv (py_try_else (dgram_send g)
      (\<lambda>e. if is_blocking e
           then py_seq (py_mod (\<lambda>w. w\<lparr>buffer := g # buffer w, buffer_size := buffer_size w + dgram_cost g\<rparr>)) (py_ret True)
           else py_seq (dgram_send_failed P e) (py_ret False)) (\<lambda>_. sendto_loop P n))" for g
    by (intro size_rules send_size requeue Suc)
  show ?case
  proof (rule py_invI)
    fix w
    assume I: "size_inv w"
    show "wp (sendto_loop P (Suc n)) (\<lambda>_. size_inv) (\<lambda>_. size_inv) w"
    proof (cases "buffer w")
      case Nil
      with I show ?thesis by (simp add: wp_rules)
    next
      case (Cons g gs)
      have "size_inv (w\<lparr>buffer := gs, buffer_size := buffer_size w - dgram_cost g\<rparr>)"
        using I Cons by (simp add: size_inv_def queue_cost_def)
      with rest [of g] Cons show ?thesis
        by (simp add: wp_with wp_seq [of "py_mod f" for f] wp_mod py_inv_def)
    qed
  qed
qed

lemma connection_lost_size: "py_inv size_inv (base_call_connection_lost P exc)"
  unfolding base_call_connection_lost_def by (intro size_rules call_protocol_size; simp)

lemma sendto_ready_size: "py_inv size_inv (sendto_ready P)"
  unfolding sendto_ready_def
  by (intro size_rules sendto_loop_size flow_size size_inv_loop_calls connection_lost_size)

lemma exec_dop_size: "py_inv size_inv (exec_dop P op)"
  by (cases op) (simp_all add: sendto_size size_inv_close size_inv_loop_calls read_size set_limits_size)

lemma run_dcb_size: "py_inv size_inv (run_dcb P cb args)"
  by (cases "(P, cb, args)" rule: run_dcb.cases)
     (auto intro!: size_rules keeps_size size_inv_loop_calls connection_lost_size sendto_ready_size read_size)

lemma dgram_step_size: "dgram_step P w w' \<Longrightarrow> size_inv w \<Longrightarrow> size_inv w'"
  by (induction rule: dgram_step.induct)
     (auto intro!: py_invD [OF exec_dop_size] py_invD [OF run_dcb_size])

lemma dgram_reach_size: "dgram_reach P w0 w \<Longrightarrow> size_inv w0 \<Longrightarrow> size_inv w"
  by (induction rule: dgram_reach.induct) (auto dest: dgram_step_size)

end

lemma run_dproto_protocol: "dgram_protocol (run_dproto prog n)"
proof (induction n)
  case 0
  show ?case by unfold_locales (simp add: py_inv_def wp_def split: sum.split)
next
  case (Suc n)
  have "size_inv w \<Longrightarrow> size_inv (fold (\<lambda>op w. snd (exec_dop (run_dproto prog n) op w)) ops w)" for ops w
    by (induction ops arbitrary: w) (auto dest: py_invD [OF dgram_protocol.exec_dop_size [OF Suc]])
  then show ?case by unfold_locales (simp add: py_inv_def wp_def split: sum.split)
qed

interpretation dp: dgram_protocol "run_dproto prog n" for prog n
  by (rule run_dproto_protocol)

section \<open>Properties\<close>


lemma sample_queued_fields:
  "conn_lost sample_queued = 0" "has_loop sample_queued" "buffer sample_queued = [([1, 2, 3], Some (PathAddr []))]"
  "has_sock sample_queued" "peername sample_queued = None" "dsent sample_queued = []"
  by (simp_all add: sample_queued_def sample_dgram_def sendto_def tr_run_defs new_dgram_transport_def init_transport_def
      selector_transport.defs dgram_send_def need_sock_def add_writer_of_def on_loop_def add_writer_def
      check_closed_state_def sample_tr_loop_def tokioop_new_def i32_range_def add_watcher_def os_register_def
      install_watcher_def dir_of_def buffer_datagram_def maybe_pause_protocol_def dgram_get_write_buffer_size_def
      dgram_cost_def header_size_def Let_def)




text \<open>
  C34. The promise that replayed items strictly precede fresh arrivals fails for datagrams: an
  error kept while paused is replayed by calling \<open>error_received\<close> unguarded, and when that
  raises, \<open>resume_reading\<close> ends with the transport reading and the rest of the replay queue
  undelivered; a datagram that arrives now is delivered before the older ones.
\<close>

theorem raising_error_received_reorders_datagrams:
  assumes "paused w" and "\<not> closing w" and "conn_lost w = 0" and "protocol w = Some PlainProtocol"
    and "replay w = ReplayError e # older"
  shows "\<exists>w1 w2. dgram_resume_reading (run_dproto raising_prog n) w = (Inl (AppException 1), w1) \<and>
    drain_datagram (run_dproto raising_prog n) d a w1 = (Inr (), w2) \<and>
    is_reading w2 \<and> replay w2 = older \<and> log w2 = log w @ [ErrorReceived e, DatagramReceived d a]"
proof -
  have P: "run_dproto raising_prog n ev u = (snd (raising_prog ev u), u)" for ev u
    by (cases n) (auto simp: raising_prog_def split: proto_event.split)
  let ?w1 = "w\<lparr>paused := False, replay := older, log := log w @ [ErrorReceived e]\<rparr>"
  have "dgram_resume_reading (run_dproto raising_prog n) w = (Inl (AppException 1), ?w1)"
    using assms by (simp add: dgram_resume_reading_def resume_reading_def tr_run_defs dgram_replay_deliver_def
        dgram_deliver_error_def call_protocol_def P raising_prog_def)
  moreover have "drain_datagram (run_dproto raising_prog n) d a ?w1 =
      (Inr (), ?w1\<lparr>log := log ?w1 @ [DatagramReceived d a]\<rparr>)"
    using assms by (simp add: drain_datagram_def deliver_datagram_def tr_run_defs call_protocol_def P raising_prog_def)
  ultimately show ?thesis using assms(2) by (simp add: is_reading_def is_closing_def)
qed

theorem raising_error_received_reorders_datagrams_witness:
  "\<exists>w1 w2. dgram_resume_reading (run_dproto raising_prog 1) sample_paused = (Inl (AppException 1), w1) \<and>
     drain_datagram (run_dproto raising_prog 1) [2] NoAddr w1 = (Inr (), w2) \<and>
     replay w2 = [ReplayDatagram [1] NoAddr]"
  using raising_error_received_reorders_datagrams
    [of sample_paused "OSError 111 ''refused''" "[ReplayDatagram [1] NoAddr]" 1 "[2]" NoAddr]
  by (auto simp: sample_paused_def sample_dgram_def new_dgram_transport_def init_transport_def selector_transport.defs)

end
