(* ===== verification/Datagram_Endpoint.thy ===== *)
theory Datagram_Endpoint
  imports Servers Datagram_Transport
begin

text \<open>
  \<open>create_datagram_endpoint\<close> and \<open>_make_datagram_transport\<close> of \<open>RustEventLoop\<close>
  (\<^verbatim>\<open>src/python/tokioop/loop.py\<close>).

  The world is the one of the servers with the list of the datagram transports. An address a caller
  gives is a pair of a host and a port, a string, or something else of a known truth value.
\<close>

section \<open>State\<close>

datatype endpoint_addr =
    HostPort "string option" "int option"
  | UnixPath pyaddr
  | OtherAddr bool

record endpoint_args =
  ea_local :: "endpoint_addr option"
  ea_remote :: "endpoint_addr option"
  ea_family :: int
  ea_proto :: int
  ea_flags :: int
  ea_reuse_port :: bool
  ea_broadcast :: bool
  ea_sock :: "nat option"

record net_dgram =
  nd_sock :: nat
  nd_proto :: "dgram_transport proto"
  nd_obj :: dgram_transport

record endpoint_world = server_world +
  dgrams :: "net_dgram list"

type_synonym 'a ep_m = "(endpoint_world, 'a) py"

text \<open>A family and a protocol with the local and the remote address for them.\<close>

type_synonym addr_pair = "(int \<times> int) \<times> pyaddr option \<times> pyaddr option"

text \<open>\<open>bool(addr)\<close>.\<close>

fun addr_true :: "endpoint_addr option \<Rightarrow> bool" where
  "addr_true None = False"
| "addr_true (Some (HostPort h p)) = True"
| "addr_true (Some (UnixPath p)) = (p \<noteq> PathAddr [])"
| "addr_true (Some (OtherAddr b)) = b"

section \<open>The addresses\<close>

text \<open>\<open>addr_infos[key][idx] = address\<close> in an ordered dictionary; \<open>False\<close> is index 0.\<close>

fun set_side :: "bool \<Rightarrow> pyaddr \<Rightarrow> pyaddr option \<times> pyaddr option \<Rightarrow> pyaddr option \<times> pyaddr option" where
  "set_side False a (l, r) = (Some a, r)"
| "set_side True a (l, r) = (l, Some a)"

definition put_addr :: "bool \<Rightarrow> addr_info \<Rightarrow> addr_pair list \<Rightarrow> addr_pair list" where
  "put_addr side i m =
     (let key = (ai_family i, ai_proto i);
          cur = (case map_of m key of None \<Rightarrow> (None, None) | Some p \<Rightarrow> p)
      in AList.update key (set_side side (ai_addr i) cur) m)"

primrec put_addrs :: "bool \<Rightarrow> addr_info list \<Rightarrow> addr_pair list \<Rightarrow> addr_pair list" where
  "put_addrs side [] m = m"
| "put_addrs side (i # is) m = put_addrs side is (put_addr side i m)"

definition resolve_side ::
  "net_env \<Rightarrow> endpoint_args \<Rightarrow> bool \<Rightarrow> endpoint_addr option \<Rightarrow> addr_pair list \<Rightarrow> ('x, addr_pair list) net_m" where
  "resolve_side E a side addr m =
     (case addr of
        None \<Rightarrow> py_ret m
      | Some (HostPort h p) \<Rightarrow>
          py_bind (ensure_resolved E (ByName h p) (ea_family a) 2 (ea_proto a) (ea_flags a)) (\<lambda>infos.
            if infos = [] then py_raise (OSError 0 ''getaddrinfo() returned empty list'')
            else py_ret (put_addrs side infos m))
      | Some _ \<Rightarrow> py_raise (TypeError ''2-tuple is expected''))"

definition usable_pair :: "endpoint_args \<Rightarrow> addr_pair \<Rightarrow> bool" where
  "usable_pair a p \<longleftrightarrow>
     \<not> (addr_true (ea_local a) \<and> fst (snd p) = None \<or> addr_true (ea_remote a) \<and> snd (snd p) = None)"

definition join_addrs :: "net_env \<Rightarrow> endpoint_args \<Rightarrow> ('x, addr_pair list) net_m" where
  "join_addrs E a =
     py_bind (resolve_side E a False (ea_local a) []) (\<lambda>m.
       py_bind (resolve_side E a True (ea_remote a) m) (\<lambda>m.
         let pairs = filter (usable_pair a) m
         in if pairs = [] then py_raise (ValueError ''can not get address information'') else py_ret pairs))"

text \<open>A unix address: \<open>isinstance(addr, str)\<close>.\<close>

fun unix_addr :: "endpoint_addr option \<Rightarrow> pyexc + pyaddr option" where
  "unix_addr None = Inr None"
| "unix_addr (Some (UnixPath p)) = Inr (Some p)"
| "unix_addr (Some _) = Inl (TypeError ''string is expected'')"

definition unix_pair :: "endpoint_args \<Rightarrow> addr_pair list ep_m" where
  "unix_pair a =
     py_bind (py_check (\<lambda>_. unix_addr (ea_local a))) (\<lambda>l.
       py_bind (py_check (\<lambda>_. unix_addr (ea_remote a))) (\<lambda>r.
         py_seq
           (case l of
              None \<Rightarrow> py_ret ()
            | Some p \<Rightarrow>
                if addr_true (ea_local a)
                then py_bind (py_check (\<lambda>_. on_filesystem p)) (\<lambda>fs. if fs then remove_stale else py_ret ())
                else py_ret ())
           (py_ret [((ea_family a, ea_proto a), l, r)])))"

definition addr_pairs_info :: "net_env \<Rightarrow> endpoint_args \<Rightarrow> addr_pair list ep_m" where
  "addr_pairs_info E a =
     (if \<not> (addr_true (ea_local a) \<or> addr_true (ea_remote a))
      then if ea_family a = 0 then py_raise (ValueError ''unexpected address family'')
           else py_ret [((ea_family a, ea_proto a), None, None)]
      else if ea_family a = 1 then unix_pair a
      else join_addrs E a)"

section \<open>The socket\<close>

definition need_addr :: "pyaddr option \<Rightarrow> ('w, pyaddr) py" where
  "need_addr addr = (case addr of None \<Rightarrow> py_raise (TypeError ''a bytes-like object is required'') | Some x \<Rightarrow> py_ret x)"

text \<open>The body of the \<open>try\<close> once the socket exists; the result is \<open>r_addr\<close>.\<close>

definition open_endpoint :: "net_env \<Rightarrow> endpoint_args \<Rightarrow> addr_pair \<Rightarrow> nat \<Rightarrow> pyaddr option ep_m" where
  "open_endpoint E a p i =
     py_seq (if ea_reuse_port a then set_reuseport i else py_ret ())
       (py_seq (if ea_broadcast a then k_setsockopt i else py_ret ())
         (py_seq (k_setblocking i)
           (py_seq (if addr_true (ea_local a) then py_bind (need_addr (fst (snd p))) (k_bind i) else py_ret ())
             (if addr_true (ea_remote a)
              then py_seq (if ea_broadcast a then py_ret () else py_bind (need_addr (snd (snd p))) (await_connect E i))
                     (py_ret (snd (snd p)))
              else py_ret None))))"

text \<open>\<open>for ... in addr_pairs_info: ... else: raise exceptions[0]\<close>.\<close>

primrec try_pairs :: "net_env \<Rightarrow> endpoint_args \<Rightarrow> pyexc list \<Rightarrow> addr_pair list \<Rightarrow> (nat \<times> pyaddr option) ep_m" where
  "try_pairs E a es [] =
     (case es of [] \<Rightarrow> py_raise (IndexError ''list index out of range'') | e # _ \<Rightarrow> py_raise e)"
| "try_pairs E a es (p # ps) =
     py_try_else (k_socket (fst (fst p)) 2 (snd (fst p)))
       (\<lambda>e. if is_oserror e then try_pairs E a (es @ [e]) ps else py_raise e)
       (\<lambda>i. py_try_else (open_endpoint E a p i)
         (\<lambda>e. py_seq (k_close i) (if is_oserror e then try_pairs E a (es @ [e]) ps else py_raise e))
         (\<lambda>r. py_ret (i, r)))"

definition no_modifiers :: "endpoint_args \<Rightarrow> bool" where
  "no_modifiers a \<longleftrightarrow> \<not> (addr_true (ea_local a) \<or> addr_true (ea_remote a) \<or> ea_family a \<noteq> 0 \<or> ea_proto a \<noteq> 0 \<or>
     ea_flags a \<noteq> 0 \<or> ea_reuse_port a \<or> ea_broadcast a)"

definition endpoint_socket :: "net_env \<Rightarrow> endpoint_args \<Rightarrow> (nat \<times> pyaddr option) ep_m" where
  "endpoint_socket E a =
     (case ea_sock a of
        Some i \<Rightarrow>
          py_seq (py_when (\<lambda>w. ns_type (socks w ! i) = 1) (py_raise (ValueError ''A datagram socket was expected'')))
            (if \<not> no_modifiers a
             then py_raise (ValueError ''socket modifier keyword arguments can not be used when sock is specified.'')
             else py_seq (k_setblocking i) (py_ret (i, None)))
      | None \<Rightarrow> py_bind (addr_pairs_info E a) (try_pairs E a []))"

section \<open>The transport\<close>

definition on_dgram :: "nat \<Rightarrow> (dgram_transport proto \<Rightarrow> 'a dgram_m) \<Rightarrow> 'a ep_m" where
  "on_dgram t m w =
     (case m (nd_proto (dgrams w ! t)) (nd_obj (dgrams w ! t)) of
        (r, obj) \<Rightarrow> (r, w\<lparr>dgrams := (dgrams w)[t := (dgrams w ! t)\<lparr>nd_obj := obj\<rparr>]\<rparr>))"

text \<open>\<open>_SelectorDatagramTransport(loop, sock, protocol, address, waiter, extra)\<close>.\<close>

definition new_dgram :: "dgram_transport proto \<Rightarrow> pyaddr option \<Rightarrow> nat \<Rightarrow> nat \<Rightarrow> nat ep_m" where
  "new_dgram P addr waiter i =
     py_with (\<lambda>w. (socks w ! i, length (dgrams w))) (\<lambda>(s, t).
       py_seq
         (py_mod (\<lambda>w.
           let fd = so_fd (ns_obj s);
               obj = new_dgram_transport (transport_loop (nw w)) fd (ns_peer s) []
           in w\<lparr>nw := (nw w)\<lparr>transports := AList.update fd (dgram_id t) (transports (nw w))\<rparr>,
                dgrams := dgrams w @ [\<lparr>nd_sock = i, nd_proto = P, nd_obj = obj\<rparr>]\<rparr>))
         (py_seq (on_dgram t (\<lambda>_. dgram_init addr (Some waiter))) (py_ret t)))"

definition make_datagram_transport :: "dgram_transport proto \<Rightarrow> pyaddr option \<Rightarrow> nat \<Rightarrow> nat \<Rightarrow> nat ep_m" where
  "make_datagram_transport P addr waiter i =
     py_seq (ensure_sock_no_transport i) (new_dgram P addr waiter i)"

text \<open>One batch of the loop over what the transport scheduled, then the fate of the task that waits.\<close>

definition run_dgram_scheduled :: "dgram_transport proto \<Rightarrow> dgram_transport \<Rightarrow> dgram_transport" where
  "run_dgram_scheduled P t =
     fold (\<lambda>e u. if flags (loop u) (re_cancelled e) then u else snd (run_dcb P (re_callback e) (re_args e) u))
       (ready (loop t)) (t\<lparr>loop := (loop t)\<lparr>ready := []\<rparr>\<rparr>)"

definition await_dgram_waiter :: "nat \<Rightarrow> unit ep_m" where
  "await_dgram_waiter t =
     py_with (\<lambda>w. sp_fate (ns_plan (socks w ! nd_sock (dgrams w ! t)))) (\<lambda>fate.
       py_seq (if fate = CancelBefore then py_ret () else on_dgram t (\<lambda>P. py_mod (run_dgram_scheduled P)))
         (if fate = CancelBefore \<or> fate = CancelAfter then py_raise CancelledError else py_ret ()))"

text \<open>\<open>F\<close> is what the protocol factory gives.\<close>

definition create_datagram_endpoint :: "net_env \<Rightarrow> pyexc + dgram_transport proto \<Rightarrow> endpoint_args \<Rightarrow> nat ep_m" where
  "create_datagram_endpoint E F a =
     py_bind (endpoint_socket E a) (\<lambda>(i, r_addr).
       py_bind (py_check (\<lambda>_. F)) (\<lambda>P.
         py_bind (on_nw create_future) (\<lambda>waiter.
           py_bind (make_datagram_transport P r_addr waiter i) (\<lambda>t.
             py_seq (py_try (await_dgram_waiter t) (\<lambda>e. py_seq (on_dgram t (\<lambda>P. base_close)) (py_raise e)))
               (py_ret t)))))"

end
