(* ===== verification/Endpoint_Properties.thy ===== *)
theory Endpoint_Properties
  imports Datagram_Endpoint Connection_Properties
begin

text \<open>
  Properties of \<open>create_datagram_endpoint\<close>: the dictionary that joins the local and the remote
  addresses against a reference definition, and the account of the sockets it opens.
\<close>

section \<open>Joining the addresses\<close>

definition info_key :: "addr_info \<Rightarrow> int \<times> int" where
  "info_key i = (ai_family i, ai_proto i)"

text \<open>The last address of a list for a family and a protocol.\<close>

primrec last_addr :: "int \<times> int \<Rightarrow> addr_info list \<Rightarrow> pyaddr option" where
  "last_addr k [] = None"
| "last_addr k (i # is) =
     (case last_addr k is of Some x \<Rightarrow> Some x | None \<Rightarrow> if info_key i = k then Some (ai_addr i) else None)"

text \<open>The keys in the order of their first appearance.\<close>

definition first_keys :: "addr_info list \<Rightarrow> (int \<times> int) list" where
  "first_keys is = rev (remdups (rev (map info_key is)))"

text \<open>Every family and protocol that either side has, with the last address each side has for it.\<close>

definition joined :: "addr_info list \<Rightarrow> addr_info list \<Rightarrow> addr_pair list" where
  "joined ls rs = map (\<lambda>k. (k, last_addr k ls, last_addr k rs)) (first_keys (ls @ rs))"

definition cur_pair :: "addr_pair list \<Rightarrow> int \<times> int \<Rightarrow> pyaddr option \<times> pyaddr option" where
  "cur_pair m k = (case map_of m k of None \<Rightarrow> (None, None) | Some p \<Rightarrow> p)"

lemma set_side_twice [simp]: "set_side s x (set_side s y p) = set_side s x p"
  by (cases s; cases p) simp_all

lemma put_addr_map_of:
  "map_of (put_addr s i m) k = (if k = info_key i then Some (set_side s (ai_addr i) (cur_pair m k)) else map_of m k)"
  by (simp add: put_addr_def Let_def update_conv info_key_def cur_pair_def)

lemma put_addrs_map_of:
  "map_of (put_addrs s is m) k =
     (case last_addr k is of None \<Rightarrow> map_of m k | Some x \<Rightarrow> Some (set_side s x (cur_pair m k)))"
  by (induction "is" arbitrary: m) (auto simp: put_addr_map_of cur_pair_def split: option.split)

lemma put_addr_keys:
  "map fst (put_addr s i m) = (if info_key i \<in> set (map fst m) then map fst m else map fst m @ [info_key i])"
  by (simp add: put_addr_def Let_def update_keys info_key_def)

lemma put_addrs_keys:
  "map fst m = first_keys js \<Longrightarrow> map fst (put_addrs s is m) = first_keys (js @ is)"
proof (induction "is" arbitrary: m js)
  case (Cons i "is")
  have "map fst (put_addr s i m) = first_keys (js @ [i])"
    using Cons.prems unfolding put_addr_keys by (simp add: first_keys_def)
  from Cons.IH [OF this] show ?case by simp
qed simp

lemma last_addr_None: "last_addr k is = None \<longleftrightarrow> k \<notin> info_key ` set is"
  by (induction "is") (auto split: option.split)

lemma joined_refines: "put_addrs True rs (put_addrs False ls []) = joined ls rs"
proof -
  let ?m = "put_addrs True rs (put_addrs False ls [])"
  have keys: "map fst ?m = first_keys (ls @ rs)"
    using put_addrs_keys [of "put_addrs False ls []" ls True rs] put_addrs_keys [of "[]" "[]" False ls]
    by (simp add: first_keys_def)
  then have dist: "distinct (map fst ?m)" by (simp add: first_keys_def)
  have "snd p = (last_addr (fst p) ls, last_addr (fst p) rs)" if "p \<in> set ?m" for p
  proof -
    from that have "map_of ?m (fst p) = Some (snd p)" using dist by simp
    then show ?thesis
      by (auto simp: put_addrs_map_of cur_pair_def split: option.splits)
  qed
  then have "?m = map (\<lambda>p. (fst p, last_addr (fst p) ls, last_addr (fst p) rs)) ?m"
    by (intro sym [OF map_idI]) (metis surjective_pairing)
  also have "\<dots> = map (\<lambda>k. (k, last_addr k ls, last_addr k rs)) (map fst ?m)" by simp
  finally show ?thesis unfolding keys joined_def .
qed

text \<open>What an address that the caller gives resolves to.\<close>

definition resolves_to ::
  "net_env \<Rightarrow> endpoint_args \<Rightarrow> endpoint_addr option \<Rightarrow> 'x net_world_scheme \<Rightarrow> addr_info list \<Rightarrow> 'x net_world_scheme \<Rightarrow> bool" where
  "resolves_to E a addr w infos w' \<longleftrightarrow>
     (case addr of
        None \<Rightarrow> infos = [] \<and> w' = w
      | Some (HostPort h p) \<Rightarrow>
          ensure_resolved E (ByName h p) (ea_family a) 2 (ea_proto a) (ea_flags a) w = (Inr infos, w') \<and> infos \<noteq> []
      | Some _ \<Rightarrow> False)"

lemma resolve_side_infos:
  "resolves_to E a addr w infos w' \<Longrightarrow> resolve_side E a s addr m w = (Inr (put_addrs s infos m), w')"
  by (auto simp: resolves_to_def resolve_side_def py_run_defs split: option.splits endpoint_addr.splits)

text \<open>
  C27. The endpoint tries exactly one pair of addresses per family and protocol, in the order in which
  the resolver first names them (local answers first): the last local and the last remote address it
  gives for that family and protocol. A pair that lacks an address the caller asked for is left out,
  and if no pair is left the call raises \<open>ValueError\<close>.
\<close>

theorem endpoint_pairs_joined:
  assumes "resolves_to E a (ea_local a) w ls w1" and "resolves_to E a (ea_remote a) w1 rs w2"
  shows "join_addrs E a w =
    (let pairs = filter (usable_pair a) (joined ls rs)
     in if pairs = [] then Inl (ValueError ''can not get address information'') else Inr pairs, w2)"
  using resolve_side_infos [OF assms(1), of False "[]"] resolve_side_infos [OF assms(2), of True "put_addrs False ls []"]
  by (simp add: join_addrs_def py_run_defs Let_def joined_refines)

definition dgram_info :: "int \<Rightarrow> 16 word \<Rightarrow> addr_info" where
  "dgram_info fam port = \<lparr>ai_family = fam, ai_type = 2, ai_proto = 17, ai_canon = [], ai_addr = InetV4 0 port\<rparr>"

definition dgram_env :: net_env where
  "dgram_env = sample_env\<lparr>ipaddr_info := (\<lambda>t fam ty prot. case t of ByName (Some h) p \<Rightarrow> Some (dgram_info 2 53) | _ \<Rightarrow> None)\<rparr>"

definition sample_endpoint_args :: endpoint_args where
  "sample_endpoint_args =
     \<lparr>ea_local = None, ea_remote = Some (HostPort (Some ''192.0.2.1'') (Some 53)), ea_family = 0, ea_proto = 0, ea_flags = 0,
      ea_reuse_port = False, ea_broadcast = False, ea_sock = None\<rparr>"

theorem endpoint_pairs_joined_witness:
  "fst (join_addrs dgram_env sample_endpoint_args (sample_net [])) = Inr [((2, 17), None, Some (InetV4 0 53))]"
proof -
  have "resolves_to dgram_env sample_endpoint_args (ea_local sample_endpoint_args) (sample_net []) [] (sample_net [])"
    "resolves_to dgram_env sample_endpoint_args (ea_remote sample_endpoint_args) (sample_net []) [dgram_info 2 53] (sample_net [])"
    by (simp_all add: resolves_to_def sample_endpoint_args_def ensure_resolved_def dgram_env_def py_ret_def)
  from endpoint_pairs_joined [OF this] show ?thesis
    by (simp add: joined_def first_keys_def info_key_def dgram_info_def usable_pair_def sample_endpoint_args_def)
qed

section \<open>The sockets\<close>

definition ep_same :: "bool list \<Rightarrow> net_dgram list \<Rightarrow> endpoint_world \<Rightarrow> bool" where
  "ep_same os ds w \<longleftrightarrow> opens w = os \<and> dgrams w = ds"

definition ep_closed :: "bool list \<Rightarrow> net_dgram list \<Rightarrow> endpoint_world \<Rightarrow> bool" where
  "ep_closed os ds w \<longleftrightarrow> (\<exists>k. ep_same (os @ replicate k False) ds w)"

definition ep_opened :: "bool list \<Rightarrow> net_dgram list \<Rightarrow> nat \<Rightarrow> endpoint_world \<Rightarrow> bool" where
  "ep_opened os ds i w \<longleftrightarrow> (\<exists>k. i = length os + k \<and> ep_same (os @ replicate k False @ [True]) ds w)"

interpretation ep: sock_account "\<lambda>os. ep_same os ds" for ds
  by unfold_locales (simp_all add: ep_same_def opens_def)

lemmas ep_calls [py_inv_rules] = ep.keep_calls

lemma ep_need_addr [py_inv_rules]: "py_inv I (need_addr addr)"
  unfolding need_addr_def by (intro py_inv_rules)

lemma ep_open_endpoint [py_inv_rules]: "py_inv (ep_same os ds) (open_endpoint E a p i)"
  unfolding open_endpoint_def set_reuseport_def by (intro py_inv_rules)

lemma ep_remove_stale [py_inv_rules]: "py_inv (ep_same os ds) remove_stale"
  unfolding remove_stale_def k_stat_def k_remove_def
  by (intro py_inv_rules py_inv_mod) (simp_all add: ep_same_def opens_def)

lemma ep_addr_pairs_info [py_inv_rules]: "py_inv (ep_same os ds) (addr_pairs_info E a)"
proof -
  have side: "py_inv (ep_same os ds) (resolve_side E a s addr m)" for s addr m
    unfolding resolve_side_def
    by (auto intro!: py_inv_rules split: option.split endpoint_addr.split)
  show ?thesis unfolding addr_pairs_info_def unix_pair_def join_addrs_def Let_def
    by (intro py_inv_rules side)
qed

lemma ep_closed_snoc: "ep_same (os @ replicate k False @ [False]) ds w \<Longrightarrow> ep_closed os ds w"
  by (auto simp: ep_closed_def replicate_append_same [symmetric] intro: exI [of _ "Suc k"])

lemma ep_closedI: "ep_same os ds w \<Longrightarrow> ep_closed os ds w"
  by (auto simp: ep_closed_def intro: exI [of _ 0])

lemma wp_try_pairs:
  "ep_closed os ds w \<Longrightarrow> wp (try_pairs E a es ps) (\<lambda>(i, r). ep_opened os ds i) (\<lambda>e. ep_closed os ds) w"
proof (induction ps arbitrary: es w)
  case Nil
  then show ?case by (auto simp: wp_rules split: list.split)
next
  case (Cons p ps)
  let ?Q = "\<lambda>(i, r). ep_opened os ds i" and ?X = "\<lambda>e. ep_closed os ds"
  from Cons.prems obtain k where k: "ep_same (os @ replicate k False) ds w" by (auto simp: ep_closed_def)
  let ?os = "os @ replicate k False"
  have failed: "wp (k_close (length ?os)) (\<lambda>_. wp (if is_oserror e then try_pairs E a (es @ [e]) ps else py_raise e) ?Q ?X) ?X v"
    if "ep_same (?os @ [True]) ds v" for e v
    by (rule wp_mono [OF ep.wp_close [OF that]])
      (auto simp: wp_rules dest!: ep_closed_snoc intro: Cons.IH)
  show ?case unfolding try_pairs.simps wp_try_else wp_seq wp_ret_fun prod.case
  proof (rule ep.wp_socket [OF k], goal_cases)
    case (1 e w')
    then have "ep_closed os ds w'" by (auto simp: ep_closed_def)
    then show ?case by (auto simp: wp_rules intro: Cons.IH)
  next
    case (2 w')
    show ?case
      by (rule py_inv_wp [OF ep_open_endpoint 2]) (simp add: ep_opened_def, erule failed)
  qed
qed

lemma wp_endpoint_socket:
  assumes "ep_same os ds w" and "ea_sock a = None"
  shows "wp (endpoint_socket E a) (\<lambda>(i, r). ep_opened os ds i) (\<lambda>e. ep_closed os ds) w"
  unfolding endpoint_socket_def assms(2) option.case wp_bind
  by (rule py_inv_wp [OF ep_addr_pairs_info assms(1)]) (auto intro: wp_try_pairs ep_closedI)

text \<open>The datagram transport made last owns the socket.\<close>

definition ep_owns :: "bool list \<Rightarrow> net_dgram list \<Rightarrow> nat \<Rightarrow> endpoint_world \<Rightarrow> bool" where
  "ep_owns os ds i w \<longleftrightarrow> opens w = os \<and> (\<exists>d. dgrams w = ds @ [d] \<and> nd_sock d = i)"

lemma ep_owns_on_dgram [py_inv_rules]: "py_inv (ep_owns os ds i) (on_dgram (length ds) m)"
  by (auto simp: py_inv_def wp_state on_dgram_def ep_owns_def opens_def split: prod.split)

lemma wp_make_datagram_transport:
  assumes "ep_same os ds w"
  shows "wp (make_datagram_transport P addr waiter i) (\<lambda>t w'. t = length ds \<and> ep_owns os ds i w')
    (\<lambda>e w'. ep_owns os ds i w' \<or> ep_same os ds w' \<and> e = RuntimeError ''File descriptor is used by transport'') w"
proof -
  let ?X = "\<lambda>e w'. ep_owns os ds i w' \<or> ep_same os ds w' \<and> e = RuntimeError ''File descriptor is used by transport''"
  have made: "wp (new_dgram P addr waiter i) (\<lambda>t w'. t = length ds \<and> ep_owns os ds i w') ?X v" if "ep_same os ds v" for v
  proof -
    have c: "opens v = os" "dgrams v = ds" using that by (simp_all add: ep_same_def)
    show ?thesis unfolding new_dgram_def wp_with prod.case wp_seq wp_mod Let_def c
      by (rule py_inv_wp [OF ep_owns_on_dgram]) (auto simp: ep_owns_def c wp_ret opens_def c(1) [unfolded opens_def])
  qed
  have "wp (ensure_sock_no_transport i) (\<lambda>_. ep_same os ds)
      (\<lambda>e w'. ep_same os ds w' \<and> e = RuntimeError ''File descriptor is used by transport'') w"
    using assms
    by (auto simp: ensure_sock_no_transport_def ensure_fd_no_transport_def on_nw_def wp_def py_run_defs ep_same_def split: option.split)
  then show ?thesis unfolding make_datagram_transport_def wp_seq by (rule wp_mono) (auto intro: made)
qed

text \<open>What a call left behind: no open socket and no transport; or one open socket, owned by the one
  transport it made; or an open socket that nobody owns, when no transport could be made.\<close>

definition endpoint_accounted ::
  "pyexc + dgram_transport proto \<Rightarrow> endpoint_world \<Rightarrow> pyexc + nat \<Rightarrow> endpoint_world \<Rightarrow> bool" where
  "endpoint_accounted F w r w' \<longleftrightarrow>
     (\<exists>k. opens w' = opens w @ replicate k False \<and> dgrams w' = dgrams w \<and> (\<exists>e. r = Inl e) \<or>
        opens w' = opens w @ replicate k False @ [True] \<and>
          (\<exists>d. dgrams w' = dgrams w @ [d] \<and> nd_sock d = length (opens w) + k \<and> (\<forall>t. r = Inr t \<longrightarrow> t = length (dgrams w))) \<or>
        opens w' = opens w @ replicate k False @ [True] \<and> dgrams w' = dgrams w \<and>
          (\<exists>e. r = Inl e \<and> (F = Inl e \<or> e = RuntimeError ''File descriptor is used by transport'')))"

lemma accounted_closed: "ep_closed (opens w) (dgrams w) v \<Longrightarrow> endpoint_accounted F w (Inl e) v"
  by (auto simp: endpoint_accounted_def ep_closed_def ep_same_def)

lemma accounted_owned:
  assumes "ep_owns (opens w @ replicate k False @ [True]) (dgrams w) (length (opens w) + k) v"
  shows "endpoint_accounted F w (Inl e) v" "endpoint_accounted F w (Inr (length (dgrams w))) v"
  using assms by (auto simp: endpoint_accounted_def ep_owns_def)

lemma accounted_unowned:
  assumes "ep_opened (opens w) (dgrams w) i v" and "F = Inl e \<or> e = RuntimeError ''File descriptor is used by transport''"
  shows "endpoint_accounted F w (Inl e) v"
  using assms by (auto simp: endpoint_accounted_def ep_opened_def ep_same_def)

lemma wp_finish_endpoint:
  assumes "ep_opened (opens w) (dgrams w) i v"
  shows "wp (py_bind (make_datagram_transport P addr waiter i) (\<lambda>t.
        py_seq (py_try (await_dgram_waiter t) (\<lambda>e. py_seq (on_dgram t (\<lambda>P. base_close)) (py_raise e))) (py_ret t)))
      (\<lambda>t. endpoint_accounted F w (Inr t)) (\<lambda>e. endpoint_accounted F w (Inl e)) v"
proof -
  from assms obtain k where k: "i = length (opens w) + k" "ep_same (opens w @ replicate k False @ [True]) (dgrams w) v"
    by (auto simp: ep_opened_def)
  let ?O = "ep_owns (opens w @ replicate k False @ [True]) (dgrams w) i" and ?t = "length (dgrams w)"
  have inv: "py_inv ?O (py_try (await_dgram_waiter ?t) (\<lambda>e. py_seq (on_dgram ?t (\<lambda>P. base_close)) (py_raise e)))"
    unfolding await_dgram_waiter_def by (intro py_inv_rules)
  show ?thesis unfolding wp_bind
  proof (rule wp_mono [OF wp_make_datagram_transport [OF k(2)]], goal_cases)
    case (1 t u)
    then have O: "?O u" and t: "t = ?t" by simp_all
    show ?case unfolding t wp_seq wp_ret_fun
      by (rule py_inv_wp [OF inv O]) (use accounted_owned k(1) in auto)
  next
    case (2 e u)
    then consider "?O u" | "ep_opened (opens w) (dgrams w) i u" "e = RuntimeError ''File descriptor is used by transport''"
      using k(1) by (auto simp: ep_opened_def)
    then show ?case using accounted_owned(1) k(1) accounted_unowned by cases blast+
  qed
qed

text \<open>
  C26. \<open>create_datagram_endpoint\<close> accounts for every socket it opens, whatever the system answers.
  Either it raises, every new socket is closed and there is no new transport; or the last new socket
  is the only open one and belongs to the one new transport, which is the result if the call returns;
  or it raises with that socket open and no transport, which happens only when the protocol factory
  raised or the descriptor belongs to a live transport.
\<close>

theorem create_datagram_endpoint_accounts_socket:
  assumes "ea_sock a = None" and "create_datagram_endpoint E F a w = (r, w')"
  shows "endpoint_accounted F w r w'"
proof -
  let ?Q = "\<lambda>t. endpoint_accounted F w (Inr t)" and ?X = "\<lambda>e. endpoint_accounted F w (Inl e)"
  have w: "ep_same (opens w) (dgrams w) w" by (simp add: ep_same_def)
  have future: "wp (on_nw create_future) (\<lambda>_. ep_opened (opens w) (dgrams w) i) ?X v" if "ep_opened (opens w) (dgrams w) i v" for i v
  proof (rule wp_no_raise [where I = "ep_opened (opens w) (dgrams w) i"])
    show "ep_opened (opens w) (dgrams w) i v" by (fact that)
    show "py_inv (ep_opened (opens w) (dgrams w) i) (on_nw create_future)"
      using ep.keep_on_nw by (fastforce simp: py_inv_def wp_state ep_opened_def)
    show "\<exists>x. fst (on_nw create_future v) = Inr x"
      by (simp add: on_nw_def create_future_def py_run_defs py_mod_def)
  qed
  have "wp (create_datagram_endpoint E F a) ?Q ?X w"
    unfolding create_datagram_endpoint_def wp_bind [of "endpoint_socket E a"]
  proof (rule wp_mono [OF wp_endpoint_socket [OF w assms(1)]], goal_cases)
    case (1 x v)
    then obtain i addr where x: "x = (i, addr)" "ep_opened (opens w) (dgrams w) i v" by (cases x) auto
    show ?case
    proof (cases F)
      case (Inl e)
      with x show ?thesis by (auto simp: wp_bind wp_check intro: accounted_unowned)
    next
      case (Inr P)
      show ?thesis unfolding x(1) prod.case Inr wp_bind [of "py_check _"] wp_check sum.case wp_bind [of "on_nw _"]
        by (rule wp_mono [OF future [OF x(2), unfolded Inr]]) (erule wp_finish_endpoint)
    qed
  qed (rule accounted_closed)
  with assms(2) show ?thesis by (cases r) (simp_all add: wp_def)
qed

definition endpoint_start :: endpoint_world where
  "endpoint_start = server_world.extend
     (net_world.extend (sample_net [Inl (OSError 97 ''Address family not supported'')])
       (server_world.fields (\<lambda>_. []) [] [] [] [] []))
     \<lparr>dgrams = []\<rparr>"

theorem create_datagram_endpoint_accounts_socket_witness:
  "endpoint_accounted (Inl (AppException 1)) endpoint_start
     (fst (create_datagram_endpoint dgram_env (Inl (AppException 1)) sample_endpoint_args endpoint_start))
     (snd (create_datagram_endpoint dgram_env (Inl (AppException 1)) sample_endpoint_args endpoint_start))"
  by (rule create_datagram_endpoint_accounts_socket [where a = sample_endpoint_args and E = dgram_env])
    (simp_all add: sample_endpoint_args_def)

end
