(* ===== verification/Start_Tls.thy ===== *)
theory Start_Tls
  imports Socket_Properties
begin

text \<open>
  \<open>start_tls\<close> of \<open>RustEventLoop\<close> (\<^verbatim>\<open>src/python/tokioop/loop.py\<close>).

  The state is the stream transport, the bytes that the stream reader of the old protocol holds
  (\<open>None\<close> when the old protocol is no \<open>StreamReaderProtocol\<close> or has no reader), and the bytes
  given to the TLS protocol's \<open>_incoming\<close> buffer. The loop is the one the transport uses.

  Parameters: asyncio's \<open>SSLProtocol\<close>, a \<open>BufferedProtocol\<close>, as the protocol \<open>P\<close> of the
  transport from then on, and \<open>wait\<close>, what happens to this state until the waiter is settled, with
  its outcome (the exception of the handshake, or a cancellation of the task).
\<close>

section \<open>The function\<close>

record tls_world =
  tw :: sock_transport
  stream_buffer :: "bytes option"
  tls_incoming :: bytes

type_synonym 'a tls_m = "(tls_world, 'a) py"

text \<open>Whether the interpreter has the module \<open>ssl\<close>, the context is an \<open>SSLContext\<close>, the transport
  says it is compatible, and what the constructor of \<open>SSLProtocol\<close> raises.\<close>

record tls_args =
  ta_module :: bool
  ta_context :: bool
  ta_compatible :: bool
  ta_reject :: "pyexc option"
  ta_server_side :: bool

definition on_tw :: "'a sock_m \<Rightarrow> 'a tls_m" where
  "on_tw m s = (case m (tw s) of (r, w) \<Rightarrow> (r, s\<lparr>tw := w\<rparr>))"

text \<open>A method of the loop itself.\<close>

definition on_self :: "(tcb loop_state, 'a) py \<Rightarrow> 'a tls_m" where
  "on_self m = on_tw (\<lambda>w. case m (loop w) of (r, l) \<Rightarrow> (r, w\<lparr>loop := l\<rparr>))"

definition tls_checks :: "tls_args \<Rightarrow> pyexc + unit" where
  "tls_checks a =
     (if \<not> ta_module a then Inl (RuntimeError ''Python ssl module is not available'')
      else if \<not> ta_context a then Inl (TypeError ''sslcontext is expected to be an instance of ssl.SSLContext'')
      else if \<not> ta_compatible a then Inl (TypeError ''transport is not supported by start_tls()'')
      else case ta_reject a of Some e \<Rightarrow> Inl e | None \<Rightarrow> Inr ())"

text \<open>\<open>ssl_protocol._incoming.write(buffer); buffer.clear()\<close>.\<close>

definition move_buffered :: "tls_args \<Rightarrow> unit tls_m" where
  "move_buffered a =
     py_when (\<lambda>s. ta_server_side a)
       (py_with stream_buffer (\<lambda>b. case b of
          None \<Rightarrow> py_ret ()
        | Some [] \<Rightarrow> py_ret ()
        | Some xs \<Rightarrow> py_mod (\<lambda>s. s\<lparr>tls_incoming := tls_incoming s @ xs, stream_buffer := Some []\<rparr>)))"

text \<open>\<open>transport.resume_reading\<close> as a callback of the loop.\<close>

definition resume_cb :: tcb where
  "resume_cb = CbUser 0"

definition start_tls :: "tls_args \<Rightarrow> unit tls_m \<Rightarrow> unit tls_m" where
  "start_tls a wait =
     py_seq (py_check (\<lambda>_. tls_checks a))
       (py_seq (on_tw pause_reading)
         (py_seq (move_buffered a)
           (py_seq (on_tw (sock_set_protocol False BufferedProtocol))
             (py_bind (on_self (call_soon CbConnectionMade [] None)) (\<lambda>conmade_cb.
               py_bind (on_self (call_soon resume_cb [] None)) (\<lambda>resume_handle.
                 py_try wait (\<lambda>e.
                   py_seq (on_tw sock_close)
                     (py_seq (on_self (handle_cancel conmade_cb))
                       (py_seq (on_self (handle_cancel resume_handle)) (py_raise e))))))))))"

section \<open>The next turn of the loop\<close>

definition run_tls_cb :: "sock_transport proto \<Rightarrow> tcb \<Rightarrow> pyarg list \<Rightarrow> unit sock_m" where
  "run_tls_cb P cb args = (if cb = resume_cb then sock_resume_reading P else run_tcb P cb args)"

text \<open>One batch of the loop over the transport's callbacks, then one chunk from the peer.\<close>

definition tls_batch :: "sock_transport proto \<Rightarrow> sock_transport \<Rightarrow> sock_transport" where
  "tls_batch P t =
     fold (\<lambda>e u. if flags (loop u) (re_cancelled e) then u else snd (run_tls_cb P (re_callback e) (re_args e) u))
       (ready (loop t)) (t\<lparr>loop := (loop t)\<lparr>ready := []\<rparr>\<rparr>)"

definition first_turn :: "sock_transport proto \<Rightarrow> bytes \<Rightarrow> unit tls_m" where
  "first_turn P d = py_seq (on_tw (py_mod (tls_batch P))) (on_tw (drain_stream P d))"

section \<open>The upgrade fails\<close>

text \<open>A transport that reads in drain mode, on a loop with nothing scheduled.\<close>

definition reading_idle :: "sock_transport \<Rightarrow> bool" where
  "reading_idle w \<longleftrightarrow> is_reading w \<and> has_loop w \<and> drain_mode w = Some DrainTcp \<and> replay w = [] \<and> conn_lost w = 0 \<and>
     is_polling (loop w) (sock_fd w) True \<and> loop_ok (sock_fd w) (loop w) \<and> ready (loop w) = [] \<and> \<not> debug (loop w)"

text \<open>The transport when the task of \<open>start_tls\<close> waits, with the two callbacks in the queue.\<close>

definition upgrading :: "sock_transport \<Rightarrow> sock_transport" where
  "upgrading w = w\<lparr>paused := True, drain_mode := None, read_ready_cb := Some ReadGetBuffer, protocol := Some BufferedProtocol,
     protocol_connected := True,
     loop := (loop w)\<lparr>ready := [\<lparr>re_callback = CbConnectionMade, re_args = [], re_context = None, re_cancelled = next_flag (loop w)\<rparr>,
                             \<lparr>re_callback = resume_cb, re_args = [], re_context = None, re_cancelled = Suc (next_flag (loop w))\<rparr>],
       flags := (flags (loop w))(next_flag (loop w) := False, Suc (next_flag (loop w)) := False),
       next_flag := Suc (Suc (next_flag (loop w)))\<rparr>\<rparr>"

lemma is_polling_queue [simp]:
  "is_polling (l\<lparr>ready := q\<rparr>) fd d = is_polling l fd d" "is_polling (l\<lparr>flags := g\<rparr>) fd d = is_polling l fd d"
  "is_polling (l\<lparr>next_flag := n\<rparr>) fd d = is_polling l fd d"
  by (simp_all add: is_polling_def Let_def split: option.split)

lemma py_bind_ok: "m w = (Inr x, w') \<Longrightarrow> py_bind m k w = k x w'"
  by (simp add: py_bind_def)

lemma py_seq_ok: "m w = (Inr x, w') \<Longrightarrow> py_seq m n w = n w'"
  by (simp add: py_seq_def py_bind_ok)

lemma move_buffered_tw: "\<exists>s'. move_buffered a s = (Inr (), s') \<and> tw s' = tw s"
  by (auto simp: move_buffered_def tr_run_defs split: option.split list.split)

lemma call_soon_idle:
  "\<not> loop_closed l \<Longrightarrow> \<not> debug l \<Longrightarrow>
     call_soon cb args ctx l = (Inr (next_flag l), l\<lparr>flags := (flags l)(next_flag l := False), next_flag := Suc (next_flag l),
       ready := ready l @ [\<lparr>re_callback = cb, re_args = args, re_context = ctx, re_cancelled = next_flag l\<rparr>]\<rparr>)"
  by (simp add: call_soon_def tr_run_defs check_closed_state_def new_flag_def push_ready_def)

lemma start_tls_waits:
  assumes "tls_checks a = Inr ()" and "reading_idle (tw s)"
  shows "\<exists>s'. start_tls a wait s = py_try wait (\<lambda>e. py_seq (on_tw sock_close)
      (py_seq (on_self (handle_cancel (next_flag (loop (tw s)))))
        (py_seq (on_self (handle_cancel (Suc (next_flag (loop (tw s)))))) (py_raise e)))) s' \<and> tw s' = upgrading (tw s)"
proof -
  let ?w = "tw s" and ?w1 = "(tw s)\<lparr>paused := True\<rparr>"
  have pause: "on_tw pause_reading s = (Inr (), s\<lparr>tw := ?w1\<rparr>)"
    using assms(2) by (simp add: on_tw_def pause_reading_def reading_idle_def tr_run_defs need_loop_def)
  obtain s1 where s1: "move_buffered a (s\<lparr>tw := ?w1\<rparr>) = (Inr (), s1)" "tw s1 = ?w1"
    using move_buffered_tw [of a "s\<lparr>tw := ?w1\<rparr>"] by auto
  let ?w2 = "?w1\<lparr>drain_mode := None, read_ready_cb := Some ReadGetBuffer, protocol := Some BufferedProtocol, protocol_connected := True\<rparr>"
  have set: "on_tw (sock_set_protocol False BufferedProtocol) s1 = (Inr (), s1\<lparr>tw := ?w2\<rparr>)"
    using assms(2) s1(2) by (simp add: on_tw_def sock_set_protocol_def set_protocol_def reading_idle_def tr_run_defs)
  let ?l = "loop ?w"
  let ?f = "next_flag ?l"
  let ?e1 = "\<lparr>re_callback = CbConnectionMade, re_args = [], re_context = None, re_cancelled = ?f\<rparr>"
  let ?l1 = "?l\<lparr>flags := (flags ?l)(?f := False), next_flag := Suc ?f, ready := [?e1]\<rparr>"
  have l: "\<not> loop_closed ?l" "\<not> debug ?l" "ready ?l = []" using assms(2) by (simp_all add: reading_idle_def loop_ok_def)
  then have c1: "on_self (call_soon CbConnectionMade [] None) (s1\<lparr>tw := ?w2\<rparr>) = (Inr ?f, s1\<lparr>tw := ?w2\<lparr>loop := ?l1\<rparr>\<rparr>)"
    and c2: "on_self (call_soon resume_cb [] None) (s1\<lparr>tw := ?w2\<lparr>loop := ?l1\<rparr>\<rparr>) = (Inr (Suc ?f), s1\<lparr>tw := upgrading ?w\<rparr>)"
    by (simp_all add: on_self_def on_tw_def call_soon_idle upgrading_def)
  have "py_check (\<lambda>_. tls_checks a) s = (Inr (), s)" by (simp add: py_check_def assms(1))
  from pause s1(1) set c1 c2 this show ?thesis unfolding start_tls_def
    by (intro exI [of _ "s1\<lparr>tw := upgrading ?w\<rparr>"]) (simp add: py_seq_ok py_bind_ok)
qed

lemma run_connection_made:
  assumes "\<And>u. snd (P ConnectionMade u) = u"
  shows "snd (run_tls_cb P CbConnectionMade [] u) = u\<lparr>log := log u @ [ConnectionMade]\<rparr>"
  using assms [of "u\<lparr>log := log u @ [ConnectionMade]\<rparr>"]
  by (cases "P ConnectionMade (u\<lparr>log := log u @ [ConnectionMade]\<rparr>)")
    (auto simp: run_tls_cb_def resume_cb_def tr_run_defs split: sum.split)

lemma run_resume:
  assumes "paused u" and "\<not> closing u" and "has_loop u" and "replay u = []" and "is_polling (loop u) (sock_fd u) True"
  shows "snd (run_tls_cb P resume_cb [] u) = u\<lparr>paused := False\<rparr>"
  using assms by (simp add: run_tls_cb_def sock_resume_reading_def resume_reading_def tr_run_defs need_loop_def)

text \<open>The batch makes the connection and resumes: the live reader stays the drain reader.\<close>

lemma tls_batch_upgrading:
  assumes "reading_idle w" and "\<And>u. snd (P ConnectionMade u) = u"
  shows "\<exists>l. tls_batch P (upgrading w) = w\<lparr>drain_mode := None, read_ready_cb := Some ReadGetBuffer,
      protocol := Some BufferedProtocol, protocol_connected := True, paused := False, log := log w @ [ConnectionMade], loop := l\<rparr> \<and>
    loop_ok (sock_fd w) l"
proof -
  let ?l = "(loop (upgrading w))\<lparr>ready := []\<rparr>"
  let ?u = "w\<lparr>paused := True, drain_mode := None, read_ready_cb := Some ReadGetBuffer, protocol := Some BufferedProtocol,
     protocol_connected := True, loop := ?l\<rparr>"
  let ?v = "?u\<lparr>log := log w @ [ConnectionMade]\<rparr>"
  have u: "(upgrading w)\<lparr>loop := ?l\<rparr> = ?u" by (simp add: upgrading_def)
  have flg: "\<not> flags (loop (upgrading w)) (next_flag (loop w))" "\<not> flags (loop (upgrading w)) (Suc (next_flag (loop w)))" by (simp_all add: upgrading_def)
  have r: "ready (loop (upgrading w)) = [\<lparr>re_callback = CbConnectionMade, re_args = [], re_context = None, re_cancelled = next_flag (loop w)\<rparr>,
      \<lparr>re_callback = resume_cb, re_args = [], re_context = None, re_cancelled = Suc (next_flag (loop w))\<rparr>]"
    by (simp add: upgrading_def)
  have "snd (run_tls_cb P CbConnectionMade [] ?u) = ?v" 
    using run_connection_made [of P ?u] assms(2) by simp
  moreover have "snd (run_tls_cb P resume_cb [] ?v) = ?v\<lparr>paused := False\<rparr>"
    using assms(1) by (intro run_resume) (simp_all add: reading_idle_def is_reading_def is_closing_def upgrading_def)
  ultimately have "tls_batch P (upgrading w) = ?v\<lparr>paused := False\<rparr>"
    unfolding tls_batch_def r u fold_simps o_def id_def by (simp add: flg)
  moreover have "loop_ok (sock_fd w) ((loop (upgrading w))\<lparr>ready := []\<rparr>)"
    using assms(1) by (simp add: reading_idle_def upgrading_def loop_ok_def)
  ultimately show ?thesis by (intro exI [of _ ?l]) simp
qed

text \<open>A buffered protocol has no \<open>data_received\<close>: a chunk of drain mode ends the connection.\<close>

lemma chunk_aborts:
  assumes "protocol w = Some BufferedProtocol" and "has_loop w" and "conn_lost w = 0" and "\<not> closing w" and "\<not> paused w"
    and "loop_ok (sock_fd w) (loop w)" and "d \<noteq> []" and "\<And>m e u. snd (P (ExceptionHandler m e) u) = u"
  shows "closing (snd (drain_stream P d w)) \<and> conn_lost (snd (drain_stream P d w)) = 1 \<and> log (snd (drain_stream P d w)) = log w"
proof -
  let ?Q = "\<lambda>u. closing u \<and> conn_lost u = 1 \<and> log u = log w"
  have "call_exception_handler P m e w = (Inr (), w)" for m e
    using assms(2) assms(8) [of m e w]
    by (cases "P (ExceptionHandler m e) w") (auto simp: call_exception_handler_def tr_run_defs need_loop_def split: sum.split)
  then have "wp (fatal_error P (AttributeError x) m) (\<lambda>_. ?Q) (\<lambda>_. ?Q) w" for x m
    using force_close_closes [of w "Some (AttributeError x)"] assms(2,3,6)
    by (simp add: fatal_error_def wp_seq wp_def [of "call_exception_handler p m e" for p m e])
  then have "wp (drain_stream P d) (\<lambda>_. ?Q) (\<lambda>_. ?Q) w"
    using assms by (simp add: drain_stream_def deliver_stream_def wp_rules call_protocol_def on_error_def)
  then show ?thesis by (simp add: wp_state)
qed

lemma first_turn_aborts:
  assumes "reading_idle w" and "tw s = upgrading w" and "\<And>u. snd (P ConnectionMade u) = u"
    and "\<And>m e u. snd (P (ExceptionHandler m e) u) = u" and "d \<noteq> []"
  shows "\<exists>r s'. first_turn P d s = (r, s') \<and> closing (tw s') \<and> conn_lost (tw s') = 1 \<and> log (tw s') = log w @ [ConnectionMade]"
proof -
  obtain l where l: "tls_batch P (upgrading w) = w\<lparr>drain_mode := None, read_ready_cb := Some ReadGetBuffer,
      protocol := Some BufferedProtocol, protocol_connected := True, paused := False, log := log w @ [ConnectionMade], loop := l\<rparr>"
      (is "_ = ?v") and ok: "loop_ok (sock_fd w) l"
    using tls_batch_upgrading [of w P] assms(1,3) by blast
  have "first_turn P d s = (fst (drain_stream P d ?v), s\<lparr>tw := snd (drain_stream P d ?v)\<rparr>)"
    by (simp add: first_turn_def py_seq_def py_bind_def on_tw_def py_mod_def assms(2) l split: prod.split)
  moreover have "closing (snd (drain_stream P d ?v)) \<and> conn_lost (snd (drain_stream P d ?v)) = 1 \<and> log (snd (drain_stream P d ?v)) = log ?v"
    using assms ok by (intro chunk_aborts) (simp_all add: reading_idle_def is_reading_def is_closing_def)
  ultimately show ?thesis by auto
qed


definition waiting_protocol :: "sock_transport proto" where
  "waiting_protocol ev u = (Inr 0, u)"

definition sample_tls :: tls_world where
  "sample_tls = \<lparr>tw = sample_reading\<lparr>loop := (loop sample_reading)\<lparr>ready := []\<rparr>\<rparr>, stream_buffer = None, tls_incoming = []\<rparr>"

definition sample_tls_args :: tls_args where
  "sample_tls_args = \<lparr>ta_module = True, ta_context = True, ta_compatible = True, ta_reject = None, ta_server_side = True\<rparr>"


end
