(* ===== verification/Spec2Isabelle.thy ===== *)
theory Spec2Isabelle
  imports Watcher_Tasks Transport_Sendfile Server_Sockets Endpoint_Properties Start_Tls
begin

text \<open>
  Verification of \<^verbatim>\<open>tokioop\<close>, an event loop for asyncio: a Rust core on the Tokio runtime
  (\<^verbatim>\<open>src/src\<close>) that schedules callbacks, timers and descriptor watchers, and a Python layer
  (\<^verbatim>\<open>src/python/tokioop\<close>) with the rest of the asyncio interface: transports, socket
  coroutines, connections, servers, executors and signals.

  \<^bold>\<open>How the parts work together.\<close> \<open>RustEventLoop\<close> (\<^verbatim>\<open>loop.py\<close>) inherits from the Rust class
  \<open>TokioopLoop\<close> (\<^verbatim>\<open>event_loop.rs\<close>), whose state is \<open>LoopState\<close> (\<^verbatim>\<open>state.rs\<close>). A callback
  goes to the ready queue, a timer to the heap; \<open>run_main\<close> runs batches of them and parks until a
  notification or the next deadline. Registering a descriptor (\<^verbatim>\<open>fd.rs\<close>, \<^verbatim>\<open>fd_unix.rs\<close>)
  spawns a watcher task, which pushes completions to the queue that the batch empties: a callback to
  run or, in drain mode, data the task read itself. A transport (\<^verbatim>\<open>transports.py\<close>) registers a
  drain reader and gets its data from the batch. The socket coroutines, connections and servers of
  \<^verbatim>\<open>loop.py\<close> register callbacks, await futures and make transports.

  \<^bold>\<open>How the source becomes definitions.\<close> A method is a computation of type \<open>('w, 'a) py\<close>
  (\<open>Prelude\<close>): a function of the state that returns a value or an exception with the new state; the
  combinators are Python's sequencing, conditionals and \<open>try\<close> forms. Objects are records, and the
  record of the loop's state is extended by the Python subclass, by the transports' loops, by the
  sockets and by the servers. Shared objects (cancel flags, slots, futures, sockets, transports) are
  indices into stores. What lies outside the repository is a parameter or a script of answers: the
  kernel's answers to the system calls, name resolution, thread pools, asyncio's \<open>SSLProtocol\<close> and
  \<open>staggered_race\<close>, the protocols and callbacks of the application, which are arbitrary programs
  over the methods they can call. Machine integers of the core are words; deadlines are rationals with
  infinities and NaN.

  \<^bold>\<open>The Rust core.\<close>
  \<^item> \<open>Loop_State\<close>: \<open>LoopState\<close> and its entries; \<open>Timer_Heap\<close>: the order of the timers, the heap behind
    the locale \<open>timer_queue\<close>, \<open>next_deadline\<close>. Expired timers come out by deadline and then by age;
    \<open>next_deadline\<close> has a value for every deadline a \<open>Duration\<close> can hold, and panics on an infinite one.
  \<^item> \<open>Reactor\<close>: registration, replacement, removal and cancellation of watchers. The watcher count is
    the number of registered directions, and a handle is cancelled exactly when its watcher is gone.
  \<^item> \<open>Watcher_Tasks\<close>: \<open>drain_task\<close>, \<open>drain_loop\<close> and \<open>fd_task\<close> between their \<open>await\<close>s, over Tokio's
    readiness flag. Without read errors a parked reader with unread data is about to be woken and no
    byte is lost or reordered; a read error in front of data stalls it.
  \<^item> \<open>Loop_Core\<close>: the methods of \<open>TokioopLoop\<close>; \<open>Scheduler\<close>: \<open>run_batch\<close> in its three phases and
    \<open>run_main\<close> as the step relation \<open>main_step\<close>, interleaved with other threads, watcher tasks and the
    clock; \<open>Loop_Api\<close>: callbacks as programs over the loop's methods. The locales \<open>callback_env\<close> and
    \<open>timer_env\<close> say what the loop relies on of the code it calls. A batch runs the snapshot of the ready
    queue in order, returns and fires what is due, and no wake-up is lost while the loop parks.

  \<^bold>\<open>The transports.\<close>
  \<^item> \<open>Transport_Base\<close>, \<open>Socket_Transport\<close>, \<open>Datagram_Transport\<close>: the classes of
    \<^verbatim>\<open>transports.py\<close>, method by method. \<open>Socket_Invariant\<close> and \<open>Socket_Properties\<close>: for every
    protocol program (locale \<open>sock_protocol\<close>) and every interleaving of client calls, arrivals, writer
    events and callbacks, written bytes are sent in order, arrivals are delivered in order across
    pauses, flow control alternates, \<open>connection_lost\<close> comes exactly once and a graceful close
    completes. The datagram transport flushes its queue in order and counts its buffer exactly.
  \<^item> \<open>Start_Tls\<close>: \<open>start_tls\<close> and why it breaks the connection it upgrades.

  \<^bold>\<open>The Python loop.\<close>
  \<^item> \<open>Rust_Loop\<close>: guarded descriptor registration, executors, asynchronous generators, names, signals,
    policy and module functions.
  \<^item> \<open>Sock_Ops\<close>, \<open>Sock_Calls\<close>, \<open>Sock_Frame\<close>, \<open>Sock_Properties\<close>: the \<open>sock_*\<close> coroutines. The locales
    \<open>pending_call\<close> and \<open>socket_call\<close> give, for each of them, that awaiting it equals the loop that
    repeats the system call until it does not block.
  \<^item> \<open>Sendfile\<close>, \<open>Transport_Sendfile\<close>: both ways of sending a file, over the shared block loop (locales
    \<open>block_copy\<close> and \<open>live_copy\<close>), with the aliasing of the reused buffer explicit.
  \<^item> \<open>Net_World\<close>, \<open>Connections\<close>: the table of sockets and the client connections; \<open>Connection_Search\<close>:
    \<open>create_connection\<close> refines the search for the first reachable address; \<open>Connection_Ownership\<close>:
    the locales \<open>sock_frame\<close> and \<open>sock_account\<close>, the contracts of an invariant over the open sockets,
    which connections, servers and datagram endpoints interpret; \<open>Connection_Properties\<close>.
  \<^item> \<open>Servers\<close>, \<open>Server_Properties\<close>, \<open>Server_Sockets\<close>: accepting, \<open>create_server\<close> and
    \<open>create_unix_server\<close>. One readiness event takes every pending connection up to the backlog, a
    failing connection stays with its task, and every socket a call opens is closed or owned by a
    server, with the exceptions the theorems name.
  \<^item> \<open>Datagram_Endpoint\<close>, \<open>Endpoint_Properties\<close>: \<open>create_datagram_endpoint\<close>; the dictionary that joins
    local and remote addresses equals its reference, and every socket is accounted for.

  \<^bold>\<open>Bounds and fuel.\<close> The loops of the source that may run for ever (\<open>run_timers\<close>, \<open>run_io\<close>) are
  \<open>partial_function (option)\<close>; that they return is a theorem under stated conditions, and that one does
  not is another. The other loops are structural: over the snapshot of the queue, the length of the
  datagram buffer (each round takes one datagram off it), the number of queued replay items, the
  backlog, the quanta of a reader, lists of addresses. The block loop of sendfile has the number of
  bytes left in the file plus one as fuel, since every round but the last sends at least one byte. A
  task that awaits a socket call runs for a given number of turns of the loop and is then cancelled, as
  a timeout around it would do; the theorems hold for every such number.

  \<^bold>\<open>Not modelled.\<close> The Windows reactor (\<^verbatim>\<open>fd_windows.rs\<close>), a platform variant of the Unix one;
  \<open>parse_addr\<close>, which decodes raw socket addresses; the set-up and tear-down of the interpreter around
  \<open>run_main\<close> in \<open>run_forever\<close> and \<open>run_until_complete\<close>, tasks and futures of asyncio beyond what the
  socket coroutines use of them; log messages; the race of happy eyeballs and
  the inside of the TLS protocol, which are asyncio's; rounding of floating-point deadlines; benchmarks,
  tests and packaging.
\<close>

end
